(* ===== verification/Py_Prelude.thy ===== *)
theory Py_Prelude
  imports Complex_Main
begin

text \<open>
  Shared vocabulary of the development: the parts of Python that the gateway's source uses
  (strings, integers in decimal notation, JSON values) and the combinators in which its
  coroutines are written.

  A Python string is a list of 8-bit characters (the Latin-1 range, which is what an ASGI
  server hands to the application for header values).  Case conversion is the ASCII one.
  Floating-point numbers that only carry time are rationals.
  An operation of the program is a function from a state to an outcome and the state after
  it: \<open>Inl\<close> is a raised exception, \<open>Inr\<close> a returned value, and the state survives an
  exception, as it does in Python.
\<close>

section \<open>Collections of facts\<close>

named_theorems op_simps \<open>evaluation of operations in a given state\<close>
named_theorems op_splits \<open>inversion of operations that returned or raised\<close>
named_theorems keeps_intros \<open>operations that keep an invariant\<close>

section \<open>Operations: state passing with exceptions\<close>

type_synonym ('s, 'x, 'a) op = "'s \<Rightarrow> ('x + 'a) \<times> 's"

definition return :: "'a \<Rightarrow> ('s, 'x, 'a) op" where
  "return a = (\<lambda>s. (Inr a, s))"

definition throw :: "'x \<Rightarrow> ('s, 'x, 'a) op" where
  "throw e = (\<lambda>s. (Inl e, s))"

definition andThen :: "('s, 'x, 'a) op \<Rightarrow> ('a \<Rightarrow> ('s, 'x, 'b) op) \<Rightarrow> ('s, 'x, 'b) op" where
  "andThen m f = (\<lambda>s. case m s of (Inl e, s') \<Rightarrow> (Inl e, s') | (Inr a, s') \<Rightarrow> f a s')"

definition gets :: "('s \<Rightarrow> 'a) \<Rightarrow> ('s, 'x, 'a) op" where
  "gets f = (\<lambda>s. (Inr (f s), s))"

definition modify :: "('s \<Rightarrow> 's) \<Rightarrow> ('s, 'x, unit) op" where
  "modify f = (\<lambda>s. (Inr (), f s))"

definition lift_result :: "'x + 'a \<Rightarrow> ('s, 'x, 'a) op" where
  "lift_result r = (\<lambda>s. (r, s))"

definition ensure :: "bool \<Rightarrow> 'x \<Rightarrow> ('s, 'x, unit) op" where
  \<comment> \<open>\<open>if not b: raise e\<close>\<close>
  "ensure b e = (if b then return () else throw e)"

definition on_exit ::
  "('s, 'x, 'a) op \<Rightarrow> ('x + 'a \<Rightarrow> ('s, 'x, 'b) op) \<Rightarrow> ('s, 'x, 'b) op" where
  \<comment> \<open>\<open>try m except/else k\<close>: the continuation sees the outcome\<close>
  "on_exit m k = (\<lambda>s. case m s of (r, s') \<Rightarrow> k r s')"

lemma return_eval [op_simps]: "return a s = (Inr a, s)"
  by (simp add: return_def)

lemma throw_eval [op_simps]: "throw e s = (Inl e, s)"
  by (simp add: throw_def)

lemma gets_eval [op_simps]: "gets f s = (Inr (f s), s)"
  by (simp add: gets_def)

lemma modify_eval [op_simps]: "modify f s = (Inr (), f s)"
  by (simp add: modify_def)

lemma lift_result_eval [op_simps]: "lift_result r s = (r, s)"
  by (simp add: lift_result_def)

lemma andThen_eval [op_simps]:
  "andThen m f s = (case m s of (Inl e, s') \<Rightarrow> (Inl e, s') | (Inr a, s') \<Rightarrow> f a s')"
  by (simp add: andThen_def)

lemma on_exit_eval [op_simps]: "on_exit m k s = (case m s of (r, s') \<Rightarrow> k r s')"
  by (simp add: on_exit_def)

lemma ensure_eval [op_simps]: "ensure b e s = (if b then (Inr (), s) else (Inl e, s))"
  by (simp add: ensure_def return_def throw_def)

lemma andThen_Inr [op_splits]:
  "andThen m f s = (Inr b, t) \<longleftrightarrow> (\<exists>a u. m s = (Inr a, u) \<and> f a u = (Inr b, t))"
  by (auto simp: andThen_def split: prod.splits sum.splits)

lemma andThen_Inl [op_splits]:
  "andThen m f s = (Inl e, t) \<longleftrightarrow>
     m s = (Inl e, t) \<or> (\<exists>a u. m s = (Inr a, u) \<and> f a u = (Inl e, t))"
  by (auto simp: andThen_def split: prod.splits sum.splits)

lemma ensure_Inr [op_splits]: "ensure b e s = (Inr u, t) \<longleftrightarrow> b \<and> t = s"
  by (auto simp: ensure_def return_def throw_def)

lemma ensure_Inl [op_splits]: "ensure b e s = (Inl x, t) \<longleftrightarrow> \<not> b \<and> x = e \<and> t = s"
  by (auto simp: ensure_def return_def throw_def)

lemma return_Inr [op_splits]: "return a s = (Inr b, t) \<longleftrightarrow> b = a \<and> t = s"
  by (auto simp: return_def)

lemma return_Inl [op_splits]: "\<not> return a s = (Inl e, t)"
  by (auto simp: return_def)

lemma throw_Inr [op_splits]: "\<not> throw e s = (Inr b, t)"
  by (auto simp: throw_def)

lemma throw_Inl [op_splits]: "throw e s = (Inl x, t) \<longleftrightarrow> x = e \<and> t = s"
  by (auto simp: throw_def)

lemma gets_Inr [op_splits]: "gets f s = (Inr b, t) \<longleftrightarrow> b = f s \<and> t = s"
  by (auto simp: gets_def)

lemma gets_Inl [op_splits]: "\<not> gets f s = (Inl e, t)"
  by (auto simp: gets_def)

lemma modify_Inr [op_splits]: "modify f s = (Inr u, t) \<longleftrightarrow> t = f s"
  by (auto simp: modify_def)

lemma modify_Inl [op_splits]: "\<not> modify f s = (Inl e, t)"
  by (auto simp: modify_def)

lemma lift_result_iff [op_splits]: "lift_result r s = (q, t) \<longleftrightarrow> r = q \<and> t = s"
  by (auto simp: lift_result_def)

lemma on_exit_run: "on_exit m k s = (r, t) \<longleftrightarrow> (\<exists>q u. m s = (q, u) \<and> k q u = (r, t))"
  by (auto simp: on_exit_def split: prod.splits)

lemma andThen_cong [fundef_cong]:
  assumes "m s = m' s" and "\<And>a t. m' s = (Inr a, t) \<Longrightarrow> f a t = f' a t"
  shows "andThen m f s = andThen m' f' s"
  using assms by (auto simp: andThen_def split: prod.splits sum.splits)

lemma andThen_step: "m s = (Inr a, t) \<Longrightarrow> andThen m f s = f a t"
  by (simp add: andThen_def)

lemma andThen_return [simp]: "andThen (return a) f = f a"
  by (auto simp: fun_eq_iff op_simps)

lemma andThen_lift_Inr [simp]: "andThen (lift_result (Inr a)) f = f a"
  by (auto simp: fun_eq_iff op_simps)

lemma andThen_ensure [simp]: "b \<Longrightarrow> andThen (ensure b e) f = f ()"
  by (auto simp: fun_eq_iff op_simps)

lemma andThen_assoc: "andThen (andThen m f) g = andThen m (\<lambda>a. andThen (f a) g)"
  by (auto simp: fun_eq_iff op_simps split: prod.splits sum.splits)

subsection \<open>Invariants of operations\<close>

text \<open>
  \<open>keeps I m\<close>: whenever \<open>I\<close> holds before \<open>m\<close> it holds after it, whether \<open>m\<close> returned or
  raised.  The rules follow the combinators, so that an invariant of a handler is proved
  from one lemma per elementary step.
\<close>

definition keeps :: "('s \<Rightarrow> bool) \<Rightarrow> ('s, 'x, 'a) op \<Rightarrow> bool" where
  "keeps I m \<longleftrightarrow> (\<forall>s. I s \<longrightarrow> I (snd (m s)))"

lemma keepsD: "keeps I m \<Longrightarrow> m s = (r, t) \<Longrightarrow> I s \<Longrightarrow> I t"
  by (force simp: keeps_def)

lemma keepsI: "(\<And>s r t. I s \<Longrightarrow> m s = (r, t) \<Longrightarrow> I t) \<Longrightarrow> keeps I m"
  by (metis keeps_def prod.collapse)

lemma keeps_return [keeps_intros]: "keeps I (return a)"
  by (simp add: keeps_def op_simps)

lemma keeps_throw [keeps_intros]: "keeps I (throw e)"
  by (simp add: keeps_def op_simps)

lemma keeps_gets [keeps_intros]: "keeps I (gets f)"
  by (simp add: keeps_def op_simps)

lemma keeps_lift_result [keeps_intros]: "keeps I (lift_result r)"
  by (simp add: keeps_def op_simps)

lemma keeps_ensure [keeps_intros]: "keeps I (ensure b e)"
  by (simp add: keeps_def op_simps)

lemma keeps_modify [keeps_intros]: "(\<And>s. I s \<Longrightarrow> I (f s)) \<Longrightarrow> keeps I (modify f)"
  by (simp add: keeps_def op_simps)

lemma keeps_andThen [keeps_intros]:
  assumes "keeps I m" and "\<And>a. keeps I (f a)"
  shows "keeps I (andThen m f)"
proof (rule keepsI)
  fix s r t
  assume I: "I s" and run: "andThen m f s = (r, t)"
  obtain q u where m: "m s = (q, u)" by (cases "m s")
  from assms(1) m I have "I u" by (rule keepsD)
  with run m show "I t"
    by (cases q) (auto simp: op_simps dest: keepsD [OF assms(2)])
qed

lemma keeps_andThen_result:
  assumes "keeps I m" and "\<And>a s t. m s = (Inr a, t) \<Longrightarrow> keeps I (f a)"
  shows "keeps I (andThen m f)"
proof (rule keepsI)
  fix s r t
  assume I: "I s" and run: "andThen m f s = (r, t)"
  obtain q u where m: "m s = (q, u)" by (cases "m s")
  from assms(1) m I have "I u" by (rule keepsD)
  with run m show "I t"
    by (cases q) (auto simp: op_simps dest: keepsD [OF assms(2)])
qed

lemma keeps_on_exit [keeps_intros]:
  assumes "keeps I m" and "\<And>r. keeps I (k r)"
  shows "keeps I (on_exit m k)"
proof (rule keepsI)
  fix s r t
  assume I: "I s" and run: "on_exit m k s = (r, t)"
  obtain q u where m: "m s = (q, u)" by (cases "m s")
  from assms(1) m I have "I u" by (rule keepsD)
  with run m show "I t"
    by (auto simp: op_simps dest: keepsD [OF assms(2)])
qed

lemma keeps_if [keeps_intros]: "keeps I m \<Longrightarrow> keeps I n \<Longrightarrow> keeps I (if b then m else n)"
  by simp

lemma keeps_case_option [keeps_intros]:
  "keeps I m \<Longrightarrow> (\<And>x. keeps I (f x)) \<Longrightarrow> keeps I (case v of None \<Rightarrow> m | Some x \<Rightarrow> f x)"
  by (cases v) auto

lemma keeps_case_sum [keeps_intros]:
  "(\<And>e. keeps I (f e)) \<Longrightarrow> (\<And>x. keeps I (g x)) \<Longrightarrow>
   keeps I (case v of Inl e \<Rightarrow> f e | Inr x \<Rightarrow> g x)"
  by (cases v) auto

section \<open>Strings\<close>

definition is_ascii :: "char \<Rightarrow> bool" where
  "is_ascii c \<longleftrightarrow> (of_char c :: nat) < 128"

definition upper_char :: "char \<Rightarrow> char" where
  "upper_char c =
     (let n = (of_char c :: nat) in if 97 \<le> n \<and> n \<le> 122 then char_of (n - 32) else c)"

definition lower_char :: "char \<Rightarrow> char" where
  "lower_char c =
     (let n = (of_char c :: nat) in if 65 \<le> n \<and> n \<le> 90 then char_of (n + 32) else c)"

definition upper :: "string \<Rightarrow> string" where
  "upper s = map upper_char s"

definition lower :: "string \<Rightarrow> string" where
  "lower s = map lower_char s"

lemma upper_char_idem [simp]: "upper_char (upper_char c) = upper_char c"
  by (auto simp: upper_char_def Let_def)

lemma upper_idem [simp]: "upper (upper s) = upper s"
  by (simp add: upper_def comp_def)

lemma lower_char_idem [simp]: "lower_char (lower_char c) = lower_char c"
  by (auto simp: lower_char_def Let_def)

lemma lower_idem [simp]: "lower (lower s) = lower s"
  by (simp add: lower_def comp_def)

text \<open>\<open>str.isspace\<close> on the Latin-1 range.\<close>

definition is_space :: "char \<Rightarrow> bool" where
  "is_space c = (let n = (of_char c :: nat) in
     (9 \<le> n \<and> n \<le> 13) \<or> (28 \<le> n \<and> n \<le> 32) \<or> n = 133 \<or> n = 160)"

definition strip :: "string \<Rightarrow> string" where
  "strip s = rev (dropWhile is_space (rev (dropWhile is_space s)))"

lemma dropWhile_none: "(\<And>x. x \<in> set xs \<Longrightarrow> \<not> P x) \<Longrightarrow> dropWhile P xs = xs"
  by (cases xs) auto

lemma takeWhile_nth_split:
  assumes "length (takeWhile P xs) < length xs"
  shows "xs = takeWhile P xs @ xs ! length (takeWhile P xs) # drop (Suc (length (takeWhile P xs))) xs"
  using assms by (induction xs) auto

lemma strip_none: "(\<And>c. c \<in> set s \<Longrightarrow> \<not> is_space c) \<Longrightarrow> strip s = s"
  using dropWhile_none [of s is_space] dropWhile_none [of "rev s" is_space]
  by (simp add: strip_def)

text \<open>\<open>s.split(d)\<close> and \<open>s.partition(d)\<close> for a one-character separator.\<close>

fun split_on :: "char \<Rightarrow> string \<Rightarrow> string list" where
  "split_on d [] = [[]]"
| "split_on d (c # cs) =
     (if c = d then [] # split_on d cs
      else (case split_on d cs of [] \<Rightarrow> [[c]] | w # ws \<Rightarrow> (c # w) # ws))"

definition partition_on :: "char \<Rightarrow> string \<Rightarrow> string \<times> string \<times> string" where
  "partition_on d s =
     (let h = takeWhile (\<lambda>c. c \<noteq> d) s; t = dropWhile (\<lambda>c. c \<noteq> d) s
      in (h, take 1 t, drop 1 t))"

lemma split_on_nonempty [simp]: "split_on d s \<noteq> []"
  by (induction s) (auto split: list.splits)

lemma split_on_none: "d \<notin> set s \<Longrightarrow> split_on d s = [s]"
  by (induction s) auto

lemma split_on_append: "d \<notin> set xs \<Longrightarrow> split_on d (xs @ d # ys) = xs # split_on d ys"
  by (induction xs) auto

lemma partition_on_append:
  "d \<notin> set xs \<Longrightarrow> partition_on d (xs @ d # ys) = (xs, [d], ys)"
  by (induction xs) (auto simp: partition_on_def Let_def)

definition starts_with :: "string \<Rightarrow> string \<Rightarrow> bool" where
  "starts_with p s \<longleftrightarrow> take (length p) s = p"

section \<open>Decimal notation of integers\<close>

definition digit_char :: "nat \<Rightarrow> char" where
  "digit_char d = char_of (48 + d)"

definition is_digit :: "char \<Rightarrow> bool" where
  "is_digit c = (let n = (of_char c :: nat) in 48 \<le> n \<and> n \<le> 57)"

definition digit_val :: "char \<Rightarrow> nat" where
  "digit_val c = of_char c - 48"

fun show_nat :: "nat \<Rightarrow> string" where
  "show_nat n = (if n < 10 then [digit_char n] else show_nat (n div 10) @ [digit_char (n mod 10)])"

declare show_nat.simps [simp del]

definition show_int :: "int \<Rightarrow> string" where
  "show_int i = (if i < 0 then CHR ''-'' # show_nat (nat (- i)) else show_nat (nat i))"

lemma of_char_digit [simp]: "d < 10 \<Longrightarrow> (of_char (digit_char d) :: nat) = 48 + d"
  by (simp add: digit_char_def)

lemma digit_chars [simp]:
  "digit_char 0 = CHR ''0''" "digit_char (Suc 0) = CHR ''1''" "digit_char 2 = CHR ''2''"
  "digit_char 3 = CHR ''3''" "digit_char 4 = CHR ''4''" "digit_char 5 = CHR ''5''"
  "digit_char 6 = CHR ''6''" "digit_char 7 = CHR ''7''" "digit_char 8 = CHR ''8''"
  "digit_char 9 = CHR ''9''"
  by code_simp+

lemma is_digit_char [simp]: "d < 10 \<Longrightarrow> is_digit (digit_char d)"
  by (simp add: is_digit_def)

lemma digit_val_char [simp]: "d < 10 \<Longrightarrow> digit_val (digit_char d) = d"
  by (simp add: digit_val_def)

lemma show_nat_induct [case_names small step]:
  fixes n :: nat
  assumes "\<And>n. n < 10 \<Longrightarrow> P n" and "\<And>n. \<not> n < 10 \<Longrightarrow> P (n div 10) \<Longrightarrow> P n"
  shows "P n"
  by (induction n rule: show_nat.induct) (metis assms)

lemma show_nat_small [simp]: "n < 10 \<Longrightarrow> show_nat n = [digit_char n]"
  by (simp add: show_nat.simps)

lemma show_nat_step:
  "\<not> n < 10 \<Longrightarrow> show_nat n = show_nat (n div 10) @ [digit_char (n mod 10)]"
  by (subst show_nat.simps) simp

lemma show_nat_nonempty [simp]: "show_nat n \<noteq> []"
  by (induction n rule: show_nat_induct) (auto simp: show_nat_step)

lemma show_nat_digits: "c \<in> set (show_nat n) \<Longrightarrow> is_digit c"
  by (induction n rule: show_nat_induct) (auto simp: show_nat_step)

text \<open>
  The value of a digit string, and Python's \<open>int(s)\<close>: surrounding white space, an optional
  sign, digits with single underscores between them, and at most 4300 digits (the
  interpreter's default limit).
\<close>

definition digits_val :: "string \<Rightarrow> nat" where
  "digits_val s = foldl (\<lambda>acc c. 10 * acc + digit_val c) 0 s"

lemma digits_val_snoc: "digits_val (s @ [c]) = 10 * digits_val s + digit_val c"
  by (simp add: digits_val_def)

lemma digits_val_show_nat [simp]: "digits_val (show_nat n) = n"
proof (induction n rule: show_nat_induct)
  case (small n)
  then show ?case by (simp add: digits_val_def)
next
  case (step n)
  then show ?case by (simp add: show_nat_step digits_val_snoc)
qed

lemma show_nat_inject [simp]: "show_nat m = show_nat n \<longleftrightarrow> m = n"
  by (metis digits_val_show_nat)

fun digits_with_underscores :: "bool \<Rightarrow> string \<Rightarrow> bool" where
  "digits_with_underscores prev [] = prev"
| "digits_with_underscores prev (c # cs) =
     (if is_digit c then digits_with_underscores True cs
      else c = CHR ''_'' \<and> prev \<and> digits_with_underscores False cs)"

definition int_of_str :: "string \<Rightarrow> int option" where
  "int_of_str s =
     (let t = strip s;
          neg = (take 1 t = ''-'');
          body = (if take 1 t = ''-'' \<or> take 1 t = ''+'' then drop 1 t else t);
          ds = filter is_digit body
      in if digits_with_underscores False body \<and> length ds \<le> 4300
         then Some (if neg then - int (digits_val ds) else int (digits_val ds))
         else None)"

lemma digits_with_underscores_digits:
  "\<forall>c \<in> set s. is_digit c \<Longrightarrow> digits_with_underscores prev s \<longleftrightarrow> prev \<or> s \<noteq> []"
proof (induction s arbitrary: prev)
  case Nil
  then show ?case by simp
next
  case (Cons c s)
  then show ?case by simp
qed

lemma digit_not_space: "is_digit c \<Longrightarrow> \<not> is_space c"
  by (auto simp: is_digit_def is_space_def Let_def)

lemma digit_ne_sign:
  "is_digit c \<Longrightarrow> c \<noteq> CHR ''-''" "is_digit c \<Longrightarrow> c \<noteq> CHR ''+''"
  "is_digit c \<Longrightarrow> c \<noteq> CHR '',''" "is_digit c \<Longrightarrow> c \<noteq> CHR ''=''"
  by (auto simp: is_digit_def)

lemma show_int_no_space: "c \<in> set (show_int i) \<Longrightarrow> \<not> is_space c"
  by (auto simp: show_int_def is_space_def Let_def
      dest!: show_nat_digits digit_not_space split: if_splits)

lemma show_int_chars: "c \<in> set (show_int i) \<Longrightarrow> is_digit c \<or> c = CHR ''-''"
  by (auto simp: show_int_def dest: show_nat_digits split: if_splits)

lemma filter_digits_show_nat [simp]: "filter is_digit (show_nat n) = show_nat n"
  by (simp add: filter_id_conv show_nat_digits)

lemma take1_show_nat: "take 1 (show_nat n) \<noteq> ''-''" "take 1 (show_nat n) \<noteq> ''+''"
  using show_nat_digits [of "hd (show_nat n)" n]
  by (cases "show_nat n"; auto simp: is_digit_def)+

theorem int_of_str_show_int:
  assumes "length (show_nat (nat \<bar>i\<bar>)) \<le> 4300"
  shows "int_of_str (show_int i) = Some i"
proof -
  have strip: "strip (show_int i) = show_int i"
    by (rule strip_none) (rule show_int_no_space)
  have digs: "digits_with_underscores False (show_nat n)" for n
    by (subst digits_with_underscores_digits) (auto dest: show_nat_digits)
  show ?thesis
  proof (cases "i < 0")
    case True
    with assms digs show ?thesis
      by (simp add: int_of_str_def strip, simp add: show_int_def)
  next
    case False
    with assms digs take1_show_nat [of "nat i"] show ?thesis
      by (simp add: int_of_str_def strip, simp add: show_int_def Let_def)
  qed
qed

section \<open>JSON values\<close>

text \<open>
  The values \<open>json.loads\<close> produces.  A float is identified by its shortest representation
  (Python's \<open>repr\<close>), which determines it.  An object keeps its keys in insertion order, as a
  \<open>dict\<close> does.
\<close>

datatype json =
    JNull
  | JBool bool
  | JInt int
  | JFloat string
  | JStr string
  | JArr "json list"
  | JObj "(string \<times> json) list"

fun truthy :: "json \<Rightarrow> bool" where
  "truthy JNull = False"
| "truthy (JBool b) = b"
| "truthy (JInt i) = (i \<noteq> 0)"
| "truthy (JFloat r) = (r \<noteq> ''0.0'' \<and> r \<noteq> ''-0.0'')"
| "truthy (JStr s) = (s \<noteq> [])"
| "truthy (JArr xs) = (xs \<noteq> [])"
| "truthy (JObj xs) = (xs \<noteq> [])"

definition opt_str :: "string option \<Rightarrow> json" where
  "opt_str v = (case v of None \<Rightarrow> JNull | Some s \<Rightarrow> JStr s)"

text \<open>\<open>d[k] = v\<close> on an association list that stands for a \<open>dict\<close>: an existing key keeps its place.\<close>

fun dict_set :: "'k \<Rightarrow> 'v \<Rightarrow> ('k \<times> 'v) list \<Rightarrow> ('k \<times> 'v) list" where
  "dict_set k v [] = [(k, v)]"
| "dict_set k v ((k', v') # xs) = (if k' = k then (k, v) # xs else (k', v') # dict_set k v xs)"

lemma map_of_dict_set [simp]: "map_of (dict_set k v xs) = (map_of xs)(k \<mapsto> v)"
  by (induction k v xs rule: dict_set.induct) (auto simp: fun_eq_iff)

lemma dict_set_keys [simp]: "fst ` set (dict_set k v xs) = insert k (fst ` set xs)"
  by (induction k v xs rule: dict_set.induct) auto

lemma distinct_dict_set: "distinct (map fst xs) \<Longrightarrow> distinct (map fst (dict_set k v xs))"
  by (induction k v xs rule: dict_set.induct) auto

end
