(* ===== verification/Errors.thy ===== *)
theory Errors
  imports Py_Prelude
begin

text \<open>
  The error taxonomy of \<^verbatim>\<open>app/core/errors.py\<close> and the exception handlers of
  \<^verbatim>\<open>app/api/error_handlers.py\<close>.  Every exception a part of the program can raise is a value of
  \<open>exc\<close>: a domain error object, an exception of the framework that has its own handler, or a
  Python or library exception that no layer translates.
\<close>

section \<open>Codes and classes\<close>

datatype ErrorCode =
    VALIDATION_ERROR | AUTHENTICATION_FAILED | PERMISSION_DENIED | NOT_FOUND | CONFLICT
  | IDEMPOTENCY_CONFLICT | RATE_LIMITED | INVALID_STATE | PROVIDER_ERROR
  | PROVIDER_UNAVAILABLE | CIRCUIT_OPEN | SIGNATURE_INVALID | REPLAY_DETECTED
  | UNSUPPORTED_CURRENCY | INSUFFICIENT_FUNDS | INTERNAL_ERROR

fun ErrorCode_value :: "ErrorCode \<Rightarrow> string" where
  "ErrorCode_value VALIDATION_ERROR = ''validation_error''"
| "ErrorCode_value AUTHENTICATION_FAILED = ''authentication_failed''"
| "ErrorCode_value PERMISSION_DENIED = ''permission_denied''"
| "ErrorCode_value NOT_FOUND = ''not_found''"
| "ErrorCode_value CONFLICT = ''conflict''"
| "ErrorCode_value IDEMPOTENCY_CONFLICT = ''idempotency_conflict''"
| "ErrorCode_value RATE_LIMITED = ''rate_limited''"
| "ErrorCode_value INVALID_STATE = ''invalid_state''"
| "ErrorCode_value PROVIDER_ERROR = ''provider_error''"
| "ErrorCode_value PROVIDER_UNAVAILABLE = ''provider_unavailable''"
| "ErrorCode_value CIRCUIT_OPEN = ''circuit_open''"
| "ErrorCode_value SIGNATURE_INVALID = ''signature_invalid''"
| "ErrorCode_value REPLAY_DETECTED = ''replay_detected''"
| "ErrorCode_value UNSUPPORTED_CURRENCY = ''unsupported_currency''"
| "ErrorCode_value INSUFFICIENT_FUNDS = ''insufficient_funds''"
| "ErrorCode_value INTERNAL_ERROR = ''internal_error''"

datatype error_class =
    DomainError | ValidationError | AuthenticationError | PermissionDeniedError
  | NotFoundError | ConflictError | IdempotencyConflictError | RateLimitedError
  | InvalidStateError | UnsupportedCurrencyError | ProviderError | ProviderUnavailableError
  | CircuitOpenError | SignatureInvalidError | ReplayDetectedError

text \<open>The class attributes \<open>code\<close> and \<open>http_status\<close>; \<open>CircuitOpenError\<close> inherits its status.\<close>

fun class_code :: "error_class \<Rightarrow> ErrorCode" where
  "class_code DomainError = INTERNAL_ERROR"
| "class_code ValidationError = VALIDATION_ERROR"
| "class_code AuthenticationError = AUTHENTICATION_FAILED"
| "class_code PermissionDeniedError = PERMISSION_DENIED"
| "class_code NotFoundError = NOT_FOUND"
| "class_code ConflictError = CONFLICT"
| "class_code IdempotencyConflictError = IDEMPOTENCY_CONFLICT"
| "class_code RateLimitedError = RATE_LIMITED"
| "class_code InvalidStateError = INVALID_STATE"
| "class_code UnsupportedCurrencyError = UNSUPPORTED_CURRENCY"
| "class_code ProviderError = PROVIDER_ERROR"
| "class_code ProviderUnavailableError = PROVIDER_UNAVAILABLE"
| "class_code CircuitOpenError = CIRCUIT_OPEN"
| "class_code SignatureInvalidError = SIGNATURE_INVALID"
| "class_code ReplayDetectedError = REPLAY_DETECTED"

fun class_http_status :: "error_class \<Rightarrow> int" where
  "class_http_status DomainError = 500"
| "class_http_status ValidationError = 422"
| "class_http_status AuthenticationError = 401"
| "class_http_status PermissionDeniedError = 403"
| "class_http_status NotFoundError = 404"
| "class_http_status ConflictError = 409"
| "class_http_status IdempotencyConflictError = 409"
| "class_http_status RateLimitedError = 429"
| "class_http_status InvalidStateError = 409"
| "class_http_status UnsupportedCurrencyError = 422"
| "class_http_status ProviderError = 502"
| "class_http_status ProviderUnavailableError = 503"
| "class_http_status CircuitOpenError = 503"
| "class_http_status SignatureInvalidError = 400"
| "class_http_status ReplayDetectedError = 400"

definition is_subclass :: "error_class \<Rightarrow> error_class \<Rightarrow> bool" where
  "is_subclass c d \<longleftrightarrow>
     c = d \<or> d = DomainError \<or> (c = CircuitOpenError \<and> d = ProviderUnavailableError)"

section \<open>Error objects\<close>

record domain_error =
  err_class :: error_class
  err_message :: string
  err_details :: "(string \<times> json) list"
  err_code :: ErrorCode
  err_http_status :: int

definition DomainError_init ::
  "error_class \<Rightarrow> string \<Rightarrow> (string \<times> json) list option \<Rightarrow> ErrorCode option \<Rightarrow> int option
   \<Rightarrow> domain_error" where
  "DomainError_init cls message details code http_status =
     \<lparr> err_class = cls,
       err_message = message,
       err_details = (case details of None \<Rightarrow> [] | Some d \<Rightarrow> d),
       err_code = (case code of None \<Rightarrow> class_code cls | Some c \<Rightarrow> c),
       err_http_status = (case http_status of None \<Rightarrow> class_http_status cls | Some h \<Rightarrow> h) \<rparr>"

definition to_envelope :: "domain_error \<Rightarrow> string option \<Rightarrow> json" where
  "to_envelope e correlation_id =
     (let inner = [(''code'', JStr (ErrorCode_value (err_code e))),
                   (''message'', JStr (err_message e))];
          inner = (if err_details e \<noteq> []
                   then inner @ [(''details'', JObj (err_details e))] else inner);
          inner = (case correlation_id of
                     None \<Rightarrow> inner
                   | Some cid \<Rightarrow> if cid \<noteq> [] then inner @ [(''correlation_id'', JStr cid)]
                                 else inner)
      in JObj [(''error'', JObj inner)])"

text \<open>
  Exceptions.  The library exceptions listed are those the modelled code can meet:
  \<open>InvalidOperation\<close> of \<open>decimal\<close>, the two \<open>httpx\<close> families the gateway translates, the
  database driver's \<open>IntegrityError\<close> and \<open>MultipleResultsFound\<close>, \<open>InvalidTag\<close> of the AEAD, the
  password hasher's three exceptions and the two of the token library that \<open>decode\<close> tells apart
  (\<open>InvalidTokenError\<close> stands for every kind but an expired signature).
\<close>

datatype py_exc =
    CurrencyError string
  | TypeError
  | ValueError
  | KeyError string
  | IndexError
  | AttributeError
  | AssertionError
  | RuntimeError
  | InvalidOperation
  | UnicodeError
  | JSONDecodeError
  | DecryptionError string
  | InvalidTag
  | IntegrityError
  | MultipleResultsFound
  | TimeoutException
  | TransportError
  | VerifyMismatchError
  | InvalidHashError
  | VerificationError
  | ExpiredSignatureError
  | InvalidTokenError

datatype exc =
    Domain domain_error
  | RequestValidationError "(string list \<times> string \<times> string) list"
  | HTTPException int string
  | Py py_exc

definition err :: "error_class \<Rightarrow> string \<Rightarrow> exc" where
  "err cls message = Domain (DomainError_init cls message None None None)"

definition err_with :: "error_class \<Rightarrow> string \<Rightarrow> (string \<times> json) list \<Rightarrow> exc" where
  "err_with cls message details = Domain (DomainError_init cls message (Some details) None None)"

definition is_instance :: "error_class \<Rightarrow> exc \<Rightarrow> bool" where
  "is_instance cls e = (case e of Domain d \<Rightarrow> is_subclass (err_class d) cls | _ \<Rightarrow> False)"

type_synonym 'a result = "exc + 'a"

lemma err_class_err [simp]:
  "is_instance cls (err c m) = is_subclass c cls" "is_instance cls (err_with c m d) = is_subclass c cls"
  by (simp_all add: is_instance_def err_def err_with_def DomainError_init_def)

lemma is_instance_Py [simp]: "\<not> is_instance cls (Py x)"
  by (simp add: is_instance_def)

lemma err_inject [simp]: "err c m = err c' m' \<longleftrightarrow> c = c' \<and> m = m'"
  by (auto simp: err_def DomainError_init_def)

lemma err_ne_Py [simp]: "err c m \<noteq> Py x" "err_with c m d \<noteq> Py x"
  by (auto simp: err_def err_with_def)

section \<open>Exception handlers\<close>

text \<open>\<open>cid\<close> is the value of the context variable \<open>correlation_id_var\<close>; empty means no request.\<close>

definition envelope :: "string \<Rightarrow> string \<Rightarrow> string \<Rightarrow> (string \<times> json) list option \<Rightarrow> json" where
  "envelope cid code message details =
     (let inner = [(''code'', JStr code), (''message'', JStr message)];
          inner = (case details of
                     None \<Rightarrow> inner
                   | Some d \<Rightarrow> if d \<noteq> [] then inner @ [(''details'', JObj d)] else inner);
          inner = (if cid \<noteq> [] then inner @ [(''correlation_id'', JStr cid)] else inner)
      in JObj [(''error'', JObj inner)])"

definition validation_detail :: "string list \<times> string \<times> string \<Rightarrow> json" where
  "validation_detail e = (case e of (loc, msg, typ) \<Rightarrow>
     JObj [(''loc'', JArr (map JStr loc)), (''message'', JStr msg), (''type'', JStr typ)])"

fun handle_exception :: "string \<Rightarrow> exc \<Rightarrow> int \<times> json" where
  "handle_exception cid (Domain e) =
     (err_http_status e,
      envelope cid (ErrorCode_value (err_code e)) (err_message e)
        (if err_details e \<noteq> [] then Some (err_details e) else None))"
| "handle_exception cid (RequestValidationError es) =
     (422, envelope cid (ErrorCode_value VALIDATION_ERROR) ''request validation failed''
             (Some [(''errors'', JArr (map validation_detail es))]))"
| "handle_exception cid (HTTPException status detail) =
     (status,
      envelope cid
        (if status = 404 then ErrorCode_value NOT_FOUND else ErrorCode_value INTERNAL_ERROR)
        detail None)"
| "handle_exception cid (Py e) =
     (500, envelope cid (ErrorCode_value INTERNAL_ERROR) ''an unexpected error occurred'' None)"

section \<open>Properties\<close>

text \<open>The two renderings of a domain error agree: the envelope an error object builds for
  itself with \<open>to_envelope\<close> is, for every correlation id, the body the registered exception
  handler sends, and the handler's status is the error's \<open>http_status\<close>.\<close>

theorem envelope_renderings_agree:
  "handle_exception cid (Domain e) =
     (err_http_status e, to_envelope e (if cid = [] then None else Some cid))"
  by (simp add: to_envelope_def envelope_def Let_def)

text \<open>Codes are stable identifiers: no two have the same wire value.\<close>

lemma ErrorCode_value_inject: "ErrorCode_value a = ErrorCode_value b \<longleftrightarrow> a = b"
  by (cases a; cases b; simp)

lemma class_http_status_range: "400 \<le> class_http_status c \<and> class_http_status c < 600"
  by (cases c) auto

end
