(* ===== verification/Hashing.thy ===== *)
theory Hashing
  imports Py_Prelude "HOL-Library.Word"
begin

text \<open>
  Bytes, UTF-8, hexadecimal notation, SHA-256 and HMAC as the standard library computes them
  (\<^verbatim>\<open>hashlib\<close>, \<^verbatim>\<open>hmac\<close>).  A byte string is a list of 8-bit characters.  The digest functions
  are concrete, so that what is proved about signatures, API keys and idempotency records does
  not rest on an assumed hash.
\<close>

unbundle bit_operations_syntax

section \<open>UTF-8 and hexadecimal notation\<close>

definition utf8_char :: "char \<Rightarrow> string" where
  "utf8_char c =
     (let n = (of_char c :: nat)
      in if n < 128 then [c] else [char_of (192 + n div 64), char_of (128 + n mod 64)])"

definition utf8 :: "string \<Rightarrow> string" where
  "utf8 s = concat (map utf8_char s)"

lemma utf8_char_ascii: "is_ascii c \<Longrightarrow> utf8_char c = [c]"
  by (simp add: utf8_char_def is_ascii_def)

lemma utf8_ascii: "list_all is_ascii s \<Longrightarrow> utf8 s = s"
  by (induction s) (auto simp: utf8_def utf8_char_ascii)

definition hex_char :: "nat \<Rightarrow> char" where
  "hex_char d = (if d < 10 then char_of (48 + d) else char_of (87 + d))"

definition is_hex_char :: "char \<Rightarrow> bool" where
  "is_hex_char c =
     (let n = (of_char c :: nat) in (48 \<le> n \<and> n \<le> 57) \<or> (97 \<le> n \<and> n \<le> 102))"

definition hex_byte :: "char \<Rightarrow> string" where
  "hex_byte c = (let n = (of_char c :: nat) in [hex_char (n div 16), hex_char (n mod 16)])"

definition hexdigest :: "string \<Rightarrow> string" where
  "hexdigest bytes = concat (map hex_byte bytes)"

definition hex_val :: "char \<Rightarrow> nat option" where
  "hex_val c =
     (let n = (of_char c :: nat)
      in if 48 \<le> n \<and> n \<le> 57 then Some (n - 48)
         else if 97 \<le> n \<and> n \<le> 102 then Some (n - 87)
         else if 65 \<le> n \<and> n \<le> 70 then Some (n - 55) else None)"

lemma hex_val_char [simp]: "d < 16 \<Longrightarrow> hex_val (hex_char d) = Some d"
  by (auto simp: hex_val_def hex_char_def Let_def)

lemma is_hex_hex_char [simp]: "d < 16 \<Longrightarrow> is_hex_char (hex_char d)"
  by (auto simp: hex_char_def is_hex_char_def Let_def)

lemma is_hex_ascii: "is_hex_char c \<Longrightarrow> is_ascii c"
  by (auto simp: is_hex_char_def is_ascii_def Let_def)

lemma of_char_less: "(of_char c :: nat) < 256"
  by (metis nat_of_char_less_256)

lemma length_hexdigest [simp]: "length (hexdigest bs) = 2 * length bs"
  by (induction bs) (auto simp: hexdigest_def hex_byte_def Let_def)

lemma hexdigest_chars: "c \<in> set (hexdigest bs) \<Longrightarrow> is_hex_char c"
  using of_char_less
  by (auto simp: hexdigest_def hex_byte_def Let_def less_mult_imp_div_less)

section \<open>SHA-256\<close>

type_synonym w32 = "32 word"
type_synonym sha_state = "w32 \<times> w32 \<times> w32 \<times> w32 \<times> w32 \<times> w32 \<times> w32 \<times> w32"

text \<open>The round constants and the initial state of SHA-256, written in decimal: the first 32 bits of
  the fractional parts of the cube roots of the first 64 primes and of the square roots of the
  first eight.\<close>

definition sha_k :: "w32 list" where
  "sha_k =
     [1116352408, 1899447441, 3049323471, 3921009573, 961987163, 1508970993, 2453635748, 2870763221,
      3624381080, 310598401, 607225278, 1426881987, 1925078388, 2162078206, 2614888103, 3248222580,
      3835390401, 4022224774, 264347078, 604807628, 770255983, 1249150122, 1555081692, 1996064986,
      2554220882, 2821834349, 2952996808, 3210313671, 3336571891, 3584528711, 113926993, 338241895,
      666307205, 773529912, 1294757372, 1396182291, 1695183700, 1986661051, 2177026350, 2456956037,
      2730485921, 2820302411, 3259730800, 3345764771, 3516065817, 3600352804, 4094571909, 275423344,
      430227734, 506948616, 659060556, 883997877, 958139571, 1322822218, 1537002063, 1747873779,
      1955562222, 2024104815, 2227730452, 2361852424, 2428436474, 2756734187, 3204031479, 3329325298]"

definition sha_init :: sha_state where
  "sha_init =
     (1779033703, 3144134277, 1013904242, 2773480762, 1359893119, 2600822924, 528734635, 1541459225)"

definition be_bytes :: "nat \<Rightarrow> nat \<Rightarrow> string" where
  \<comment> \<open>\<open>n\<close> as \<open>k\<close> bytes, most significant first\<close>
  "be_bytes k n = map (\<lambda>i. char_of (n div 256 ^ i)) (rev [0..<k])"

definition sha_pad :: "string \<Rightarrow> string" where
  "sha_pad msg =
     msg @ CHR 0x80 # replicate ((119 - length msg mod 64) mod 64) (CHR 0x00) @ be_bytes 8 (8 * length msg)"

fun be_words :: "string \<Rightarrow> w32 list" where
  "be_words (a # b # c # d # rest) =
     of_nat (((of_char a * 256 + of_char b) * 256 + of_char c) * 256 + of_char d) # be_words rest"
| "be_words _ = []"

definition sig0 :: "w32 \<Rightarrow> w32" where
  "sig0 x = word_rotr 7 x XOR word_rotr 18 x XOR drop_bit 3 x"

definition sig1 :: "w32 \<Rightarrow> w32" where
  "sig1 x = word_rotr 17 x XOR word_rotr 19 x XOR drop_bit 10 x"

fun sha_extend :: "nat \<Rightarrow> w32 list \<Rightarrow> w32 list" where
  "sha_extend 0 w = w"
| "sha_extend (Suc n) w =
     (let i = length w
      in sha_extend n (w @ [sig1 (w ! (i - 2)) + w ! (i - 7) + sig0 (w ! (i - 15)) + w ! (i - 16)]))"

definition sha_round :: "w32 \<times> w32 \<Rightarrow> sha_state \<Rightarrow> sha_state" where
  "sha_round kw st = (case (kw, st) of ((k, w), (a, b, c, d, e, f, g, h)) \<Rightarrow>
     let s1 = word_rotr 6 e XOR word_rotr 11 e XOR word_rotr 25 e;
         ch = (e AND f) XOR (NOT e AND g);
         t1 = h + s1 + ch + k + w;
         s0 = word_rotr 2 a XOR word_rotr 13 a XOR word_rotr 22 a;
         maj = (a AND b) XOR (a AND c) XOR (b AND c);
         t2 = s0 + maj
     in (t1 + t2, a, b, c, d + t1, e, f, g))"

definition sha_add :: "sha_state \<Rightarrow> sha_state \<Rightarrow> sha_state" where
  "sha_add x y = (case (x, y) of ((a, b, c, d, e, f, g, h), (a', b', c', d', e', f', g', h')) \<Rightarrow>
     (a + a', b + b', c + c', d + d', e + e', f + f', g + g', h + h'))"

definition sha_block :: "w32 list \<Rightarrow> sha_state \<Rightarrow> sha_state" where
  "sha_block w st = sha_add st (fold sha_round (zip sha_k (sha_extend 48 w)) st)"

function sha_blocks :: "w32 list \<Rightarrow> sha_state \<Rightarrow> sha_state" where
  "sha_blocks ws st =
     (if length ws < 16 then st else sha_blocks (drop 16 ws) (sha_block (take 16 ws) st))"
  by pat_completeness auto
termination by (relation "measure (length \<circ> fst)") auto

declare sha_blocks.simps [simp del]

definition sha_output :: "sha_state \<Rightarrow> string" where
  "sha_output st = (case st of (a, b, c, d, e, f, g, h) \<Rightarrow>
     concat (map (\<lambda>w. be_bytes 4 (unat w)) [a, b, c, d, e, f, g, h]))"

definition sha256 :: "string \<Rightarrow> string" where
  "sha256 msg = sha_output (sha_blocks (be_words (sha_pad msg)) sha_init)"

lemma length_be_bytes [simp]: "length (be_bytes k n) = k"
  by (simp add: be_bytes_def)

lemma length_sha256 [simp]: "length (sha256 msg) = 32"
  by (simp add: sha256_def sha_output_def split: prod.splits)

text \<open>Padding completes whole 64-byte blocks, so no byte of the message is left out.\<close>

lemma sha_pad_blocks: "length (sha_pad msg) mod 64 = 0"
proof -
  define q r where "q = length msg div 64" and "r = length msg mod 64"
  then have n: "length msg = 64 * q + r" and "r < 64" by simp_all
  then have "(119 - r) mod 64 + r = 55 \<or> (119 - r) mod 64 + r = 119"
    by (cases "r \<le> 55") (auto simp: mod_if)
  then have "length msg + 9 + (119 - r) mod 64 = 64 * (q + 1) \<or> length msg + 9 + (119 - r) mod 64 = 64 * (q + 2)"
    using n by auto
  moreover have "length (sha_pad msg) = length msg + 9 + (119 - r) mod 64"
    by (simp add: sha_pad_def r_def)
  ultimately show ?thesis by (metis mod_mult_self1_is_0)
qed

section \<open>HMAC\<close>

definition xor_byte :: "nat \<Rightarrow> char \<Rightarrow> char" where
  "xor_byte m c = char_of (xor m (of_char c :: nat))"

definition hmac_key :: "string \<Rightarrow> string" where
  "hmac_key key =
     (let k = (if length key > 64 then sha256 key else key)
      in k @ replicate (64 - length k) (CHR 0x00))"

definition hmac_sha256 :: "string \<Rightarrow> string \<Rightarrow> string" where
  "hmac_sha256 key msg =
     sha256 (map (xor_byte 0x5c) (hmac_key key) @ sha256 (map (xor_byte 0x36) (hmac_key key) @ msg))"

lemma length_hmac [simp]: "length (hmac_sha256 key msg) = 32"
  by (simp add: hmac_sha256_def)

lemma length_hmac_key [simp]: "length (hmac_key key) = 64"
  by (simp add: hmac_key_def Let_def)

end
