(* ===== verification/Base64.thy ===== *)
theory Base64
  imports Errors Hashing
begin

text \<open>
  \<open>base64.urlsafe_b64encode\<close> and \<open>urlsafe_b64decode\<close> of the standard library, the latter with
  the interpreter's lenient treatment of characters outside the alphabet and of padding, and
  UTF-8 decoding into the Latin-1 range.
\<close>

section \<open>The alphabet\<close>

definition b64_char :: "nat \<Rightarrow> char" where
  "b64_char n =
     (if n < 26 then char_of (65 + n) else if n < 52 then char_of (71 + n)
      else if n < 62 then char_of (n - 4) else if n = 62 then CHR ''-'' else CHR ''_'')"

definition b64_val :: "char \<Rightarrow> nat option" where
  "b64_val c = (let n = (of_char c :: nat) in
     if 65 \<le> n \<and> n \<le> 90 then Some (n - 65)
     else if 97 \<le> n \<and> n \<le> 122 then Some (n - 71)
     else if 48 \<le> n \<and> n \<le> 57 then Some (n + 4)
     else if c = CHR ''-'' \<or> c = CHR ''+'' then Some 62
     else if c = CHR ''_'' \<or> c = CHR ''/'' then Some 63
     else None)"

lemma b64_val_char [simp]: "n < 64 \<Longrightarrow> b64_val (b64_char n) = Some n"
  by (auto simp: b64_char_def b64_val_def Let_def)

lemma b64_char_not_pad [simp]: "n < 64 \<Longrightarrow> b64_char n \<noteq> CHR ''=''"
  using b64_val_char [of n] by (auto simp: b64_val_def)

lemma b64_char_ascii [simp]: "is_ascii (b64_char n)"
  by (auto simp: b64_char_def is_ascii_def)

section \<open>Encoding\<close>

fun b64encode :: "string \<Rightarrow> string" where
  "b64encode [] = []"
| "b64encode [a] =
     (let x = (of_char a :: nat) in [b64_char (x div 4), b64_char (x mod 4 * 16), CHR ''='', CHR ''=''])"
| "b64encode [a, b] =
     (let x = (of_char a :: nat); y = (of_char b :: nat)
      in [b64_char (x div 4), b64_char (x mod 4 * 16 + y div 16), b64_char (y mod 16 * 4), CHR ''=''])"
| "b64encode (a # b # c # rest) =
     (let x = (of_char a :: nat); y = (of_char b :: nat); z = (of_char c :: nat)
      in [b64_char (x div 4), b64_char (x mod 4 * 16 + y div 16),
          b64_char (y mod 16 * 4 + z div 64), b64_char (z mod 64)] @ b64encode rest)"

section \<open>Decoding\<close>

text \<open>The loop of \<open>binascii.a2b_base64\<close>: position in the quad, bits left over, pads in a row.\<close>

fun a2b :: "string \<Rightarrow> nat \<Rightarrow> nat \<Rightarrow> nat \<Rightarrow> string \<Rightarrow> string option" where
  "a2b [] quad_pos leftchar pads out = (if quad_pos \<noteq> 0 then None else Some out)"
| "a2b (c # cs) quad_pos leftchar pads out =
     (if c = CHR ''=''
      then (if quad_pos \<ge> 2
            then (if quad_pos + (pads + 1) \<ge> 4 then Some out else a2b cs quad_pos leftchar (pads + 1) out)
            else a2b cs quad_pos leftchar pads out)
      else (case b64_val c of
              None \<Rightarrow> a2b cs quad_pos leftchar pads out
            | Some v \<Rightarrow>
                (if quad_pos = 0 then a2b cs 1 v 0 out
                 else if quad_pos = 1 then a2b cs 2 (v mod 16) 0 (out @ [char_of (leftchar * 4 + v div 16)])
                 else if quad_pos = 2 then a2b cs 3 (v mod 4) 0 (out @ [char_of (leftchar * 16 + v div 4)])
                 else a2b cs 0 0 0 (out @ [char_of (leftchar * 64 + v)]))))"

definition b64decode :: "string \<Rightarrow> string result" where
  "b64decode s =
     (if \<not> list_all is_ascii s then Inl (Py ValueError)
      else (case a2b s 0 0 0 [] of None \<Rightarrow> Inl (Py ValueError) | Some bs \<Rightarrow> Inr bs))"

section \<open>UTF-8 decoding\<close>

fun utf8_decode :: "string \<Rightarrow> string result" where
  "utf8_decode [] = Inr []"
| "utf8_decode (c # cs) =
     (let n = (of_char c :: nat)
      in if n < 128
         then (case utf8_decode cs of Inl e \<Rightarrow> Inl e | Inr s \<Rightarrow> Inr (c # s))
         else if n = 194 \<or> n = 195
         then (case cs of
                 [] \<Rightarrow> Inl (Py UnicodeError)
               | d # ds \<Rightarrow>
                   (let m = (of_char d :: nat)
                    in if 128 \<le> m \<and> m < 192
                       then (case utf8_decode ds of
                               Inl e \<Rightarrow> Inl e | Inr s \<Rightarrow> Inr (char_of ((n - 192) * 64 + (m - 128)) # s))
                       else Inl (Py UnicodeError)))
         else Inl (Py UnicodeError))"

section \<open>Round trips\<close>

lemma byte_split:
  fixes x y z :: nat
  assumes "x < 256" and "y < 256" and "z < 256"
  shows "x div 4 < 64" "x mod 4 * 16 + y div 16 < 64" "y mod 16 * 4 + z div 64 < 64" "z mod 64 < 64"
    "x mod 4 * 16 < 64" "y mod 16 * 4 < 64"
    "x div 4 * 4 + (x mod 4 * 16 + y div 16) div 16 = x"
    "(x mod 4 * 16 + y div 16) mod 16 * 16 + (y mod 16 * 4 + z div 64) div 4 = y"
    "(y mod 16 * 4 + z div 64) mod 4 * 64 + z mod 64 = z"
proof -
  show "x div 4 < 64" "z mod 64 < 64" using assms by auto
  have y: "y div 16 < 16" and z: "z div 64 < 4" using assms by auto
  moreover have "x mod 4 < 4" "y mod 16 < 16" by auto
  ultimately show "x mod 4 * 16 + y div 16 < 64" "y mod 16 * 4 + z div 64 < 64"
    "x mod 4 * 16 < 64" "y mod 16 * 4 < 64" by linarith+
  have "(x mod 4 * 16 + y div 16) div 16 = x mod 4" using y by simp
  then show "x div 4 * 4 + (x mod 4 * 16 + y div 16) div 16 = x" by simp
  have "(x mod 4 * 16 + y div 16) mod 16 = y div 16" "(y mod 16 * 4 + z div 64) div 4 = y mod 16"
    using y z by auto
  then show "(x mod 4 * 16 + y div 16) mod 16 * 16 + (y mod 16 * 4 + z div 64) div 4 = y" by simp
  have "(y mod 16 * 4 + z div 64) mod 4 = z div 64" using z by simp
  then show "(y mod 16 * 4 + z div 64) mod 4 * 64 + z mod 64 = z" by simp
qed

lemma a2b_char:
  assumes "v < 64"
  shows "a2b (b64_char v # cs) 0 l p out = a2b cs 1 v 0 out"
    "a2b (b64_char v # cs) (Suc 0) l p out = a2b cs 2 (v mod 16) 0 (out @ [char_of (l * 4 + v div 16)])"
    "a2b (b64_char v # cs) 2 l p out = a2b cs 3 (v mod 4) 0 (out @ [char_of (l * 16 + v div 4)])"
    "a2b (b64_char v # cs) 3 l p out = a2b cs 0 0 0 (out @ [char_of (l * 64 + v)])"
  using assms by simp_all

lemma a2b_encode: "a2b (b64encode bs) 0 0 0 out = Some (out @ bs)"
proof (induction bs arbitrary: out rule: b64encode.induct)
  case 1
  then show ?case by simp
next
  case (2 a)
  show ?case
    using byte_split [OF of_char_less [of a], of 0 0] by (simp add: a2b_char Let_def)
next
  case (3 a b)
  show ?case
    using byte_split [OF of_char_less [of a] of_char_less [of b], of 0] by (simp add: a2b_char Let_def)
next
  case (4 a b c rest)
  show ?case
    using byte_split [OF of_char_less [of a] of_char_less [of b] of_char_less [of c]] 4
    by (simp add: a2b_char Let_def)
qed

lemma b64encode_ascii: "list_all is_ascii (b64encode bs)"
  by (induction bs rule: b64encode.induct) (auto simp: Let_def, simp_all add: is_ascii_def)

lemma b64decode_encode [simp]: "b64decode (b64encode bs) = Inr bs"
  by (simp add: b64decode_def b64encode_ascii a2b_encode)

lemma utf8_decode_char:
  "utf8_decode (utf8_char c @ cs) = (case utf8_decode cs of Inl e \<Rightarrow> Inl e | Inr s \<Rightarrow> Inr (c # s))"
proof -
  let ?n = "of_char c :: nat"
  have "?n div 64 < 4" using of_char_less [of c] by (simp add: less_mult_imp_div_less)
  moreover have "?n < 128 \<or> 2 \<le> ?n div 64" by (auto simp: less_eq_div_iff_mult_less_eq)
  ultimately have "?n < 128 \<or> ?n div 64 = 2 \<or> ?n div 64 = 3" by linarith
  moreover have "char_of (?n div 64 * 64 + ?n mod 64) = c" by simp
  moreover have "?n < 192" if "?n div 64 = 2" using that by linarith
  ultimately show ?thesis
    by (elim disjE) (simp_all add: utf8_char_def Let_def split: sum.splits)
qed

lemma utf8_decode_utf8 [simp]: "utf8_decode (utf8 s) = Inr s"
  by (induction s) (simp_all add: utf8_def utf8_decode_char)

declare utf8_decode.simps(2) [simp del]

lemma utf8_decode_error: "utf8_decode bs = Inl e \<Longrightarrow> e = Py UnicodeError"
proof (induction bs arbitrary: e rule: utf8_decode.induct)
  case 1
  then show ?case by simp
next
  case (2 c cs)
  note split = utf8_decode.simps(2) [of c cs]
  show ?case
  proof (cases "(of_char c :: nat) < 128")
    case True
    then show ?thesis using 2 split by (auto split: sum.splits)
  next
    case False
    then show ?thesis using 2 split by (cases cs) (auto simp: Let_def split: sum.splits if_splits)
  qed
qed

end
