(* ===== verification/Config.thy ===== *)
theory Config
  imports Base64
begin

text \<open>
  Application settings, \<^verbatim>\<open>app/core/config.py\<close>: the record of settings, the master key and the
  start-up check that refuses insecure production configurations.  Reading the environment and
  \<^verbatim>\<open>.env\<close> files is the settings library's; the record is what it yields.
\<close>

section \<open>Settings\<close>

datatype Environment = LOCAL | TESTING | STAGING | PRODUCTION

datatype jwt_alg = HS256 | HS384 | HS512

record Settings =
  app_name :: string
  environment :: Environment
  debug :: bool
  api_v1_prefix :: string
  database_url :: string
  db_echo :: bool
  db_pool_size :: int
  db_max_overflow :: int
  redis_url :: string
  use_redis :: bool
  jwt_secret_key :: string
  jwt_algorithm :: jwt_alg
  access_token_ttl_seconds :: int
  refresh_token_ttl_seconds :: int
  jwt_issuer :: string
  jwt_audience :: string
  secret_encryption_key :: string
  api_key_prefix :: string
  rate_limit_enabled :: bool
  rate_limit_requests :: int
  rate_limit_window_seconds :: int
  webhook_replay_window_seconds :: int
  webhook_max_delivery_attempts :: int
  outbound_http_timeout_seconds :: rat
  provider_max_retries :: int
  circuit_breaker_failure_threshold :: int
  circuit_breaker_reset_seconds :: rat
  cors_allow_origins :: "string list"
  cors_allow_credentials :: bool
  log_level :: string
  log_json :: bool
  metrics_enabled :: bool

definition default_settings :: Settings where
  "default_settings =
     \<lparr> app_name = ''Universal Payment Gateway Integration'',
       environment = LOCAL, debug = False, api_v1_prefix = ''/api/v1'',
       database_url = ''sqlite+aiosqlite:///./upgi.db'', db_echo = False,
       db_pool_size = 10, db_max_overflow = 20,
       redis_url = ''redis://localhost:6379/0'', use_redis = False,
       jwt_secret_key = ''dev-only-insecure-change-me-please-32chars!!'',
       jwt_algorithm = HS256,
       access_token_ttl_seconds = 900, refresh_token_ttl_seconds = 60 * 60 * 24 * 7,
       jwt_issuer = ''upgi'', jwt_audience = ''upgi-clients'',
       secret_encryption_key = b64encode (replicate 32 (CHR 0x00)),
       api_key_prefix = ''upgi_sk'',
       rate_limit_enabled = True, rate_limit_requests = 120, rate_limit_window_seconds = 60,
       webhook_replay_window_seconds = 300, webhook_max_delivery_attempts = 8,
       outbound_http_timeout_seconds = 15, provider_max_retries = 3,
       circuit_breaker_failure_threshold = 5, circuit_breaker_reset_seconds = 30,
       cors_allow_origins = [''http://localhost:3000''], cors_allow_credentials = True,
       log_level = ''INFO'', log_json = True, metrics_enabled = True \<rparr>"

definition is_production :: "Settings \<Rightarrow> bool" where
  "is_production s \<longleftrightarrow> environment s = PRODUCTION"

definition min_secret_length :: "string \<Rightarrow> string result" where
  "min_secret_length v = (if length v < 32 then Inl (Py ValueError) else Inr v)"

definition encryption_key_bytes :: "Settings \<Rightarrow> string result" where
  "encryption_key_bytes s =
     (case b64decode (secret_encryption_key s) of
        Inl e \<Rightarrow> Inl e
      | Inr raw \<Rightarrow> if length raw \<noteq> 32 then Inl (Py ValueError) else Inr raw)"

fun contains_str :: "string \<Rightarrow> string \<Rightarrow> bool" where
  \<comment> \<open>\<open>p in s\<close> on strings\<close>
  "contains_str p [] = (p = [])"
| "contains_str p (c # cs) = (starts_with p (c # cs) \<or> contains_str p cs)"

definition production_problems :: "Settings \<Rightarrow> string \<Rightarrow> string list" where
  "production_problems s key =
     (if contains_str ''dev-only-insecure'' (jwt_secret_key s)
      then [''UPGI_JWT_SECRET_KEY still uses the insecure default''] else []) @
     (if key = replicate 32 (CHR 0x00)
      then [''UPGI_SECRET_ENCRYPTION_KEY still uses the insecure default''] else []) @
     (if debug s then [''UPGI_DEBUG must be false in production''] else []) @
     (if ''*'' \<in> set (cors_allow_origins s)
      then [''wildcard CORS origin is forbidden in production''] else [])"

definition assert_production_ready :: "Settings \<Rightarrow> unit result" where
  "assert_production_ready s =
     (if \<not> is_production s then Inr ()
      else (case encryption_key_bytes s of
              Inl e \<Rightarrow> Inl e
            | Inr key \<Rightarrow>
                if production_problems s key \<noteq> [] then Inl (Py RuntimeError) else Inr ()))"

section \<open>Properties\<close>

text \<open>The start-up check lets a production process start exactly when its JWT secret does not
  contain the development default, its master key decodes to 32 bytes that are not all zero,
  debug is off and no wildcard origin is allowed; outside production it checks nothing.\<close>

theorem production_ready_iff:
  "assert_production_ready s = Inr () \<longleftrightarrow>
     (environment s = PRODUCTION \<longrightarrow>
        (\<nexists>pre post. jwt_secret_key s = pre @ ''dev-only-insecure'' @ post) \<and>
        (\<exists>key. b64decode (secret_encryption_key s) = Inr key \<and> length key = 32 \<and>
               key \<noteq> replicate 32 (CHR 0x00)) \<and>
        \<not> debug s \<and> ''*'' \<notin> set (cors_allow_origins s))"
proof -
  have contains: "contains_str p t \<longleftrightarrow> (\<exists>pre post. t = pre @ p @ post)" for p t
  proof (induction t)
    case Nil
    then show ?case by auto
  next
    case (Cons c t)
    have "starts_with p (c # t) \<longleftrightarrow> (\<exists>post. c # t = p @ post)"
      by (metis append_eq_conv_conj append_take_drop_id starts_with_def)
    moreover have "(\<exists>pre post. c # t = pre @ p @ post) \<longleftrightarrow>
        (\<exists>post. c # t = p @ post) \<or> (\<exists>pre post. t = pre @ p @ post)"
      by (metis append_Cons append_Nil list.inject neq_Nil_conv)
    ultimately show ?case using Cons by simp
  qed
  show ?thesis
    by (auto simp: assert_production_ready_def is_production_def encryption_key_bytes_def
        production_problems_def contains split: sum.splits if_splits)
qed

theorem production_ready_iff_witness:
  "assert_production_ready (default_settings\<lparr>environment := PRODUCTION\<rparr>) \<noteq> Inr ()"
  using production_ready_iff [of "default_settings\<lparr>environment := PRODUCTION\<rparr>"]
  by (simp add: default_settings_def)

end
