(* ===== verification/Domain.thy ===== *)
theory Domain
  imports Errors
begin

text \<open>
  The domain layer: the enumerations of \<^verbatim>\<open>app/domain/enums.py\<close> with their wire values, the
  role-to-scope mapping of \<^verbatim>\<open>app/domain/rbac.py\<close>, and the payment state machine of
  \<^verbatim>\<open>app/domain/state_machine.py\<close> as a step relation with its histories.
\<close>

section \<open>Enumerations\<close>

datatype UserRole = ADMIN | MERCHANT | VIEWER

fun UserRole_value :: "UserRole \<Rightarrow> string" where
  "UserRole_value ADMIN = ''admin''"
| "UserRole_value MERCHANT = ''merchant''"
| "UserRole_value VIEWER = ''viewer''"

datatype PaymentStatus =
    REQUIRES_CONFIRMATION | AUTHORIZED | CAPTURED | PARTIALLY_REFUNDED | REFUNDED | CANCELED
  | FAILED

fun PaymentStatus_value :: "PaymentStatus \<Rightarrow> string" where
  "PaymentStatus_value REQUIRES_CONFIRMATION = ''requires_confirmation''"
| "PaymentStatus_value AUTHORIZED = ''authorized''"
| "PaymentStatus_value CAPTURED = ''captured''"
| "PaymentStatus_value PARTIALLY_REFUNDED = ''partially_refunded''"
| "PaymentStatus_value REFUNDED = ''refunded''"
| "PaymentStatus_value CANCELED = ''canceled''"
| "PaymentStatus_value FAILED = ''failed''"

datatype RefundStatus = REFUND_PENDING | REFUND_SUCCEEDED | REFUND_FAILED

fun RefundStatus_value :: "RefundStatus \<Rightarrow> string" where
  "RefundStatus_value REFUND_PENDING = ''pending''"
| "RefundStatus_value REFUND_SUCCEEDED = ''succeeded''"
| "RefundStatus_value REFUND_FAILED = ''failed''"

datatype CaptureMethod = AUTOMATIC | MANUAL

fun CaptureMethod_value :: "CaptureMethod \<Rightarrow> string" where
  "CaptureMethod_value AUTOMATIC = ''automatic''"
| "CaptureMethod_value MANUAL = ''manual''"

datatype PaymentMethodType =
    CARD | APPLE_PAY | GOOGLE_PAY | BANK_TRANSFER | SEPA | ACH | WIRE | WALLET | CRYPTO | QR
  | BNPL

fun PaymentMethodType_value :: "PaymentMethodType \<Rightarrow> string" where
  "PaymentMethodType_value CARD = ''card''"
| "PaymentMethodType_value APPLE_PAY = ''apple_pay''"
| "PaymentMethodType_value GOOGLE_PAY = ''google_pay''"
| "PaymentMethodType_value BANK_TRANSFER = ''bank_transfer''"
| "PaymentMethodType_value SEPA = ''sepa''"
| "PaymentMethodType_value ACH = ''ach''"
| "PaymentMethodType_value WIRE = ''wire''"
| "PaymentMethodType_value WALLET = ''wallet''"
| "PaymentMethodType_value CRYPTO = ''crypto''"
| "PaymentMethodType_value QR = ''qr''"
| "PaymentMethodType_value BNPL = ''bnpl''"

datatype ProviderName = MOCK | STRIPE

fun ProviderName_value :: "ProviderName \<Rightarrow> string" where
  "ProviderName_value MOCK = ''mock''"
| "ProviderName_value STRIPE = ''stripe''"

datatype WebhookStatus = RECEIVED | PROCESSED | WEBHOOK_FAILED | DEAD_LETTERED

fun WebhookStatus_value :: "WebhookStatus \<Rightarrow> string" where
  "WebhookStatus_value RECEIVED = ''received''"
| "WebhookStatus_value PROCESSED = ''processed''"
| "WebhookStatus_value WEBHOOK_FAILED = ''failed''"
| "WebhookStatus_value DEAD_LETTERED = ''dead_lettered''"

datatype AuditAction =
    USER_REGISTERED | USER_LOGIN | API_KEY_CREATED | API_KEY_REVOKED | PAYMENT_CREATED
  | PAYMENT_AUTHORIZED | PAYMENT_CAPTURED | PAYMENT_CANCELED | PAYMENT_FAILED | REFUND_CREATED
  | WEBHOOK_RECEIVED

fun AuditAction_value :: "AuditAction \<Rightarrow> string" where
  "AuditAction_value USER_REGISTERED = ''user.registered''"
| "AuditAction_value USER_LOGIN = ''user.login''"
| "AuditAction_value API_KEY_CREATED = ''api_key.created''"
| "AuditAction_value API_KEY_REVOKED = ''api_key.revoked''"
| "AuditAction_value PAYMENT_CREATED = ''payment.created''"
| "AuditAction_value PAYMENT_AUTHORIZED = ''payment.authorized''"
| "AuditAction_value PAYMENT_CAPTURED = ''payment.captured''"
| "AuditAction_value PAYMENT_CANCELED = ''payment.canceled''"
| "AuditAction_value PAYMENT_FAILED = ''payment.failed''"
| "AuditAction_value REFUND_CREATED = ''refund.created''"
| "AuditAction_value WEBHOOK_RECEIVED = ''webhook.received''"

section \<open>Role-based access control\<close>

definition SCOPE_PAYMENTS_READ :: string where
  "SCOPE_PAYMENTS_READ = ''payments:read''"

definition SCOPE_PAYMENTS_WRITE :: string where
  "SCOPE_PAYMENTS_WRITE = ''payments:write''"

definition SCOPE_REFUNDS_WRITE :: string where
  "SCOPE_REFUNDS_WRITE = ''refunds:write''"

definition SCOPE_PROVIDERS_MANAGE :: string where
  "SCOPE_PROVIDERS_MANAGE = ''providers:manage''"

definition SCOPE_ADMIN :: string where
  "SCOPE_ADMIN = ''admin:all''"

lemmas scope_defs = SCOPE_PAYMENTS_READ_def SCOPE_PAYMENTS_WRITE_def SCOPE_REFUNDS_WRITE_def
  SCOPE_PROVIDERS_MANAGE_def SCOPE_ADMIN_def

fun scopes_for_role :: "UserRole \<Rightarrow> string list" where
  "scopes_for_role ADMIN =
     [SCOPE_ADMIN, SCOPE_PAYMENTS_READ, SCOPE_PAYMENTS_WRITE, SCOPE_REFUNDS_WRITE,
      SCOPE_PROVIDERS_MANAGE]"
| "scopes_for_role MERCHANT =
     [SCOPE_PAYMENTS_READ, SCOPE_PAYMENTS_WRITE, SCOPE_REFUNDS_WRITE, SCOPE_PROVIDERS_MANAGE]"
| "scopes_for_role VIEWER = [SCOPE_PAYMENTS_READ]"

definition has_scope :: "string list \<Rightarrow> string \<Rightarrow> bool" where
  "has_scope granted required \<longleftrightarrow> SCOPE_ADMIN \<in> set granted \<or> required \<in> set granted"

section \<open>Payment state machine\<close>

fun allowed :: "PaymentStatus \<Rightarrow> PaymentStatus list" where
  "allowed REQUIRES_CONFIRMATION = [AUTHORIZED, CAPTURED, CANCELED, FAILED]"
| "allowed AUTHORIZED = [CAPTURED, CANCELED, FAILED]"
| "allowed CAPTURED = [PARTIALLY_REFUNDED, REFUNDED]"
| "allowed PARTIALLY_REFUNDED = [PARTIALLY_REFUNDED, REFUNDED]"
| "allowed REFUNDED = []"
| "allowed CANCELED = []"
| "allowed FAILED = []"

definition TERMINAL_STATES :: "PaymentStatus list" where
  "TERMINAL_STATES = [REFUNDED, CANCELED, FAILED]"

definition can_transition :: "PaymentStatus \<Rightarrow> PaymentStatus \<Rightarrow> bool" where
  "can_transition current target \<longleftrightarrow> target \<in> set (allowed current)"

definition assert_transition :: "PaymentStatus \<Rightarrow> PaymentStatus \<Rightarrow> unit result" where
  "assert_transition current target =
     (if \<not> can_transition current target
      then Inl (err_with InvalidStateError
                  (''illegal payment transition '' @ PaymentStatus_value current @ '' -> ''
                   @ PaymentStatus_value target)
                  [(''from'', JStr (PaymentStatus_value current)),
                   (''to'', JStr (PaymentStatus_value target))])
      else Inr ())"

lemma assert_transition_Inr [simp]:
  "assert_transition s t = Inr u \<longleftrightarrow> can_transition s t"
  by (simp add: assert_transition_def)

lemma assert_transition_Inl: "assert_transition s t = Inl e \<Longrightarrow> \<not> can_transition s t"
  by (simp add: assert_transition_def split: if_splits)

lemma can_transition_simps [simp]:
  "can_transition REQUIRES_CONFIRMATION t \<longleftrightarrow> t = AUTHORIZED \<or> t = CAPTURED \<or> t = CANCELED \<or> t = FAILED"
  "can_transition AUTHORIZED t \<longleftrightarrow> t = CAPTURED \<or> t = CANCELED \<or> t = FAILED"
  "can_transition CAPTURED t \<longleftrightarrow> t = PARTIALLY_REFUNDED \<or> t = REFUNDED"
  "can_transition PARTIALLY_REFUNDED t \<longleftrightarrow> t = PARTIALLY_REFUNDED \<or> t = REFUNDED"
  "\<not> can_transition REFUNDED t" "\<not> can_transition CANCELED t" "\<not> can_transition FAILED t"
  by (auto simp: can_transition_def)

subsection \<open>Histories\<close>

text \<open>
  The history of a payment, latest status first: it starts at creation and every later entry
  passed \<open>assert_transition\<close>.
\<close>

inductive history :: "PaymentStatus list \<Rightarrow> bool" where
  created: "history [REQUIRES_CONFIRMATION]"
| moved: "history (s # h) \<Longrightarrow> assert_transition s t = Inr u \<Longrightarrow> history (t # s # h)"

inductive_cases history_NilE: "history []"
inductive_cases history_singleE: "history [s]"
inductive_cases history_ConsE: "history (t # s # h)"

inductive_simps history_Cons_simps: "history (t # s # h)"

text \<open>A payment's progress through its life: only a further partial refund does not advance it.\<close>

fun progress :: "PaymentStatus \<Rightarrow> nat" where
  "progress REQUIRES_CONFIRMATION = 0"
| "progress AUTHORIZED = 1"
| "progress CAPTURED = 2"
| "progress PARTIALLY_REFUNDED = 3"
| "progress REFUNDED = 4"
| "progress CANCELED = 4"
| "progress FAILED = 4"

lemma transition_progress:
  "can_transition s t \<Longrightarrow> progress s < progress t \<or> (s = PARTIALLY_REFUNDED \<and> t = PARTIALLY_REFUNDED)"
  by (cases s) auto

lemma history_refund_has_capture:
  "history h \<Longrightarrow> hd h \<in> {CAPTURED, PARTIALLY_REFUNDED, REFUNDED} \<Longrightarrow> CAPTURED \<in> set h"
proof (induction rule: history.induct)
  case created
  then show ?case by simp
next
  case (moved s h t u)
  then show ?case by (cases s) auto
qed

lemma history_suffix: "history (xs @ h) \<Longrightarrow> h \<noteq> [] \<Longrightarrow> history h"
proof (induction xs)
  case Nil
  then show ?case by simp
next
  case (Cons x xs)
  then show ?case by (cases "xs @ h") (auto elim: history_ConsE)
qed

lemma history_last: "history h \<Longrightarrow> last h = REQUIRES_CONFIRMATION"
  by (induction rule: history.induct) auto

section \<open>Properties\<close>

text \<open>No refund without a capture: in every history of a payment, the entries before a
  \<open>partially_refunded\<close> or \<open>refunded\<close> status include \<open>captured\<close>, and a canceled or failed
  payment was never captured.\<close>

theorem refunds_follow_capture:
  assumes "history (later @ s # earlier)"
  shows "(s = PARTIALLY_REFUNDED \<or> s = REFUNDED \<longrightarrow> CAPTURED \<in> set earlier) \<and>
         (s = CANCELED \<or> s = FAILED \<longrightarrow> CAPTURED \<notin> set earlier)"
proof -
  have h: "history (s # earlier)" using history_suffix [OF assms] by simp
  have "s = CANCELED \<or> s = FAILED \<longrightarrow> CAPTURED \<notin> set earlier"
    using h
  proof (cases rule: history.cases)
    case (moved r g u)
    have "CAPTURED \<in> set (r # g) \<Longrightarrow> 2 \<le> progress r"
      using moved(2)
    proof (induction "r # g" arbitrary: r g rule: history.induct)
      case created
      then show ?case by simp
    next
      case (moved q h t v)
      then show ?case using transition_progress [of q t] by force
    qed
    with moved show ?thesis by (cases r) auto
  qed auto
  then show ?thesis using history_refund_has_capture [OF h] by auto
qed

theorem refunds_follow_capture_witness:
  "history [REFUNDED, PARTIALLY_REFUNDED, CAPTURED, AUTHORIZED, REQUIRES_CONFIRMATION] \<and>
   CAPTURED \<in> set [PARTIALLY_REFUNDED, CAPTURED, AUTHORIZED, REQUIRES_CONFIRMATION]"
proof -
  have h: "history ([] @ REFUNDED # [PARTIALLY_REFUNDED, CAPTURED, AUTHORIZED, REQUIRES_CONFIRMATION])"
    by (simp add: history_Cons_simps history.created)
  show ?thesis using h refunds_follow_capture [OF h] by simp
qed

text \<open>\<open>TERMINAL_STATES\<close> is exactly the set of statuses no transition leaves, and the life
  cycle always ends: every transition advances \<open>progress\<close> except a further partial refund.\<close>

theorem terminal_states_exact:
  "(s \<in> set TERMINAL_STATES \<longleftrightarrow> (\<forall>t. \<not> can_transition s t)) \<and>
   (can_transition s t \<longrightarrow>
      progress s < progress t \<or> (s = PARTIALLY_REFUNDED \<and> t = PARTIALLY_REFUNDED))"
  by (cases s) (auto simp: TERMINAL_STATES_def)

theorem terminal_states_exact_witness:
  "can_transition AUTHORIZED CAPTURED \<and> progress AUTHORIZED < progress CAPTURED"
  using terminal_states_exact [of AUTHORIZED CAPTURED] by simp

text \<open>Privileges grow with the role: a scope a viewer passes, a merchant passes; an admin
  passes every scope; a viewer passes only the read scope; no merchant passes the admin scope.\<close>

theorem role_privileges:
  "(has_scope (scopes_for_role VIEWER) sc \<longleftrightarrow> sc = SCOPE_PAYMENTS_READ) \<and>
   (has_scope (scopes_for_role MERCHANT) sc \<longleftrightarrow>
      sc \<in> {SCOPE_PAYMENTS_READ, SCOPE_PAYMENTS_WRITE, SCOPE_REFUNDS_WRITE, SCOPE_PROVIDERS_MANAGE}) \<and>
   has_scope (scopes_for_role ADMIN) sc \<and>
   \<not> has_scope (scopes_for_role MERCHANT) SCOPE_ADMIN"
  by (auto simp: has_scope_def scope_defs)

end
