(* ===== verification/Resilience.thy ===== *)
theory Resilience
  imports Errors
begin

text \<open>
  Retry with backoff and the circuit breaker of \<^verbatim>\<open>app/core/resilience.py\<close>.

  Both wrap an operation over an arbitrary state.  What the source injects (the sleep
  coroutine, the clock, the random jitter) are arguments here.  A breaker is an object of the
  state, reached through a getter and a setter, because the operation it guards runs between
  its two critical sections and other calls may run in between.
\<close>

section \<open>Retry\<close>

record RetryPolicy =
  max_attempts :: int
  base_delay :: rat
  max_delay :: rat
  multiplier :: rat

definition default_policy :: RetryPolicy where
  "default_policy =
     \<lparr> max_attempts = 3, base_delay = 1 / 5, max_delay = 5, multiplier = 2 \<rparr>"

definition delay_ceiling :: "RetryPolicy \<Rightarrow> int \<Rightarrow> rat" where
  "delay_ceiling p attempt =
     min (max_delay p) (base_delay p * multiplier p powi (attempt - 1))"

text \<open>\<open>uniform lo hi\<close> is \<open>random.uniform\<close>, which draws from the state.\<close>

definition delay_for ::
  "(rat \<Rightarrow> rat \<Rightarrow> ('s, exc, rat) op) \<Rightarrow> RetryPolicy \<Rightarrow> int \<Rightarrow> ('s, exc, rat) op" where
  "delay_for uniform p attempt = uniform 0 (delay_ceiling p attempt)"

fun retry_loop ::
  "('s, exc, 'a) op \<Rightarrow> (rat \<Rightarrow> rat \<Rightarrow> ('s, exc, rat) op) \<Rightarrow> RetryPolicy \<Rightarrow> (exc \<Rightarrow> bool)
   \<Rightarrow> (rat \<Rightarrow> ('s, exc, unit) op) \<Rightarrow> int list \<Rightarrow> exc option \<Rightarrow> ('s, exc, 'a) op" where
  "retry_loop func uniform p retryable sleep [] last_exc =
     (case last_exc of None \<Rightarrow> throw (Py AssertionError) | Some e \<Rightarrow> throw e)"
| "retry_loop func uniform p retryable sleep (attempt # rest) last_exc =
     on_exit func (\<lambda>r. case r of
         Inr a \<Rightarrow> return a
       | Inl e \<Rightarrow>
           if \<not> retryable e then throw e
           else if attempt \<ge> max_attempts p then throw e
           else andThen (delay_for uniform p attempt) (\<lambda>d.
                andThen (sleep d) (\<lambda>_.
                retry_loop func uniform p retryable sleep rest (Some e))))"

definition retry_async ::
  "('s, exc, 'a) op \<Rightarrow> (rat \<Rightarrow> rat \<Rightarrow> ('s, exc, rat) op) \<Rightarrow> RetryPolicy \<Rightarrow> (exc \<Rightarrow> bool)
   \<Rightarrow> (rat \<Rightarrow> ('s, exc, unit) op) \<Rightarrow> ('s, exc, 'a) op" where
  "retry_async func uniform p retryable sleep =
     retry_loop func uniform p retryable sleep [1..max_attempts p] None"

section \<open>Circuit breaker\<close>

datatype CircuitState = CLOSED | OPEN | HALF_OPEN

record CircuitBreaker =
  failure_threshold :: int
  reset_timeout :: rat
  cb_name :: string
  ignored_exceptions :: "error_class list"
  cb_state :: CircuitState
  cb_failures :: int
  cb_opened_at :: rat

definition new_breaker :: "int \<Rightarrow> rat \<Rightarrow> string \<Rightarrow> error_class list \<Rightarrow> CircuitBreaker" where
  "new_breaker threshold timeout name ignored =
     \<lparr> failure_threshold = threshold, reset_timeout = timeout, cb_name = name,
       ignored_exceptions = ignored, cb_state = CLOSED, cb_failures = 0, cb_opened_at = 0 \<rparr>"

definition circuit_open_error :: "string \<Rightarrow> exc" where
  "circuit_open_error name =
     err_with CircuitOpenError
       (''Circuit '' @ CHR 0x27 # name @ CHR 0x27 # '' is open; provider temporarily unavailable'')
       [(''provider'', JStr name)]"

definition before_call :: "rat \<Rightarrow> CircuitBreaker \<Rightarrow> CircuitBreaker result" where
  "before_call now b =
     (if cb_state b = OPEN
      then (if now - cb_opened_at b \<ge> reset_timeout b
            then Inr (b\<lparr>cb_state := HALF_OPEN\<rparr>)
            else Inl (circuit_open_error (cb_name b)))
      else Inr b)"

definition on_success :: "CircuitBreaker \<Rightarrow> CircuitBreaker" where
  "on_success b = b\<lparr>cb_failures := 0, cb_state := CLOSED\<rparr>"

definition on_failure :: "rat \<Rightarrow> CircuitBreaker \<Rightarrow> CircuitBreaker" where
  "on_failure now b =
     (let b = b\<lparr>cb_failures := cb_failures b + 1\<rparr>
      in if cb_state b = HALF_OPEN \<or> cb_failures b \<ge> failure_threshold b
         then b\<lparr>cb_state := OPEN, cb_opened_at := now\<rparr>
         else b)"

definition is_ignored :: "CircuitBreaker \<Rightarrow> exc \<Rightarrow> bool" where
  "is_ignored b e \<longleftrightarrow> (\<exists>cls \<in> set (ignored_exceptions b). is_instance cls e)"

definition breaker_call ::
  "('s \<Rightarrow> CircuitBreaker) \<Rightarrow> (CircuitBreaker \<Rightarrow> 's \<Rightarrow> 's) \<Rightarrow> ('s \<Rightarrow> rat)
   \<Rightarrow> ('s, exc, 'a) op \<Rightarrow> ('s, exc, 'a) op" where
  "breaker_call getb putb now func =
     andThen (\<lambda>s. case before_call (now s) (getb s) of
                    Inl e \<Rightarrow> (Inl e, s)
                  | Inr b \<Rightarrow> (Inr (), putb b s)) (\<lambda>_.
     on_exit func (\<lambda>r. case r of
         Inl e \<Rightarrow>
           andThen (gets getb) (\<lambda>b.
           if is_ignored b e then throw e
           else andThen (modify (\<lambda>s. putb (on_failure (now s) (getb s)) s)) (\<lambda>_. throw e))
       | Inr a \<Rightarrow>
           andThen (modify (\<lambda>s. putb (on_success (getb s)) s)) (\<lambda>_. return a)))"

section \<open>Retry: which attempt decides\<close>

text \<open>
  The state in which attempt number \<open>n + 1\<close> starts, when the \<open>n\<close> attempts before it failed
  and the pauses after them did not raise.
\<close>

fun attempt_state ::
  "('s, exc, 'a) op \<Rightarrow> (int \<Rightarrow> 's \<Rightarrow> 's) \<Rightarrow> int \<Rightarrow> nat \<Rightarrow> 's \<Rightarrow> 's" where
  "attempt_state func pause a 0 s = s"
| "attempt_state func pause a (Suc n) s =
     attempt_state func pause (a + 1) n (pause a (snd (func s)))"

definition decisive :: "(exc \<Rightarrow> bool) \<Rightarrow> exc + 'a \<Rightarrow> bool" where
  "decisive retryable r = (case r of Inr _ \<Rightarrow> True | Inl e \<Rightarrow> \<not> retryable e)"

definition pauses_with ::
  "(rat \<Rightarrow> rat \<Rightarrow> ('s, exc, rat) op) \<Rightarrow> (rat \<Rightarrow> ('s, exc, unit) op) \<Rightarrow> RetryPolicy
   \<Rightarrow> (int \<Rightarrow> 's \<Rightarrow> 's) \<Rightarrow> bool" where
  "pauses_with uniform sleep p pause \<longleftrightarrow>
     (\<forall>a s. andThen (delay_for uniform p a) sleep s = (Inr (), pause a s))"

lemma pauses_withD:
  assumes "pauses_with uniform sleep p pause"
  shows "andThen (delay_for uniform p a) (\<lambda>d. andThen (sleep d) (\<lambda>_. k)) s = k (pause a s)"
proof -
  have "andThen (andThen (delay_for uniform p a) sleep) (\<lambda>_. k) s = k (pause a s)"
    using assms by (simp add: pauses_with_def andThen_eval [of "andThen _ sleep"])
  then show ?thesis by (simp add: andThen_assoc)
qed

lemma retry_loop_decides:
  assumes pause: "pauses_with uniform sleep p pause"
    and "n < length as" and "as = [a..max_attempts p]"
    and "\<forall>i<n. \<not> decisive retryable (fst (func (attempt_state func pause a i s)))"
    and "decisive retryable (fst (func (attempt_state func pause a n s))) \<or> n = length as - 1"
  shows "retry_loop func uniform p retryable sleep as last_exc s =
           func (attempt_state func pause a n s)"
  using assms(2-)
proof (induction as arbitrary: a n s last_exc)
  case Nil
  then show ?case by simp
next
  case (Cons x as)
  have x: "x = a" "a \<le> max_attempts p" "as = [a+1..max_attempts p]"
    using Cons.prems(2) by (auto simp: upto.simps [of a "max_attempts p"] split: if_splits)
  obtain r t where f: "func s = (r, t)" by (cases "func s")
  show ?case
  proof (cases n)
    case 0
    then have "decisive retryable r \<or> as = []" using Cons.prems(4) f by auto
    then have "decisive retryable r \<or> max_attempts p \<le> a" using x by auto
    then show ?thesis
      using 0 f x by (auto simp: op_simps decisive_def split: sum.splits)
  next
    case (Suc m)
    then have "\<not> decisive retryable r" using Cons.prems(3) f by force
    then obtain e where e: "r = Inl e" "retryable e"
      by (auto simp: decisive_def split: sum.splits)
    have "as \<noteq> []" using Suc Cons.prems(1) by auto
    then have more: "\<not> max_attempts p \<le> a" using x by auto
    have nd: "\<forall>i<m. \<not> decisive retryable (fst (func (attempt_state func pause (a+1) i (pause a t))))"
    proof (intro allI impI)
      fix i assume "i < m"
      then show "\<not> decisive retryable (fst (func (attempt_state func pause (a+1) i (pause a t))))"
        using Cons.prems(3) [rule_format, of "Suc i"] Suc f by simp
    qed
    have "retry_loop func uniform p retryable sleep as (Some e) (pause a t) =
            func (attempt_state func pause (a+1) m (pause a t))"
      using Cons.prems Suc f x(3) nd by (intro Cons.IH) auto
    then show ?thesis
      using Suc f e x more by (simp add: on_exit_eval pauses_withD [OF pause])
  qed
qed

text \<open>A retried operation keeps what its attempts and pauses keep, and returns what one of its
  attempts returned, from a state in which that holds.\<close>

lemma keeps_retry_loop:
  assumes "keeps I func" and "\<And>lo hi. keeps I (uniform lo hi)" and "\<And>d. keeps I (sleep d)"
  shows "keeps I (retry_loop func uniform p retryable sleep as last_exc)"
proof (induction as arbitrary: last_exc)
  case Nil
  then show ?case by (auto intro: keeps_intros)
next
  case (Cons a as)
  then show ?case
    using assms by (auto simp: delay_for_def intro!: keeps_intros)
qed

lemma keeps_retry_async:
  assumes "keeps I func" and "\<And>lo hi. keeps I (uniform lo hi)" and "\<And>d. keeps I (sleep d)"
  shows "keeps I (retry_async func uniform p retryable sleep)"
  unfolding retry_async_def using assms by (rule keeps_retry_loop)

lemma retry_loop_Inr:
  assumes "keeps I func" and "\<And>lo hi. keeps I (uniform lo hi)" and "\<And>d. keeps I (sleep d)"
    and "I s" and "retry_loop func uniform p retryable sleep as last_exc s = (Inr a, t)"
  shows "\<exists>u. I u \<and> func u = (Inr a, t)"
  using assms(4,5)
proof (induction as arbitrary: last_exc s)
  case Nil
  then show ?case by (auto simp: op_splits split: option.splits)
next
  case (Cons x as)
  obtain r u where f: "func s = (r, u)" by (cases "func s")
  have "I u" using assms(1) f Cons.prems(1) by (rule keepsD)
  show ?case
  proof (cases r)
    case (Inr b)
    then show ?thesis using Cons.prems f by (auto simp: op_simps)
  next
    case (Inl e)
    then obtain d v v' where "uniform 0 (delay_ceiling p x) u = (Inr d, v)" "sleep d v = (Inr (), v')"
      and loop: "retry_loop func uniform p retryable sleep as (Some e) v' = (Inr a, t)"
      using Cons.prems(2) f by (auto simp: on_exit_eval op_splits delay_for_def split: if_splits)
    then have "I v'" using assms(2,3) \<open>I u\<close> by (meson keepsD)
    then show ?thesis using loop by (rule Cons.IH)
  qed
qed

lemma retry_loop_all_fail:
  assumes "\<And>u. I u \<Longrightarrow> \<exists>v. func u = (Inl e, v) \<and> I v" and "retryable e"
    and "\<And>u lo hi. I u \<Longrightarrow> \<exists>d v. uniform lo hi u = (Inr d, v) \<and> I v"
    and "\<And>u d. I u \<Longrightarrow> \<exists>v. sleep d u = (Inr (), v) \<and> I v"
    and "as \<noteq> [] \<or> last_exc = Some e" and "I s"
  shows "\<exists>t. retry_loop func uniform p retryable sleep as last_exc s = (Inl e, t) \<and> I t"
  using assms(5,6)
proof (induction as arbitrary: last_exc s)
  case Nil
  then show ?case by (auto simp: op_simps)
next
  case (Cons x as)
  obtain u where u: "func s = (Inl e, u)" "I u" using assms(1) Cons.prems(2) by blast
  obtain d v where v: "uniform 0 (delay_ceiling p x) u = (Inr d, v)" "I v" using assms(3) u(2) by blast
  obtain v' where v': "sleep d v = (Inr (), v')" "I v'" using assms(4) v(2) by blast
  from Cons.IH [of "Some e" v'] v'(2) show ?case
    using u v v' assms(2) by (auto simp: op_simps delay_for_def)
qed

lemma retry_async_Inr:
  assumes "keeps I func" and "\<And>lo hi. keeps I (uniform lo hi)" and "\<And>d. keeps I (sleep d)"
    and "I s" and "retry_async func uniform p retryable sleep s = (Inr a, t)"
  shows "\<exists>u. I u \<and> func u = (Inr a, t)"
  using assms unfolding retry_async_def by (rule retry_loop_Inr)

section \<open>Breaker: reachable states\<close>

text \<open>
  Interleaved use of one breaker by any number of concurrent calls.  \<open>inflight\<close> counts the
  calls between their entry check and their exit; every critical section is one step, as the
  breaker's lock makes it.
\<close>

record breaker_sys =
  brk :: CircuitBreaker
  inflight :: nat
  clock :: rat

inductive breaker_step :: "breaker_sys \<Rightarrow> breaker_sys \<Rightarrow> bool" where
  tick: "clock s \<le> t \<Longrightarrow> breaker_step s (s\<lparr>clock := t\<rparr>)"
| enter: "before_call (clock s) (brk s) = Inr b \<Longrightarrow>
    breaker_step s (s\<lparr>brk := b, inflight := Suc (inflight s)\<rparr>)"
| reject: "before_call (clock s) (brk s) = Inl e \<Longrightarrow> breaker_step s s"
| succeed: "0 < inflight s \<Longrightarrow>
    breaker_step s (s\<lparr>brk := on_success (brk s), inflight := inflight s - 1\<rparr>)"
| fail: "0 < inflight s \<Longrightarrow>
    breaker_step s (s\<lparr>brk := on_failure (clock s) (brk s), inflight := inflight s - 1\<rparr>)"
| decline: "0 < inflight s \<Longrightarrow> breaker_step s (s\<lparr>inflight := inflight s - 1\<rparr>)"

inductive breaker_reach :: "CircuitBreaker \<Rightarrow> rat \<Rightarrow> breaker_sys \<Rightarrow> bool" for b0 t0 where
  init: "breaker_reach b0 t0 \<lparr> brk = b0, inflight = 0, clock = t0 \<rparr>"
| step: "breaker_reach b0 t0 s \<Longrightarrow> breaker_step s t \<Longrightarrow> breaker_reach b0 t0 t"

inductive_cases breaker_stepE: "breaker_step s t"

definition breaker_inv :: "CircuitBreaker \<Rightarrow> bool" where
  "breaker_inv b \<longleftrightarrow>
     0 \<le> cb_failures b \<and> (cb_state b = CLOSED \<longleftrightarrow> cb_failures b < failure_threshold b)"

lemma before_call_inv: "before_call t b = Inr b' \<Longrightarrow> breaker_inv b \<Longrightarrow> breaker_inv b'"
  by (auto simp: before_call_def breaker_inv_def split: if_splits)

lemma on_success_inv: "1 \<le> failure_threshold b \<Longrightarrow> breaker_inv (on_success b)"
  by (simp add: on_success_def breaker_inv_def)

lemma on_failure_inv: "breaker_inv b \<Longrightarrow> breaker_inv (on_failure t b)"
  by (cases "cb_state b") (auto simp: on_failure_def breaker_inv_def Let_def)

lemma before_call_config:
  "before_call t b = Inr b' \<Longrightarrow> failure_threshold b' = failure_threshold b \<and>
     reset_timeout b' = reset_timeout b \<and> ignored_exceptions b' = ignored_exceptions b"
  by (auto simp: before_call_def split: if_splits)

lemma breaker_config [simp]:
  "failure_threshold (on_success b) = failure_threshold b"
  "failure_threshold (on_failure t b) = failure_threshold b"
  "reset_timeout (on_success b) = reset_timeout b"
  "reset_timeout (on_failure t b) = reset_timeout b"
  "ignored_exceptions (on_success b) = ignored_exceptions b"
  "ignored_exceptions (on_failure t b) = ignored_exceptions b"
  by (auto simp: on_success_def on_failure_def Let_def)

definition sys_inv :: "breaker_sys \<Rightarrow> bool" where
  "sys_inv s \<longleftrightarrow> breaker_inv (brk s) \<and> 1 \<le> failure_threshold (brk s) \<and>
     (cb_state (brk s) = OPEN \<longrightarrow> cb_opened_at (brk s) \<le> clock s)"

lemma breaker_step_inv: "breaker_step s t \<Longrightarrow> sys_inv s \<Longrightarrow> sys_inv t"
proof (induction rule: breaker_step.induct)
  case (enter s b)
  then show ?case
    using before_call_inv [OF enter(1)] before_call_config [OF enter(1)]
    by (auto simp: sys_inv_def before_call_def split: if_splits)
next
  case (fail s)
  then show ?case
    by (auto simp: sys_inv_def on_failure_inv) (auto simp: on_failure_def Let_def split: if_splits)
next
  case (succeed s)
  then show ?case by (auto simp: sys_inv_def on_success_inv) (auto simp: on_success_def)
qed (auto simp: sys_inv_def)

lemma breaker_reach_inv:
  assumes "breaker_reach b0 t0 s" and "b0 = new_breaker n timeout name ignored" and "1 \<le> n"
  shows "sys_inv s"
  using assms(1)
proof (induction rule: breaker_reach.induct)
  case init
  then show ?case using assms(2,3) by (simp add: sys_inv_def breaker_inv_def new_breaker_def)
next
  case (step s t)
  then show ?case by (blast intro: breaker_step_inv)
qed

lemma tripped_reachable:
  "breaker_reach (new_breaker 1 timeout name ign) t
     \<lparr> brk = on_failure t (new_breaker 1 timeout name ign), inflight = 0, clock = t \<rparr>"
proof -
  let ?b = "new_breaker 1 timeout name ign"
  let ?s = "\<lparr> brk = ?b, inflight = 0, clock = t \<rparr>"
  have "breaker_step ?s \<lparr> brk = ?b, inflight = 1, clock = t \<rparr>"
    using breaker_step.enter [of ?s ?b] by (simp add: before_call_def new_breaker_def)
  then have "breaker_reach ?b t \<lparr> brk = ?b, inflight = 1, clock = t \<rparr>"
    by (rule breaker_reach.step [OF breaker_reach.init])
  from breaker_reach.step [OF this breaker_step.fail] show ?thesis by simp
qed

section \<open>Breaker calls one after the other\<close>

text \<open>
  The getter and setter of one breaker object, in the states in which it exists.  A client that
  keeps its breakers in a table interprets this.
\<close>

locale breaker_object =
  fixes getb :: "'s \<Rightarrow> CircuitBreaker" and putb :: "CircuitBreaker \<Rightarrow> 's \<Rightarrow> 's"
    and now :: "'s \<Rightarrow> rat" and present :: "'s \<Rightarrow> bool"
  assumes get_put: "getb (putb b s) = b"
    and put_get: "present s \<Longrightarrow> putb (getb s) s = s"
    and now_put: "now (putb b s) = now s"
    and present_put: "present (putb b s)"
begin

lemma call_rejects:
  assumes "before_call (now s) (getb s) = Inl e"
  shows "breaker_call getb putb now func s = (Inl e, s)"
  using assms by (simp add: breaker_call_def op_simps)

lemma call_open:
  assumes "cb_state (getb s) = OPEN" and "now s - cb_opened_at (getb s) < reset_timeout (getb s)"
  shows "breaker_call getb putb now func s = (Inl (circuit_open_error (cb_name (getb s))), s)"
  using assms by (intro call_rejects) (simp add: before_call_def)

lemma call_closed:
  assumes "cb_state (getb s) \<noteq> OPEN" and "present s"
  shows "breaker_call getb putb now func s =
    (case func s of
       (Inr a, t) \<Rightarrow> (Inr a, putb (on_success (getb t)) t)
     | (Inl e, t) \<Rightarrow>
         (Inl e, if is_ignored (getb t) e then t else putb (on_failure (now t) (getb t)) t))"
proof -
  have "before_call (now s) (getb s) = Inr (getb s)"
    using assms by (simp add: before_call_def)
  then show ?thesis
    by (auto simp: breaker_call_def op_simps put_get [OF assms(2)] split: prod.splits sum.splits)
qed

lemma call_counts_once:
  assumes "before_call (now s) (getb s) = Inr b" and "func (putb b s) = (r, u)" and "getb u = b"
  shows "getb (snd (breaker_call getb putb now func s)) =
    (case r of Inr a \<Rightarrow> on_success b | Inl e \<Rightarrow> if is_ignored b e then b else on_failure (now u) b)"
  using assms by (auto simp: breaker_call_def op_simps get_put split: sum.splits)

end

interpretation lone_breaker: breaker_object fst "\<lambda>b s. (b, snd s)" snd "\<lambda>s. True"
  by unfold_locales auto

text \<open>A call that returned: the guarded operation ran once, after the entry check, and returned.\<close>

lemma breaker_call_Inr:
  assumes "breaker_call getb putb now func s = (Inr a, t)"
  obtains b u where "before_call (now s) (getb s) = Inr b" and "func (putb b s) = (Inr a, u)"
    and "t = putb (on_success (getb u)) u"
  using assms by (auto simp: breaker_call_def op_splits on_exit_eval split: sum.splits prod.splits if_splits)

lemma keeps_breaker_call:
  assumes "\<And>b s. I s \<Longrightarrow> I (putb b s)" and "keeps I func"
  shows "keeps I (breaker_call getb putb now func)"
proof -
  have "keeps I (\<lambda>s. case before_call (now s) (getb s) of Inl e \<Rightarrow> (Inl e, s) | Inr b \<Rightarrow> (Inr (), putb b s))"
    using assms(1) by (auto simp: keeps_def split: sum.splits)
  then show ?thesis unfolding breaker_call_def using assms by (intro keeps_intros)
qed

text \<open>
  A sequence of calls against a lone breaker: each element is the outcome the guarded operation
  would have and the time at which the call is made.
\<close>

fun run_calls :: "(exc + 'a) list \<Rightarrow> CircuitBreaker \<times> rat \<Rightarrow> CircuitBreaker \<times> rat" where
  "run_calls [] s = s"
| "run_calls (r # rs) s =
     run_calls rs (snd (breaker_call fst (\<lambda>b s. (b, snd s)) snd (lift_result r) s))"

lemma call_lift_closed:
  assumes "cb_state b \<noteq> OPEN"
  shows "snd (breaker_call fst (\<lambda>b s. (b, snd s)) snd (lift_result r) (b, t)) =
    (case r of Inr a \<Rightarrow> (on_success b, t)
             | Inl e \<Rightarrow> (if is_ignored b e then (b, t) else (on_failure t b, t)))"
  using lone_breaker.call_closed [of "(b, t)" "lift_result r"] assms
  by (simp add: op_simps split: sum.splits)

lemma run_calls_ignored:
  assumes "cb_state b \<noteq> OPEN" and "\<forall>r \<in> set rs. \<exists>e. r = Inl e \<and> is_ignored b e"
  shows "run_calls rs (b, t) = (b, t)"
  using assms(2)
proof (induction rs)
  case Nil
  then show ?case by simp
next
  case (Cons r rs)
  then show ?case using call_lift_closed [OF assms(1), of r t] by auto
qed

lemma run_calls_failures:
  assumes "cb_state b = CLOSED" and "\<forall>r \<in> set rs. \<exists>e. r = Inl e \<and> \<not> is_ignored b e"
    and "cb_failures b + int (length rs) < failure_threshold b"
  shows "run_calls rs (b, t) = (b\<lparr>cb_failures := cb_failures b + int (length rs)\<rparr>, t)"
  using assms
proof (induction rs arbitrary: b)
  case Nil
  then show ?case by simp
next
  case (Cons r rs)
  let ?b = "b\<lparr>cb_failures := cb_failures b + 1\<rparr>"
  from Cons.prems obtain e where e: "r = Inl e" "\<not> is_ignored b e" by auto
  have fail: "on_failure t b = ?b"
    using Cons.prems by (simp add: on_failure_def Let_def)
  have "run_calls rs (?b, t) = (?b\<lparr>cb_failures := cb_failures ?b + int (length rs)\<rparr>, t)"
    using Cons.prems by (intro Cons.IH) (auto simp: is_ignored_def)
  then show ?case
    using call_lift_closed [of b r t] Cons.prems(1) e fail by (simp add: algebra_simps)
qed

lemma run_calls_append: "run_calls (xs @ ys) s = run_calls ys (run_calls xs s)"
  by (induction xs arbitrary: s) auto

section \<open>Properties\<close>

text \<open>C39. Retrying always ends.  With at least one attempt allowed, \<open>retry_async\<close> returns what one of
  at most \<open>max_attempts\<close> attempts did: the first that succeeds or fails with an exception not to be
  retried, or else the last one allowed, whatever the operation does on each attempt.\<close>

theorem retry_async_terminates:
  assumes "pauses_with uniform sleep p pause" and "1 \<le> max_attempts p"
  shows "\<exists>n. int n < max_attempts p \<and> (\<forall>i<n. \<not> decisive retryable (fst (func (attempt_state func pause 1 i s)))) \<and>
    (decisive retryable (fst (func (attempt_state func pause 1 n s))) \<or> int n = max_attempts p - 1) \<and>
    retry_async func uniform p retryable sleep s = func (attempt_state func pause 1 n s)"
proof -
  let ?stops = "\<lambda>n. decisive retryable (fst (func (attempt_state func pause 1 n s))) \<or> int n = max_attempts p - 1"
  define n where "n = (LEAST n. ?stops n)"
  have "?stops (nat (max_attempts p - 1))" using assms(2) by simp
  then have n: "?stops n" and le: "n \<le> nat (max_attempts p - 1)"
    unfolding n_def by (rule LeastI [of ?stops], rule Least_le [of ?stops])
  have before: "\<forall>i<n. \<not> decisive retryable (fst (func (attempt_state func pause 1 i s)))"
    using not_less_Least [of _ ?stops] unfolding n_def by blast
  have "int n < max_attempts p" using le assms(2) by simp
  moreover have "retry_async func uniform p retryable sleep s = func (attempt_state func pause 1 n s)"
    unfolding retry_async_def by (rule retry_loop_decides [OF assms(1) _ refl before]) (use n le assms(2) in auto)
  ultimately show ?thesis using before n by blast
qed

theorem retry_async_terminates_witness:
  "\<exists>n. int n < 3 \<and> retry_async (\<lambda>s :: nat. (Inl (Py TimeoutException) :: exc + nat, Suc s))
     (\<lambda>lo hi. return 0) default_policy (\<lambda>e. True) (\<lambda>d. return ()) 0 = (Inl (Py TimeoutException), n + 1)"
proof -
  let ?f = "\<lambda>s :: nat. (Inl (Py TimeoutException) :: exc + nat, Suc s)"
  have p: "pauses_with (\<lambda>lo hi. return 0) (\<lambda>d. return ()) default_policy (\<lambda>a s :: nat. s)"
    by (simp add: pauses_with_def delay_for_def op_simps)
  have st: "attempt_state ?f (\<lambda>a s. s) k i m = m + i" for k i m by (induction i arbitrary: k m) simp_all
  from retry_async_terminates [OF p, of "\<lambda>e. True" ?f 0] show ?thesis
    by (auto simp: default_policy_def st)
qed

text \<open>\<open>retry_async\<close> returns what its deciding attempt does: if the first \<open>n\<close> attempts fail with
  a retryable exception and attempt \<open>n + 1\<close> succeeds, fails with another exception or is the
  last one allowed, then outcome and state are those of that attempt, so the operation runs at
  most \<open>max_attempts\<close> times and the last error is re-raised.\<close>

theorem retry_async_decides:
  assumes "pauses_with uniform sleep p pause" and "int n < max_attempts p"
    and "\<forall>i<n. \<not> decisive retryable (fst (func (attempt_state func pause 1 i s)))"
    and "decisive retryable (fst (func (attempt_state func pause 1 n s))) \<or> int n = max_attempts p - 1"
  shows "retry_async func uniform p retryable sleep s = func (attempt_state func pause 1 n s)"
  unfolding retry_async_def
  using assms(2-) by (intro retry_loop_decides [OF assms(1)]) auto

theorem retry_async_decides_witness:
  fixes retryable :: "exc \<Rightarrow> bool"
  shows "retry_async (\<lambda>s :: nat. if s = 2 then (Inr s, s) else (Inl (Py TimeoutException), s + 1))
     (\<lambda>lo hi. return 0) default_policy (\<lambda>e. True) (\<lambda>d. return ()) 0 = (Inr 2, 2)"
proof -
  let ?f = "\<lambda>s :: nat. if s = 2 then (Inr s, s) else (Inl (Py TimeoutException) :: exc + nat, s + 1)"
  have p: "pauses_with (\<lambda>lo hi. return 0) (\<lambda>d. return ()) default_policy (\<lambda>a s :: nat. s)"
    by (simp add: pauses_with_def delay_for_def op_simps)
  have st: "attempt_state ?f (\<lambda>a s. s) 1 0 0 = 0" "attempt_state ?f (\<lambda>a s. s) 1 1 0 = 1"
    "attempt_state ?f (\<lambda>a s. s) 1 2 0 = 2"
    by (simp_all add: numeral_2_eq_2)
  have nd: "\<forall>i<2. \<not> decisive (\<lambda>e. True) (fst (?f (attempt_state ?f (\<lambda>a s. s) 1 i 0)))"
    using st by (auto simp: less_2_cases_iff decisive_def)
  show ?thesis
    using retry_async_decides [OF p _ nd] st by (simp add: default_policy_def decisive_def)
qed

text \<open>A pause between attempts is never negative and never longer than the policy's maximum,
  for any source of randomness that respects the bounds it is given.\<close>

theorem retry_delay_bounded:
  assumes "\<And>lo hi d s t. lo \<le> hi \<Longrightarrow> uniform lo hi s = (Inr d, t) \<Longrightarrow> lo \<le> d \<and> d \<le> hi"
    and "0 \<le> base_delay p" and "0 \<le> multiplier p" and "0 \<le> max_delay p"
    and "delay_for uniform p attempt s = (Inr d, t)"
  shows "0 \<le> d \<and> d \<le> max_delay p"
proof -
  have "0 \<le> delay_ceiling p attempt" "delay_ceiling p attempt \<le> max_delay p"
    using assms(2-4) by (simp_all add: delay_ceiling_def zero_le_power_int)
  moreover have "uniform 0 (delay_ceiling p attempt) s = (Inr d, t)"
    using assms(5) by (simp add: delay_for_def)
  ultimately show ?thesis using assms(1) [of 0 "delay_ceiling p attempt" s d t] by linarith
qed

theorem retry_delay_bounded_witness:
  "\<exists>d. delay_for (\<lambda>lo hi (s :: unit). (Inr hi, s)) default_policy 3 () = (Inr d, ()) \<and> 0 \<le> d \<and> d \<le> 5"
  using retry_delay_bounded [of "\<lambda>lo hi (s :: unit). (Inr hi, s)" default_policy 3 "()"
      "delay_ceiling default_policy 3" "()"]
  by (simp add: delay_for_def default_policy_def)

text \<open>C40. In every state that interleaved calls can bring a breaker into, it is closed exactly
  while the number of failures since the last success is below the threshold, and an open
  breaker was opened at a time that has passed.\<close>

theorem breaker_closed_iff_below_threshold:
  assumes "breaker_reach (new_breaker n timeout name ignored) t0 s" and "1 \<le> n"
  shows "(cb_state (brk s) = CLOSED \<longleftrightarrow> cb_failures (brk s) < failure_threshold (brk s)) \<and>
         (cb_state (brk s) = OPEN \<longrightarrow> cb_opened_at (brk s) \<le> clock s)"
  using breaker_reach_inv [OF assms(1) refl assms(2)] by (simp add: sys_inv_def breaker_inv_def)

theorem breaker_closed_iff_below_threshold_witness:
  "breaker_reach (new_breaker 1 30 ''stripe'' []) 0
     \<lparr> brk = on_failure 0 (new_breaker 1 30 ''stripe'' []), inflight = 0, clock = 0 \<rparr> \<and>
   cb_state (on_failure 0 (new_breaker 1 30 ''stripe'' [])) \<noteq> CLOSED"
proof
  let ?s = "\<lparr> brk = on_failure 0 (new_breaker 1 30 ''stripe'' []), inflight = 0, clock = 0 \<rparr>"
  show reach: "breaker_reach (new_breaker 1 30 ''stripe'' []) 0 ?s" by (rule tripped_reachable)
  show "cb_state (on_failure 0 (new_breaker 1 30 ''stripe'' [])) \<noteq> CLOSED"
    using breaker_closed_iff_below_threshold [OF reach] by (simp add: on_failure_def new_breaker_def)
qed

text \<open>A fresh breaker trips exactly at its threshold: one fewer consecutive infrastructure
  failures leave it closed, the next one opens it, and from then on calls fail fast with
  \<open>CircuitOpenError\<close>, without running the operation or changing any state, until the reset
  timeout has passed.  Ignored exceptions (business declines) never change it.\<close>

theorem breaker_trips_at_threshold:
  assumes "int (length fails) = n - 1"
    and "\<forall>r \<in> set (final # fails). \<exists>e. r = Inl e \<and> \<not> is_ignored (new_breaker n timeout name ign) e"
    and "\<forall>r \<in> set declines. \<exists>e. r = Inl e \<and> is_ignored (new_breaker n timeout name ign) e"
  shows "cb_state (fst (run_calls (fails @ declines) (new_breaker n timeout name ign, t))) = CLOSED \<and>
    (\<exists>b. run_calls (fails @ declines @ [final]) (new_breaker n timeout name ign, t) = (b, t) \<and>
         cb_state b = OPEN \<and>
         (\<forall>t' func. t' - t < timeout \<longrightarrow>
            breaker_call fst (\<lambda>b s. (b, snd s)) snd func (b, t') =
              (Inl (circuit_open_error name), (b, t'))))"
proof -
  let ?b = "new_breaker n timeout name ign"
  let ?b1 = "?b\<lparr>cb_failures := n - 1\<rparr>"
  have ign: "is_ignored ?b1 e = is_ignored ?b e" for e by (simp add: is_ignored_def)
  have "run_calls fails (?b, t) = (?b1, t)"
    using run_calls_failures [of ?b fails t] assms(1,2) by (simp add: new_breaker_def)
  moreover have "run_calls declines (?b1, t) = (?b1, t)"
    using run_calls_ignored [of ?b1 declines t] assms(3) by (simp add: new_breaker_def is_ignored_def)
  ultimately have closed: "run_calls (fails @ declines) (?b, t) = (?b1, t)"
    by (simp add: run_calls_append)
  from assms(2) obtain e where e: "final = Inl e" "\<not> is_ignored ?b e" by auto
  let ?b2 = "on_failure t ?b1"
  have "run_calls [final] (?b1, t) = (?b2, t)"
    using call_lift_closed [of ?b1 final t] e ign by (simp add: new_breaker_def)
  then have opened: "run_calls (fails @ declines @ [final]) (?b, t) = (?b2, t)"
    using closed by (simp flip: append_assoc add: run_calls_append)
  have b2: "cb_state ?b2 = OPEN" "cb_opened_at ?b2 = t" "reset_timeout ?b2 = timeout" "cb_name ?b2 = name"
    by (simp_all add: on_failure_def new_breaker_def)
  have "breaker_call fst (\<lambda>b s. (b, snd s)) snd func (?b2, t') = (Inl (circuit_open_error name), (?b2, t'))"
    if "t' - t < timeout" for t' and func :: "(CircuitBreaker \<times> rat, exc, 'b) op"
    using lone_breaker.call_open [of "(?b2, t')" func] b2 that by simp
  then show ?thesis using closed opened b2 by (simp add: new_breaker_def)
qed

theorem breaker_trips_at_threshold_witness:
  "\<exists>b. run_calls [Inl (Py TransportError) :: unit result, Inl (err ProviderError ''declined''), Inl (Py TransportError)]
         (new_breaker 2 30 ''stripe'' [ProviderError], 5) = (b, 5) \<and>
       breaker_call fst (\<lambda>b s. (b, snd s)) snd (return ()) (b, 34) = (Inl (circuit_open_error ''stripe''), (b, 34))"
proof -
  let ?f = "Inl (Py TransportError) :: unit result" and ?d = "Inl (err ProviderError ''declined'') :: unit result"
  let ?b = "new_breaker 2 30 ''stripe'' [ProviderError]"
  have "\<forall>r \<in> set (?f # [?f]). \<exists>e. r = Inl e \<and> \<not> is_ignored ?b e"
    and "\<forall>r \<in> set [?d]. \<exists>e. r = Inl e \<and> is_ignored ?b e"
    by (simp_all add: is_ignored_def new_breaker_def is_subclass_def err_def DomainError_init_def is_instance_def)
  then obtain b where "run_calls ([?f] @ [?d] @ [?f]) (?b, 5) = (b, 5)"
    and "\<forall>t' (func :: (CircuitBreaker \<times> rat, exc, unit) op). t' - 5 < 30 \<longrightarrow>
           breaker_call fst (\<lambda>b s. (b, snd s)) snd func (b, t') = (Inl (circuit_open_error ''stripe''), (b, t'))"
    using breaker_trips_at_threshold [of "[?f]" 2 ?f 30 "''stripe''" "[ProviderError]" "[?d]" 5]
    by fastforce
  then show ?thesis by (intro exI [of _ b] conjI) simp_all
qed

text \<open>Half-open does not mean one probe: once the cool-off of an open breaker has passed, any
  number of concurrent calls are admitted before the first of them has finished.\<close>

theorem half_open_admits_all:
  assumes "breaker_reach b0 t0 s" and "cb_state (brk s) = OPEN"
    and "clock s - cb_opened_at (brk s) \<ge> reset_timeout (brk s)"
  shows "\<exists>t. breaker_reach b0 t0 t \<and> cb_state (brk t) = HALF_OPEN \<and> inflight t = inflight s + Suc k \<and>
             clock t = clock s"
proof (induction k)
  case 0
  have "breaker_step s (s\<lparr>brk := (brk s)\<lparr>cb_state := HALF_OPEN\<rparr>, inflight := Suc (inflight s)\<rparr>)"
    using assms by (intro breaker_step.enter) (simp add: before_call_def)
  from breaker_reach.step [OF assms(1) this] show ?case by force
next
  case (Suc k)
  then obtain t where t: "breaker_reach b0 t0 t" "cb_state (brk t) = HALF_OPEN"
    "inflight t = inflight s + Suc k" "clock t = clock s" by blast
  have "breaker_step t (t\<lparr>brk := brk t, inflight := Suc (inflight t)\<rparr>)"
    using t by (intro breaker_step.enter) (simp add: before_call_def)
  from breaker_reach.step [OF t(1) this] t show ?case by force
qed

theorem half_open_admits_all_witness:
  "\<exists>t. breaker_reach (new_breaker 1 0 ''mock'' []) 7 t \<and> cb_state (brk t) = HALF_OPEN \<and> inflight t = 2"
proof -
  let ?s = "\<lparr> brk = on_failure 7 (new_breaker 1 0 ''mock'' []), inflight = 0, clock = 7 \<rparr>"
  have "breaker_reach (new_breaker 1 0 ''mock'' []) 7 ?s" by (rule tripped_reachable)
  from half_open_admits_all [OF this, of 1] show ?thesis by (auto simp: on_failure_def new_breaker_def)
qed

end
