(* ===== verification/Py_Json.thy ===== *)
theory Py_Json
  imports Errors Hashing "HOL-Library.Char_ord" "HOL-Library.List_Lexorder"
begin

text \<open>
  What the source does with decoded JSON: \<open>dict.get\<close>, subscription, \<open>str\<close> and \<open>repr\<close>, and the
  canonical text \<open>json.dumps(body, separators=(",", ":"), sort_keys=True)\<close> that idempotency
  records and simulated webhooks are built on.
\<close>

section \<open>Access\<close>

definition json_get :: "json \<Rightarrow> string \<Rightarrow> json \<Rightarrow> json result" where
  \<comment> \<open>\<open>x.get(k, dflt)\<close>\<close>
  "json_get x k dflt =
     (case x of
        JObj kvs \<Rightarrow> Inr (case map_of kvs k of Some v \<Rightarrow> v | None \<Rightarrow> dflt)
      | _ \<Rightarrow> Inl (Py AttributeError))"

definition json_index :: "json \<Rightarrow> string \<Rightarrow> json result" where
  \<comment> \<open>\<open>x[k]\<close> with a string \<open>k\<close>\<close>
  "json_index x k =
     (case x of
        JObj kvs \<Rightarrow> (case map_of kvs k of Some v \<Rightarrow> Inr v | None \<Rightarrow> Inl (Py (KeyError k)))
      | _ \<Rightarrow> Inl (Py TypeError))"

section \<open>\<open>repr\<close> and \<open>str\<close>\<close>

definition hex2 :: "nat \<Rightarrow> string" where
  "hex2 n = [hex_char (n div 16), hex_char (n mod 16)]"

definition is_printable :: "char \<Rightarrow> bool" where
  "is_printable c =
     (let n = (of_char c :: nat) in (32 \<le> n \<and> n \<le> 126) \<or> (161 \<le> n \<and> n \<noteq> 173))"

definition repr_char :: "char \<Rightarrow> char \<Rightarrow> string" where
  "repr_char quote c =
     (if c = quote \<or> c = CHR 0x5C then [CHR 0x5C, c]
      else if c = CHR 0x0A then CHR 0x5C # ''n''
      else if c = CHR 0x0D then CHR 0x5C # ''r''
      else if c = CHR 0x09 then CHR 0x5C # ''t''
      else if is_printable c then [c]
      else CHR 0x5C # CHR ''x'' # hex2 (of_char c))"

definition repr_str :: "string \<Rightarrow> string" where
  "repr_str s =
     (let quote = (if CHR 0x27 \<in> set s \<and> CHR 0x22 \<notin> set s then CHR 0x22 else CHR 0x27)
      in quote # concat (map (repr_char quote) s) @ [quote])"

fun join :: "string \<Rightarrow> string list \<Rightarrow> string" where
  "join sep [] = []"
| "join sep [x] = x"
| "join sep (x # y # xs) = x @ sep @ join sep (y # xs)"

fun py_repr :: "json \<Rightarrow> string" where
  "py_repr JNull = ''None''"
| "py_repr (JBool b) = (if b then ''True'' else ''False'')"
| "py_repr (JInt i) = show_int i"
| "py_repr (JFloat r) = r"
| "py_repr (JStr s) = repr_str s"
| "py_repr (JArr xs) = ''['' @ join '', '' (map py_repr xs) @ '']''"
| "py_repr (JObj kvs) =
     CHR 0x7B # join '', '' (map (\<lambda>(k, v). repr_str k @ '': '' @ py_repr v) kvs) @ [CHR 0x7D]"

definition py_str :: "json \<Rightarrow> string" where
  "py_str x = (case x of JStr s \<Rightarrow> s | _ \<Rightarrow> py_repr x)"

section \<open>Canonical JSON text\<close>

definition dumps_char :: "char \<Rightarrow> string" where
  "dumps_char c =
     (let n = (of_char c :: nat)
      in if c = CHR 0x22 \<or> c = CHR 0x5C then [CHR 0x5C, c]
         else if n = 10 then CHR 0x5C # ''n''
         else if n = 13 then CHR 0x5C # ''r''
         else if n = 9 then CHR 0x5C # ''t''
         else if n = 8 then CHR 0x5C # ''b''
         else if n = 12 then CHR 0x5C # ''f''
         else if 32 \<le> n \<and> n \<le> 126 then [c]
         else CHR 0x5C # ''u00'' @ hex2 n)"

definition dumps_str :: "string \<Rightarrow> string" where
  "dumps_str s = CHR 0x22 # concat (map dumps_char s) @ [CHR 0x22]"

definition dumps_float :: "string \<Rightarrow> string" where
  "dumps_float r =
     (if r = ''inf'' then ''Infinity'' else if r = ''-inf'' then ''-Infinity''
      else if r = ''nan'' then ''NaN'' else r)"

fun json_dumps :: "json \<Rightarrow> string" where
  "json_dumps JNull = ''null''"
| "json_dumps (JBool b) = (if b then ''true'' else ''false'')"
| "json_dumps (JInt i) = show_int i"
| "json_dumps (JFloat r) = dumps_float r"
| "json_dumps (JStr s) = dumps_str s"
| "json_dumps (JArr xs) = ''['' @ join '','' (map json_dumps xs) @ '']''"
| "json_dumps (JObj kvs) =
     CHR 0x7B # join '','' (map (\<lambda>(k, t). dumps_str k @ '':'' @ t)
        (sort_key fst (map (\<lambda>(k, v). (k, json_dumps v)) kvs))) @ [CHR 0x7D]"

section \<open>Lemmas\<close>

text \<open>The canonical text does not depend on the order in which a dictionary was filled.\<close>

lemma sort_key_fst_perm:
  assumes "distinct (map fst xs)" and "distinct (map fst ys)" and "set xs = set ys"
  shows "sort_key fst xs = sort_key fst (ys :: (string \<times> 'a) list)"
proof (rule map_sorted_distinct_set_unique [where f = fst])
  show "inj_on fst (set (sort_key fst xs) \<union> set (sort_key fst ys))"
    using assms by (simp add: distinct_map)
  show "distinct (map fst (sort_key fst xs))" "distinct (map fst (sort_key fst ys))"
    using assms by (simp_all add: distinct_map distinct_sort)
qed (use assms in simp_all)

lemma json_dumps_order_independent:
  assumes "distinct (map fst xs)" and "distinct (map fst ys)" and "set xs = set ys"
  shows "json_dumps (JObj xs) = json_dumps (JObj ys)"
proof -
  let ?m = "map (\<lambda>(k, v). (k, json_dumps v))"
  have keys: "map fst (?m zs) = map fst zs" for zs by (induction zs) auto
  have "sort_key fst (?m xs) = sort_key fst (?m ys)"
    by (rule sort_key_fst_perm) (simp_all only: keys assms set_map)
  then show ?thesis by simp
qed

lemma hex2_ascii: "n < 256 \<Longrightarrow> c \<in> set (hex2 n) \<Longrightarrow> is_ascii c"
  by (auto simp: hex2_def intro!: is_hex_ascii is_hex_hex_char)

lemma dumps_char_ascii: "d \<in> set (dumps_char c) \<Longrightarrow> is_ascii d"
  using hex2_ascii [OF of_char_less [of c], of d]
  by (auto simp: dumps_char_def Let_def is_ascii_def split: if_splits)

lemma dumps_str_ascii: "d \<in> set (dumps_str s) \<Longrightarrow> is_ascii d"
  by (auto simp: dumps_str_def is_ascii_def dest: dumps_char_ascii [unfolded is_ascii_def])

lemma py_str_JStr [simp]: "py_str (JStr s) = s"
  by (simp add: py_str_def)

lemma json_get_obj [simp]:
  "json_get (JObj kvs) k d = Inr (case map_of kvs k of Some v \<Rightarrow> v | None \<Rightarrow> d)"
  by (simp add: json_get_def)

end
