(* ===== verification/World.thy ===== *)
theory World
  imports Domain Resilience Py_Json
begin

text \<open>
  The state every request works on.  The tables hold the rows of the ORM models
  (\<^verbatim>\<open>app/db/models\<close>), the session is a unit of work over them (\<^verbatim>\<open>app/db/session.py\<close>,
  \<open>get_session\<close> of \<^verbatim>\<open>app/api/deps.py\<close>), the repositories (\<^verbatim>\<open>app/repositories\<close>) are its queries.

  What lies outside the program is an argument, a record \<open>platform\<close> of functions on an
  environment: clocks, random identifiers, the network, the JSON reader, the AEAD cipher, the
  password hasher, the token library and the database engine's verdict on a set of rows.

  A session sees its own objects.  As auto-flush is off, an added row is not visible to queries
  before a flush; an attribute set on a loaded object is.  (No query of the program filters on
  an attribute that the same request has changed.)  The identifier and the timestamps that a
  row receives when it is inserted are drawn when it is added; the refresh of \<open>updated_at\<close> by
  the database on later updates is not modelled.
\<close>

section \<open>Identifiers\<close>

type_synonym uuid = "128 word"

definition uuid_hex :: "uuid \<Rightarrow> string" where
  "uuid_hex u = map (\<lambda>i. hex_char (unat u div 16 ^ i mod 16)) (rev [0..<32])"

definition uuid_str :: "uuid \<Rightarrow> string" where
  "uuid_str u = (let h = uuid_hex u in
     take 8 h @ ''-'' @ take 4 (drop 8 h) @ ''-'' @ take 4 (drop 12 h) @ ''-''
       @ take 4 (drop 16 h) @ ''-'' @ drop 20 h)"

section \<open>Rows\<close>

record User =
  usr_id :: uuid
  usr_email :: string
  usr_hashed_password :: string
  usr_full_name :: "string option"
  usr_role :: UserRole
  usr_is_active :: bool
  usr_failed_login_attempts :: int
  usr_created_at :: rat

record ApiKey =
  key_id :: uuid
  key_user_id :: uuid
  key_name :: string
  key_hashed_key :: string
  key_display_prefix :: string
  key_is_active :: bool
  key_last_used_at :: "rat option"
  key_revoked_at :: "rat option"
  key_created_at :: rat

record ProviderConfig =
  cfg_id :: uuid
  cfg_owner_id :: uuid
  cfg_provider :: ProviderName
  cfg_encrypted_secret :: string
  cfg_config :: "(string \<times> json) list"
  cfg_is_active :: bool
  cfg_sandbox :: bool

record Payment =
  pay_id :: uuid
  pay_owner_id :: uuid
  pay_provider :: ProviderName
  pay_provider_reference :: "string option"
  pay_amount :: int
  pay_currency :: string
  pay_amount_captured :: int
  pay_amount_refunded :: int
  pay_status :: PaymentStatus
  pay_capture_method :: CaptureMethod
  pay_method_type :: PaymentMethodType
  pay_description :: "string option"
  pay_customer_reference :: "string option"
  pay_failure_reason :: "string option"
  pay_metadata :: "(string \<times> json) list"
  pay_created_at :: rat
  pay_updated_at :: rat

definition amount_refundable :: "Payment \<Rightarrow> int" where
  "amount_refundable p = max 0 (pay_amount_captured p - pay_amount_refunded p)"

record Refund =
  rfd_id :: uuid
  rfd_payment_id :: uuid
  rfd_amount :: int
  rfd_currency :: string
  rfd_status :: RefundStatus
  rfd_reason :: "string option"
  rfd_provider_reference :: "string option"
  rfd_created_at :: rat

record IdempotencyKey =
  idk_id :: uuid
  idk_owner_id :: uuid
  idk_endpoint :: string
  idk_key :: string
  idk_request_hash :: string
  idk_response_status :: int
  idk_response_body :: json

record WebhookEvent =
  evt_id :: uuid
  evt_provider :: ProviderName
  evt_event_id :: string
  evt_event_type :: string
  evt_status :: WebhookStatus
  evt_payload :: json
  evt_attempts :: int
  evt_last_error :: "string option"

record AuditLog =
  aud_id :: uuid
  aud_actor_id :: "uuid option"
  aud_action :: AuditAction
  aud_resource_type :: "string option"
  aud_resource_id :: "string option"
  aud_correlation_id :: "string option"
  aud_context :: "(string \<times> json) list"

record tables =
  users :: "User list"
  api_keys :: "ApiKey list"
  provider_configs :: "ProviderConfig list"
  payments :: "Payment list"
  refunds :: "Refund list"
  idempotency_keys :: "IdempotencyKey list"
  webhook_events :: "WebhookEvent list"
  audit_logs :: "AuditLog list"

text \<open>The unique constraints the models declare; a null reference never collides.\<close>

definition unique_by :: "('r \<Rightarrow> 'k option) \<Rightarrow> 'r list \<Rightarrow> bool" where
  "unique_by f rs \<longleftrightarrow> distinct (List.map_filter f rs)"

definition unique_ok :: "tables \<Rightarrow> bool" where
  "unique_ok t \<longleftrightarrow>
     unique_by (Some \<circ> usr_id) (users t) \<and>
     unique_by (Some \<circ> usr_email) (users t) \<and>
     unique_by (Some \<circ> key_id) (api_keys t) \<and>
     unique_by (Some \<circ> key_hashed_key) (api_keys t) \<and>
     unique_by (Some \<circ> cfg_id) (provider_configs t) \<and>
     unique_by (Some \<circ> pay_id) (payments t) \<and>
     unique_by (\<lambda>p. map_option (Pair (pay_provider p)) (pay_provider_reference p)) (payments t) \<and>
     unique_by (Some \<circ> rfd_id) (refunds t) \<and>
     unique_by (Some \<circ> idk_id) (idempotency_keys t) \<and>
     unique_by (\<lambda>k. Some (idk_owner_id k, idk_endpoint k, idk_key k)) (idempotency_keys t) \<and>
     unique_by (Some \<circ> evt_id) (webhook_events t) \<and>
     unique_by (\<lambda>e. Some (evt_provider e, evt_event_id e)) (webhook_events t) \<and>
     unique_by (Some \<circ> aud_id) (audit_logs t)"

datatype row =
    UserRow User
  | ApiKeyRow ApiKey
  | PaymentRow Payment
  | RefundRow Refund
  | IdempotencyKeyRow IdempotencyKey
  | WebhookEventRow WebhookEvent
  | AuditLogRow AuditLog

fun insert_row :: "row \<Rightarrow> tables \<Rightarrow> tables" where
  "insert_row (UserRow r) t = t\<lparr>users := users t @ [r]\<rparr>"
| "insert_row (ApiKeyRow r) t = t\<lparr>api_keys := api_keys t @ [r]\<rparr>"
| "insert_row (PaymentRow r) t = t\<lparr>payments := payments t @ [r]\<rparr>"
| "insert_row (RefundRow r) t = t\<lparr>refunds := refunds t @ [r]\<rparr>"
| "insert_row (IdempotencyKeyRow r) t = t\<lparr>idempotency_keys := idempotency_keys t @ [r]\<rparr>"
| "insert_row (WebhookEventRow r) t = t\<lparr>webhook_events := webhook_events t @ [r]\<rparr>"
| "insert_row (AuditLogRow r) t = t\<lparr>audit_logs := audit_logs t @ [r]\<rparr>"

section \<open>The platform and the world\<close>

datatype http_client = SharedClient | OwnClient string
  \<comment> \<open>the process-wide client, or one made for the call with this base URL\<close>

record http_request =
  rq_client :: http_client
  rq_path :: string
  rq_data :: "(string \<times> json) list"
  rq_headers :: "(string \<times> string) list"

record http_response =
  rs_status_code :: int
  rs_text :: string

record 'e platform =
  monotonic :: "'e \<Rightarrow> rat"
  time_time :: "'e \<Rightarrow> rat"
  db_now :: "'e \<Rightarrow> rat"
  uuid4 :: "'e \<Rightarrow> uuid \<times> 'e"
  uniform :: "rat \<Rightarrow> rat \<Rightarrow> 'e \<Rightarrow> rat \<times> 'e"
  async_sleep :: "rat \<Rightarrow> 'e \<Rightarrow> 'e"
  http_post :: "http_request \<Rightarrow> 'e \<Rightarrow> (py_exc + http_response) \<times> 'e"
  json_loads :: "string \<Rightarrow> py_exc + json"
  int_of_float :: "string \<Rightarrow> py_exc + int"
  isoformat :: "rat \<Rightarrow> string"
  db_accepts :: "tables \<Rightarrow> bool"
  urandom :: "nat \<Rightarrow> 'e \<Rightarrow> string \<times> 'e"
  aesgcm_encrypt :: "string \<Rightarrow> string \<Rightarrow> string \<Rightarrow> string option \<Rightarrow> string"
  aesgcm_decrypt :: "string \<Rightarrow> string \<Rightarrow> string \<Rightarrow> string option \<Rightarrow> py_exc + string"
  argon2_hash :: "string \<Rightarrow> 'e \<Rightarrow> string \<times> 'e"
  argon2_verify :: "string \<Rightarrow> string \<Rightarrow> py_exc + bool"
  argon2_needs_rehash :: "string \<Rightarrow> py_exc + bool"
  jwt_encode :: "json \<Rightarrow> string \<Rightarrow> string \<Rightarrow> string"
  jwt_decode :: "string \<Rightarrow> string \<Rightarrow> string \<Rightarrow> string \<Rightarrow> string \<Rightarrow> string list \<Rightarrow> 'e \<Rightarrow> py_exc + json"

datatype metric = Inc string "string list" | Observe string "string list" rat

record 'e world =
  env :: 'e
  committed :: tables
  objs :: tables
  pending :: "row list"
  breakers :: "ProviderName \<rightharpoonup> CircuitBreaker"
  metrics :: "metric list"
  correlation_id :: string

section \<open>Unit of work\<close>

definition add_row ::
  "'e platform \<Rightarrow> ('r \<Rightarrow> row) \<Rightarrow> (uuid \<Rightarrow> rat \<Rightarrow> 'r) \<Rightarrow> ('e world, exc, 'r) op" where
  "add_row P row_of mk = (\<lambda>w.
     case uuid4 P (env w) of (i, e) \<Rightarrow>
       let r = mk i (db_now P e) in (Inr r, w\<lparr>env := e, pending := pending w @ [row_of r]\<rparr>))"

definition flush :: "'e platform \<Rightarrow> ('e world, exc, unit) op" where
  "flush P = (\<lambda>w.
     let t = fold insert_row (pending w) (objs w)
     in if db_accepts P t then (Inr (), w\<lparr>objs := t, pending := []\<rparr>) else (Inl (Py IntegrityError), w))"

definition commit :: "'e platform \<Rightarrow> ('e world, exc, unit) op" where
  "commit P = andThen (flush P) (\<lambda>_. modify (\<lambda>w. w\<lparr>committed := objs w\<rparr>))"

definition rollback :: "('e world, exc, unit) op" where
  "rollback = modify (\<lambda>w. w\<lparr>objs := committed w, pending := []\<rparr>)"

text \<open>\<open>session_scope\<close> and \<open>get_session\<close>: commit on success, roll back and re-raise on any exception.\<close>

definition session_scope :: "'e platform \<Rightarrow> ('e world, exc, 'a) op \<Rightarrow> ('e world, exc, 'a) op" where
  "session_scope P body =
     andThen rollback (\<lambda>_.
     on_exit (andThen body (\<lambda>a. andThen (commit P) (\<lambda>_. return a))) (\<lambda>r. case r of
         Inr a \<Rightarrow> return a
       | Inl e \<Rightarrow> andThen rollback (\<lambda>_. throw e)))"

definition inc :: "string \<Rightarrow> string list \<Rightarrow> ('e world, exc, unit) op" where
  "inc name labels = modify (\<lambda>w. w\<lparr>metrics := metrics w @ [Inc name labels]\<rparr>)"

definition observe :: "string \<Rightarrow> string list \<Rightarrow> rat \<Rightarrow> ('e world, exc, unit) op" where
  "observe name labels v = modify (\<lambda>w. w\<lparr>metrics := metrics w @ [Observe name labels v]\<rparr>)"

section \<open>Repositories\<close>

definition scalar_one_or_none :: "'r list \<Rightarrow> 'r option result" where
  "scalar_one_or_none rs =
     (case rs of [] \<Rightarrow> Inr None | [r] \<Rightarrow> Inr (Some r) | _ \<Rightarrow> Inl (Py MultipleResultsFound))"

definition select_one :: "(tables \<Rightarrow> 'r list) \<Rightarrow> ('r \<Rightarrow> bool) \<Rightarrow> ('e world, exc, 'r option) op" where
  "select_one table cond =
     andThen (gets (\<lambda>w. scalar_one_or_none (filter cond (table (objs w))))) lift_result"

definition get_by_id :: "(tables \<Rightarrow> 'r list) \<Rightarrow> ('r \<Rightarrow> uuid) \<Rightarrow> uuid \<Rightarrow> ('e world, exc, 'r option) op" where
  "get_by_id table key i = gets (\<lambda>w. find (\<lambda>r. key r = i) (table (objs w)))"

definition get_for_owner :: "uuid \<Rightarrow> uuid \<Rightarrow> ('e world, exc, Payment option) op" where
  "get_for_owner payment_id owner_id =
     select_one payments (\<lambda>p. pay_id p = payment_id \<and> pay_owner_id p = owner_id)"

definition list_for_owner ::
  "uuid \<Rightarrow> PaymentStatus option \<Rightarrow> nat \<Rightarrow> nat \<Rightarrow> ('e world, exc, Payment list \<times> nat) op" where
  "list_for_owner owner_id status limit offset = gets (\<lambda>w.
     let conditions = (\<lambda>p. pay_owner_id p = owner_id \<and>
           (case status of None \<Rightarrow> True | Some s \<Rightarrow> pay_status p = s));
         rows = filter conditions (payments (objs w))
     in (take limit (drop offset (sort_key (\<lambda>p. - pay_created_at p) rows)), length rows))"

definition list_for_payment :: "uuid \<Rightarrow> ('e world, exc, Refund list) op" where
  "list_for_payment payment_id = gets (\<lambda>w.
     sort_key rfd_created_at (filter (\<lambda>r. rfd_payment_id r = payment_id) (refunds (objs w))))"

definition get_active :: "uuid \<Rightarrow> ProviderName \<Rightarrow> ('e world, exc, ProviderConfig option) op" where
  "get_active owner_id provider =
     select_one provider_configs
       (\<lambda>c. cfg_owner_id c = owner_id \<and> cfg_provider c = provider \<and> cfg_is_active c)"

definition idempotency_get :: "uuid \<Rightarrow> string \<Rightarrow> string \<Rightarrow> ('e world, exc, IdempotencyKey option) op" where
  "idempotency_get owner_id endpoint key =
     select_one idempotency_keys
       (\<lambda>k. idk_owner_id k = owner_id \<and> idk_endpoint k = endpoint \<and> idk_key k = key)"

definition get_by_event :: "ProviderName \<Rightarrow> string \<Rightarrow> ('e world, exc, WebhookEvent option) op" where
  "get_by_event provider event_id =
     select_one webhook_events (\<lambda>e. evt_provider e = provider \<and> evt_event_id e = event_id)"

definition get_by_email :: "string \<Rightarrow> ('e world, exc, User option) op" where
  "get_by_email email = select_one users (\<lambda>u. usr_email u = lower email)"

definition email_exists :: "string \<Rightarrow> ('e world, exc, bool) op" where
  "email_exists email = gets (\<lambda>w. \<exists>u \<in> set (users (objs w)). usr_email u = lower email)"

definition get_by_hash :: "string \<Rightarrow> ('e world, exc, ApiKey option) op" where
  "get_by_hash hashed_key = select_one api_keys (\<lambda>k. key_hashed_key k = hashed_key)"

definition api_keys_for_owner :: "uuid \<Rightarrow> ('e world, exc, ApiKey list) op" where
  "api_keys_for_owner owner_id = gets (\<lambda>w.
     sort_key (\<lambda>k. - key_created_at k) (filter (\<lambda>k. key_user_id k = owner_id) (api_keys (objs w))))"

text \<open>Attribute assignment on a loaded object: the session's row with that identifier.\<close>

definition replace_by :: "('r \<Rightarrow> uuid) \<Rightarrow> 'r \<Rightarrow> 'r list \<Rightarrow> 'r list" where
  "replace_by key r rs = map (\<lambda>q. if key q = key r then r else q) rs"

definition put_payment :: "Payment \<Rightarrow> ('e world, exc, unit) op" where
  "put_payment p =
     modify (\<lambda>w. w\<lparr>objs := (objs w)\<lparr>payments := replace_by pay_id p (payments (objs w))\<rparr>\<rparr>)"

definition put_user :: "User \<Rightarrow> ('e world, exc, unit) op" where
  "put_user u = modify (\<lambda>w. w\<lparr>objs := (objs w)\<lparr>users := replace_by usr_id u (users (objs w))\<rparr>\<rparr>)"

definition put_api_key :: "ApiKey \<Rightarrow> ('e world, exc, unit) op" where
  "put_api_key k =
     modify (\<lambda>w. w\<lparr>objs := (objs w)\<lparr>api_keys := replace_by key_id k (api_keys (objs w))\<rparr>\<rparr>)"

section \<open>Lemmas on the unit of work\<close>

lemma flush_Inr [op_splits]:
  "flush P w = (Inr u, v) \<longleftrightarrow>
     db_accepts P (fold insert_row (pending w) (objs w)) \<and>
     v = w\<lparr>objs := fold insert_row (pending w) (objs w), pending := []\<rparr>"
  by (auto simp: flush_def Let_def split: if_splits)

lemma flush_Inl [op_splits]:
  "flush P w = (Inl e, v) \<longleftrightarrow>
     \<not> db_accepts P (fold insert_row (pending w) (objs w)) \<and> e = Py IntegrityError \<and> v = w"
  by (auto simp: flush_def Let_def split: if_splits)

lemma select_one_eq:
  "select_one table cond w = (scalar_one_or_none (filter cond (table (objs w))), w)"
  by (simp add: select_one_def op_simps split: sum.splits)

lemma scalar_one_or_none_Some:
  "scalar_one_or_none rs = Inr (Some r) \<Longrightarrow> rs = [r]"
  by (auto simp: scalar_one_or_none_def split: list.splits)

lemma scalar_one_or_none_None: "scalar_one_or_none rs = Inr None \<longleftrightarrow> rs = []"
  by (auto simp: scalar_one_or_none_def split: list.splits)

lemma select_one_Inr [op_splits]:
  "select_one table cond w = (Inr r, v) \<longleftrightarrow>
     v = w \<and> scalar_one_or_none (filter cond (table (objs w))) = Inr r"
  by (auto simp: select_one_eq)

lemma select_one_Inl [op_splits]:
  "select_one table cond w = (Inl e, v) \<longleftrightarrow>
     v = w \<and> scalar_one_or_none (filter cond (table (objs w))) = Inl e"
  by (auto simp: select_one_eq)

text \<open>With unique identifiers a query by identifier never finds several rows.\<close>

lemma map_filter_Some: "List.map_filter (Some \<circ> f) xs = map f xs"
  by (induction xs) (simp_all add: List.map_filter_simps)

lemma filter_unique:
  assumes "unique_by (Some \<circ> f) xs"
  shows "filter (\<lambda>x. f x = i \<and> Q x) xs = [] \<or> (\<exists>x. filter (\<lambda>x. f x = i \<and> Q x) xs = [x])"
proof -
  have "distinct (map f xs)" using assms by (simp add: unique_by_def map_filter_Some)
  then show ?thesis
  proof (induction xs)
    case Nil
    then show ?case by simp
  next
    case (Cons x xs)
    show ?case
    proof (cases "f x = i \<and> Q x")
      case True
      then have "filter (\<lambda>x. f x = i \<and> Q x) xs = []"
        using Cons.prems by (auto simp: filter_empty_conv) (metis image_eqI)
      then show ?thesis using True by simp
    qed (use Cons in auto)
  qed
qed

lemma unit_of_work:
  "session_scope P body w =
    (let w0 = w\<lparr>objs := committed w, pending := []\<rparr>
     in case body w0 of
          (Inl e, v) \<Rightarrow> (Inl e, v\<lparr>objs := committed v, pending := []\<rparr>)
        | (Inr a, v) \<Rightarrow>
            let t = fold insert_row (pending v) (objs v)
            in if db_accepts P t
               then (Inr a, v\<lparr>objs := t, pending := [], committed := t\<rparr>)
               else (Inl (Py IntegrityError), v\<lparr>objs := committed v, pending := []\<rparr>))"
  by (auto simp: session_scope_def rollback_def commit_def flush_def op_simps Let_def
      split: prod.splits sum.splits)

lemma add_row_Inr [op_splits]:
  "add_row P row_of mk w = (Inr r, v) \<longleftrightarrow>
     (\<exists>i e. uuid4 P (env w) = (i, e) \<and> r = mk i (db_now P e) \<and>
        v = w\<lparr>env := e, pending := pending w @ [row_of r]\<rparr>)"
  by (auto simp: add_row_def Let_def split: prod.splits)

lemma add_row_Inl [op_splits]: "\<not> add_row P row_of mk w = (Inl e, v)"
  by (auto simp: add_row_def Let_def split: prod.splits)

text \<open>
  The body of a request changes the session, never the committed rows: what a unit of work
  does not commit leaves no trace in the database.
\<close>

locale unit_of_work_body =
  fixes body :: "('e world, exc, 'a) op"
  assumes keeps_committed: "keeps (\<lambda>v. committed v = c) body"
begin

lemma failure_leaves_no_trace:
  assumes "session_scope P body w = (Inl e, v)"
  shows "committed v = committed w \<and> objs v = committed w \<and> pending v = []"
proof -
  let ?w = "w\<lparr>objs := committed w, pending := []\<rparr>"
  obtain r u where run: "body ?w = (r, u)" by (cases "body ?w")
  have "committed u = committed w"
    using keepsD [OF keeps_committed run, of "committed w"] by simp
  then show ?thesis using assms run by (auto simp: unit_of_work Let_def split: sum.splits if_splits)
qed

lemma success_commits_session:
  assumes "session_scope P body w = (Inr a, v)"
  obtains u where "body (w\<lparr>objs := committed w, pending := []\<rparr>) = (Inr a, u)"
    and "committed v = fold insert_row (pending u) (objs u)" and "db_accepts P (committed v)"
  using assms by (auto simp: unit_of_work Let_def split: prod.splits sum.splits if_splits)

text \<open>An invariant of the tables that a successful body restores is an invariant of the database.\<close>

lemma preserves:
  assumes "session_scope P body w = (r, v)" and "I (committed w)"
    and "\<And>a u. body (w\<lparr>objs := committed w, pending := []\<rparr>) = (Inr a, u) \<Longrightarrow>
           db_accepts P (fold insert_row (pending u) (objs u)) \<Longrightarrow> I (fold insert_row (pending u) (objs u))"
  shows "I (committed v)"
proof (cases r)
  case (Inl e)
  then show ?thesis using failure_leaves_no_trace [of P w e v] assms(1,2) by simp
next
  case (Inr a)
  with assms(1) have "session_scope P body w = (Inr a, v)" by simp
  then obtain u where "body (w\<lparr>objs := committed w, pending := []\<rparr>) = (Inr a, u)"
    and "committed v = fold insert_row (pending u) (objs u)" and "db_accepts P (committed v)"
    by (rule success_commits_session)
  then show ?thesis using assms(3) by metis
qed

end

lemma keeps_committed_steps [keeps_intros]:
  "keeps (\<lambda>v. committed v = c) (add_row P row_of mk)" "keeps (\<lambda>v. committed v = c) (flush P)"
  "keeps (\<lambda>v. committed v = c) (put_payment p)" "keeps (\<lambda>v. committed v = c) (put_user u)"
  "keeps (\<lambda>v. committed v = c) (put_api_key k)" "keeps (\<lambda>v. committed v = c) (inc name labels)"
  "keeps (\<lambda>v. committed v = c) (observe name labels x)" "keeps (\<lambda>v. committed v = c) (select_one table cond)"
  by (auto simp: keeps_def add_row_def flush_def put_payment_def put_user_def put_api_key_def inc_def observe_def
      select_one_eq op_simps Let_def split: prod.splits)

lemma replace_by_id [simp]: "map key (replace_by key r rs) = map key rs"
  by (induction rs) (auto simp: replace_by_def)

lemma replace_by_mem:
  "q \<in> set (replace_by key r rs) \<longleftrightarrow> (q \<in> set rs \<and> key q \<noteq> key r) \<or> (q = r \<and> key r \<in> key ` set rs)"
  by (auto simp: replace_by_def image_iff; metis)

section \<open>A platform to run examples on\<close>

text \<open>
  A deterministic platform: the environment is a counter that serves as clock and source of
  identifiers, the network is down, the database enforces exactly the declared constraints and
  the cipher is the identity.  It shows that the assumptions made on platforms can be met.
\<close>

definition sandbox :: "nat platform" where
  "sandbox =
     \<lparr> monotonic = of_nat, time_time = (\<lambda>n. 1700000000 + of_nat n), db_now = (\<lambda>n. 1700000000 + of_nat n),
       uuid4 = (\<lambda>n. (of_nat n, Suc n)), uniform = (\<lambda>lo hi n. (hi, n)), async_sleep = (\<lambda>d n. Suc n),
       http_post = (\<lambda>r n. (Inl TransportError, n)), json_loads = (\<lambda>s. Inl JSONDecodeError),
       int_of_float = (\<lambda>r. Inl ValueError), isoformat = (\<lambda>t. show_int \<lfloor>t\<rfloor>),
       db_accepts = unique_ok, urandom = (\<lambda>k n. (replicate k (CHR 0x00), Suc n)),
       aesgcm_encrypt = (\<lambda>key nonce pt ad. pt), aesgcm_decrypt = (\<lambda>key nonce ct ad. Inr ct),
       argon2_hash = (\<lambda>plain n. (plain, n)),
       argon2_verify = (\<lambda>hashed plain. if hashed = plain then Inr True else Inl VerifyMismatchError),
       argon2_needs_rehash = (\<lambda>hashed. Inr False), jwt_encode = (\<lambda>payload key alg. []),
       jwt_decode = (\<lambda>token key alg issuer audience required n. Inl InvalidTokenError) \<rparr>"

definition empty_tables :: tables where
  "empty_tables =
     \<lparr> users = [], api_keys = [], provider_configs = [], payments = [], refunds = [],
       idempotency_keys = [], webhook_events = [], audit_logs = [] \<rparr>"

definition sandbox_world :: "(ProviderName \<rightharpoonup> CircuitBreaker) \<Rightarrow> nat world" where
  "sandbox_world bs =
     \<lparr> env = 0, committed = empty_tables, objs = empty_tables, pending = [], breakers = bs,
       metrics = [], correlation_id = [] \<rparr>"

end
