(* ===== verification/Decimal.thy ===== *)
theory Decimal
  imports Errors
begin

text \<open>
  The part of Python's \<open>decimal\<close> module that the money object of
  \<^verbatim>\<open>app/core/money.py\<close> uses: finite decimals as sign, coefficient and exponent, arithmetic
  in the default context (28 significant digits, round half even, traps on), \<open>quantize\<close>,
  conversion to and from strings.  Exponents beyond the context's range of a million are not
  distinguished (the module raises \<open>Overflow\<close> where this model's later \<open>quantize\<close> raises
  \<open>InvalidOperation\<close>; both are \<open>ArithmeticError\<close>s).

  The lemmas show that printing and parsing are inverse, that operations on at most 28 digits
  are exact, and that rounding is to the nearest integer with ties to even.
\<close>

section \<open>Operations\<close>

datatype decimal = Finite bool nat int | Infinity bool | QNaN | SNaN

definition prec :: nat where
  "prec = 28"

abbreviation ndigits :: "nat \<Rightarrow> nat" where
  "ndigits c \<equiv> length (show_nat c)"

definition round_half_even :: "nat \<Rightarrow> nat \<Rightarrow> nat" where
  "round_half_even c d =
     (let q = c div d; r = c mod d
      in if 2 * r > d \<or> (2 * r = d \<and> odd q) then q + 1 else q)"

text \<open>\<open>Decimal._fix\<close>: round the coefficient to the precision of the context.\<close>

definition dec_fix :: "bool \<Rightarrow> nat \<Rightarrow> int \<Rightarrow> decimal" where
  "dec_fix s c e =
     (let n = ndigits c
      in if n \<le> prec then Finite s c e
         else let c' = round_half_even c (10 ^ (n - prec)); e' = e + int (n - prec)
              in if ndigits c' > prec then Finite s (c' div 10) (e' + 1) else Finite s c' e')"

text \<open>Coefficient of the value \<open>c * 10 ^ e\<close> at exponent \<open>qe\<close>, rounding half even.\<close>

definition rescale :: "nat \<Rightarrow> int \<Rightarrow> int \<Rightarrow> nat" where
  "rescale c e qe =
     (if qe \<le> e then c * 10 ^ nat (e - qe) else round_half_even c (10 ^ nat (qe - e)))"

fun quantize :: "decimal \<Rightarrow> int \<Rightarrow> decimal result" where
  "quantize (Finite s c e) qe =
     (if c = 0 then Inr (Finite s 0 qe)
      else if e + int (ndigits c) - qe > int prec then Inl (Py InvalidOperation)
      else let c' = rescale c e qe
           in if ndigits c' > prec then Inl (Py InvalidOperation) else Inr (Finite s c' qe))"
| "quantize (Infinity s) qe = Inl (Py InvalidOperation)"
| "quantize QNaN qe = Inr QNaN"
| "quantize SNaN qe = Inl (Py InvalidOperation)"

text \<open>\<open>d / Decimal(1).scaleb(-k)\<close> and \<open>Decimal(i) * Decimal(1).scaleb(-k)\<close>.\<close>

fun div_quantum :: "decimal \<Rightarrow> int \<Rightarrow> decimal result" where
  "div_quantum (Finite s c e) k = Inr (dec_fix s c (e + k))"
| "div_quantum (Infinity s) k = Inr (Infinity s)"
| "div_quantum QNaN k = Inr QNaN"
| "div_quantum SNaN k = Inl (Py InvalidOperation)"

definition mult_quantum :: "int \<Rightarrow> int \<Rightarrow> decimal" where
  "mult_quantum i k = dec_fix (i < 0) (nat \<bar>i\<bar>) (- k)"

fun dec_int :: "decimal \<Rightarrow> int result" where
  \<comment> \<open>\<open>int(d)\<close> for a decimal with exponent 0, as \<open>quantize(Decimal(1))\<close> returns\<close>
  "dec_int (Finite s c e) =
     (let v = (if 0 \<le> e then int (c * 10 ^ nat e) else int (c div 10 ^ nat (- e)))
      in Inr (if s then - v else v))"
| "dec_int (Infinity s) = Inl (Py ValueError)"
| "dec_int QNaN = Inl (Py ValueError)"
| "dec_int SNaN = Inl (Py ValueError)"

text \<open>\<open>Decimal.__str__\<close>.\<close>

definition exp_suffix :: "int \<Rightarrow> string" where
  "exp_suffix x = ''E'' @ (if x < 0 then show_int x else CHR ''+'' # show_int x)"

fun dec_str :: "decimal \<Rightarrow> string" where
  "dec_str (Finite s c e) =
     (let ds = show_nat c;
          leftdigits = e + int (length ds);
          dotplace = (if e \<le> 0 \<and> leftdigits > -6 then leftdigits else 1);
          body = (if dotplace \<le> 0
                  then ''0.'' @ replicate (nat (- dotplace)) (CHR ''0'') @ ds
                  else if int (length ds) \<le> dotplace
                  then ds @ replicate (nat (dotplace - int (length ds))) (CHR ''0'')
                  else take (nat dotplace) ds @ ''.'' @ drop (nat dotplace) ds);
          suffix = (if leftdigits = dotplace then [] else exp_suffix (leftdigits - dotplace))
      in (if s then ''-'' else []) @ body @ suffix)"
| "dec_str (Infinity s) = (if s then ''-Infinity'' else ''Infinity'')"
| "dec_str QNaN = ''NaN''"
| "dec_str SNaN = ''sNaN''"

text \<open>\<open>Decimal(s)\<close> for a string; \<open>None\<close> is \<open>InvalidOperation\<close> (conversion syntax).\<close>

definition parse_exponent :: "string \<Rightarrow> int option" where
  "parse_exponent r =
     (if r = [] then Some 0
      else if lower_char (hd r) \<noteq> CHR ''e'' then None
      else let x = tl r;
               neg = (take 1 x = ''-'');
               ds = (if take 1 x = ''-'' \<or> take 1 x = ''+'' then drop 1 x else x)
           in if ds \<noteq> [] \<and> list_all is_digit ds
              then Some (if neg then - int (digits_val ds) else int (digits_val ds))
              else None)"

definition parse_finite :: "bool \<Rightarrow> string \<Rightarrow> decimal option" where
  "parse_finite s body =
     (let ip = takeWhile is_digit body;
          r1 = dropWhile is_digit body;
          dotted = (take 1 r1 = ''.'');
          fp = (if dotted then takeWhile is_digit (drop 1 r1) else []);
          r2 = (if dotted then dropWhile is_digit (drop 1 r1) else r1)
      in if ip = [] \<and> fp = [] then None
         else map_option (\<lambda>x. Finite s (digits_val (ip @ fp)) (x - int (length fp)))
                (parse_exponent r2))"

definition parse_decimal :: "string \<Rightarrow> decimal option" where
  "parse_decimal str =
     (let t = filter (\<lambda>c. c \<noteq> CHR ''_'') (strip str);
          s = (take 1 t = ''-'');
          body = (if take 1 t = ''-'' \<or> take 1 t = ''+'' then drop 1 t else t);
          low = lower body
      in if low = ''inf'' \<or> low = ''infinity'' then Some (Infinity s)
         else if take 3 low = ''nan'' \<and> list_all is_digit (drop 3 low) then Some QNaN
         else if take 4 low = ''snan'' \<and> list_all is_digit (drop 4 low) then Some SNaN
         else parse_finite s body)"

text \<open>The exponent suffix a printed decimal may carry.\<close>

definition suffix_for :: "int \<Rightarrow> string \<Rightarrow> bool" where
  "suffix_for x suf \<longleftrightarrow> (suf = [] \<and> x = 0) \<or> suf = exp_suffix x"

text \<open>The rational number a finite decimal denotes.\<close>

definition dec_value :: "bool \<Rightarrow> nat \<Rightarrow> int \<Rightarrow> rat" where
  "dec_value s c e = (if s then -1 else 1) * of_nat c * 10 powi e"

section \<open>Precision\<close>

lemma ndigits_pos [simp]: "0 < ndigits c"
  by simp

lemma ndigits_le_iff: "0 < n \<Longrightarrow> ndigits c \<le> n \<longleftrightarrow> c < 10 ^ n"
proof (induction c arbitrary: n rule: show_nat_induct)
  case (small c)
  then have "(10::nat) ^ 1 \<le> 10 ^ n" by (intro power_increasing) auto
  with small show ?case by simp
next
  case (step c)
  show ?case
  proof (cases "n = 1")
    case True
    with step show ?thesis by (auto simp: show_nat_step)
  next
    case False
    with step.prems obtain k where k: "n = Suc k" "0 < k" by (cases n) auto
    with step.hyps step.IH [of k] show ?thesis
      by (auto simp: show_nat_step div_less_iff_less_mult mult.commute)
  qed
qed

lemma ndigits_le_prec: "ndigits c \<le> prec \<longleftrightarrow> c < 10 ^ prec"
  by (rule ndigits_le_iff) (simp add: prec_def)

lemma dec_fix_exact: "ndigits c \<le> prec \<Longrightarrow> dec_fix s c e = Finite s c e"
  by (simp add: dec_fix_def)

lemma quantize_same:
  "ndigits c \<le> prec \<Longrightarrow> quantize (Finite s c e) e = Inr (Finite s c e)"
  by (auto simp: rescale_def Let_def)

section \<open>Printing and parsing\<close>

lemma digits_val_append: "digits_val (s @ t) = digits_val s * 10 ^ length t + digits_val t"
  by (induction t rule: rev_induct) (simp_all add: digits_val_snoc flip: append_assoc, simp add: digits_val_def)

lemma digits_val_zeros [simp]: "digits_val (replicate n (CHR ''0'')) = 0"
  by (induction n) (simp_all add: digits_val_def digit_val_def)

lemma digits_val_0 [simp]: "digits_val (CHR ''0'' # s) = digits_val s"
  by (simp add: digits_val_def digit_val_def)

lemma digits_val_zero_pad [simp]: "digits_val (replicate n (CHR ''0'') @ s) = digits_val s"
  by (simp add: digits_val_append)

lemma span_append_stop:
  assumes "list_all P xs" and "ys = [] \<or> \<not> P (hd ys)"
  shows "takeWhile P (xs @ ys) = xs" and "dropWhile P (xs @ ys) = ys"
  using assms by (induction xs) (cases ys; auto)+

lemma show_nat_all_digits [simp]: "list_all is_digit (show_nat n)"
  by (auto simp: list_all_iff dest: show_nat_digits)

lemma lower_char_E [simp]: "lower_char (CHR ''E'') = CHR ''e''"
  by code_simp

lemma parse_exponent_suffix [simp]: "parse_exponent (exp_suffix x) = Some x"
  using take1_show_nat [of "nat x"] show_nat_all_digits
  by (auto simp: parse_exponent_def exp_suffix_def show_int_def Let_def)

lemma suffix_for_stop: "suffix_for x suf \<Longrightarrow> suf = [] \<or> \<not> is_digit (hd suf)"
  "suffix_for x suf \<Longrightarrow> take 1 suf \<noteq> ''.''"
  by (auto simp: suffix_for_def exp_suffix_def is_digit_def)

lemma parse_exponent_for: "suffix_for x suf \<Longrightarrow> parse_exponent suf = Some x"
  by (auto simp: suffix_for_def) (simp add: parse_exponent_def)

lemma parse_finite_dot:
  assumes "list_all is_digit ip" and "list_all is_digit fp" and "ip \<noteq> []" and "suffix_for x suf"
  shows "parse_finite s (ip @ ''.'' @ fp @ suf) =
           Some (Finite s (digits_val (ip @ fp)) (x - int (length fp)))"
proof -
  have 1: "takeWhile is_digit (ip @ ''.'' @ fp @ suf) = ip"
          "dropWhile is_digit (ip @ ''.'' @ fp @ suf) = ''.'' @ fp @ suf"
    using span_append_stop [OF assms(1), of "''.'' @ fp @ suf"] by (auto simp: is_digit_def)
  have 2: "takeWhile is_digit (fp @ suf) = fp" "dropWhile is_digit (fp @ suf) = suf"
    using span_append_stop [OF assms(2) suffix_for_stop(1) [OF assms(4)]] by auto
  show ?thesis
    unfolding parse_finite_def Let_def 1 using 2 assms(3)
    by (simp add: parse_exponent_for [OF assms(4)])
qed

lemma parse_finite_int:
  assumes "list_all is_digit ip" and "ip \<noteq> []" and "suffix_for x suf"
  shows "parse_finite s (ip @ suf) = Some (Finite s (digits_val ip) x)"
proof -
  have 1: "takeWhile is_digit (ip @ suf) = ip" "dropWhile is_digit (ip @ suf) = suf"
    using span_append_stop [OF assms(1) suffix_for_stop(1) [OF assms(3)]] by auto
  show ?thesis
    unfolding parse_finite_def Let_def 1 using assms(2) suffix_for_stop(2) [OF assms(3)]
    by (simp add: parse_exponent_for [OF assms(3)])
qed

lemma dec_str_body:
  obtains ip fp x suf where
    "dec_str (Finite s c e) = (if s then ''-'' else []) @ ip @ ''.'' @ fp @ suf"
    "list_all is_digit ip" "list_all is_digit fp" "ip \<noteq> []" "suffix_for x suf"
    "digits_val (ip @ fp) = c" "e = x - int (length fp)"
  | ip suf where
    "dec_str (Finite s c e) = (if s then ''-'' else []) @ ip @ suf"
    "list_all is_digit ip" "ip \<noteq> []" "suffix_for e suf" "digits_val ip = c"
proof -
  let ?ds = "show_nat c"
  define left where "left = e + int (length ?ds)"
  define dot where "dot = (if e \<le> 0 \<and> left > -6 then left else 1)"
  define suf where "suf = (if left = dot then [] else exp_suffix (left - dot))"
  have suf: "suffix_for (left - dot) suf"
    by (simp add: suffix_for_def suf_def)
  have str: "dec_str (Finite s c e) = (if s then ''-'' else []) @
      (if dot \<le> 0 then ''0.'' @ replicate (nat (- dot)) (CHR ''0'') @ ?ds
       else if int (length ?ds) \<le> dot
       then ?ds @ replicate (nat (dot - int (length ?ds))) (CHR ''0'')
       else take (nat dot) ?ds @ ''.'' @ drop (nat dot) ?ds) @ suf"
    by (simp only: dec_str.simps Let_def left_def dot_def suf_def append_assoc)
  consider "dot \<le> 0" | "0 < dot" "int (length ?ds) \<le> dot" | "0 < dot" "dot < int (length ?ds)"
    by linarith
  then show thesis
  proof cases
    case 1
    then have "left = dot" by (simp add: dot_def split: if_splits)
    with 1 suf show thesis
      by (intro that(1) [of "''0''" "replicate (nat (- dot)) (CHR ''0'') @ ?ds" suf "left - dot"])
         (auto simp: str suf_def left_def list_all_iff is_digit_def simp del: dec_str.simps
            dest: show_nat_digits)
  next
    case 2
    obtain n where "length ?ds = Suc n"
      using show_nat_nonempty [of c] by (cases ?ds) auto
    with 2 have len: "int (length ?ds) = dot" and e: "e = left - dot"
      by (auto simp: dot_def left_def split: if_splits)
    have "dec_str (Finite s c e) = (if s then ''-'' else []) @ ?ds @ suf"
      unfolding str using 2 len by simp
    then show thesis
      using suf e by (intro that(2) [of ?ds suf]) (simp_all del: dec_str.simps)
  next
    case 3
    with suf show thesis
      by (intro that(1) [of "take (nat dot) ?ds" "drop (nat dot) ?ds" suf "left - dot"])
         (auto simp: str left_def list_all_iff simp del: dec_str.simps dest: show_nat_digits in_set_takeD in_set_dropD)
  qed
qed

lemma suffix_chars:
  "suffix_for x suf \<Longrightarrow> c \<in> set suf \<Longrightarrow> is_digit c \<or> c \<in> {CHR ''E'', CHR ''+'', CHR ''-''}"
  by (auto simp: suffix_for_def exp_suffix_def split: if_splits dest: show_int_chars)

lemma dec_str_chars:
  "ch \<in> set (dec_str (Finite s c e)) \<Longrightarrow>
     is_digit ch \<or> ch \<in> {CHR ''.'', CHR ''E'', CHR ''+'', CHR ''-''}"
  by (rule dec_str_body [of s c e]) (auto simp: list_all_iff dest: suffix_chars split: if_splits)

lemma dec_str_clean:
  "strip (dec_str (Finite s c e)) = dec_str (Finite s c e)"
  "filter (\<lambda>ch. ch \<noteq> CHR ''_'') (dec_str (Finite s c e)) = dec_str (Finite s c e)"
proof -
  show "strip (dec_str (Finite s c e)) = dec_str (Finite s c e)"
  proof (rule strip_none)
    fix ch assume "ch \<in> set (dec_str (Finite s c e))"
    from dec_str_chars [OF this] show "\<not> is_space ch"
      by (auto simp: is_space_def is_digit_def Let_def)
  qed
  show "filter (\<lambda>ch. ch \<noteq> CHR ''_'') (dec_str (Finite s c e)) = dec_str (Finite s c e)"
    unfolding filter_id_conv using dec_str_chars by (fastforce simp: is_digit_def)
qed

lemma lower_hd_digit: "is_digit d \<Longrightarrow> lower_char d = d"
  by (auto simp: lower_char_def is_digit_def Let_def)

lemma parse_decimal_finite:
  assumes "t = (if s then ''-'' else []) @ body" and "strip t = t"
    and "filter (\<lambda>ch. ch \<noteq> CHR ''_'') t = t" and "body = d # r" and "is_digit d"
  shows "parse_decimal t = parse_finite s body"
proof -
  have sign: "(take 1 t = ''-'') = s" "take 1 t = ''+'' \<longleftrightarrow> False"
    using assms by (auto simp: is_digit_def)
  have b: "(if take 1 t = ''-'' \<or> take 1 t = ''+'' then drop 1 t else t) = body"
    using assms sign by (cases s) auto
  have "lower body = d # lower r"
    using assms(4,5) by (simp add: lower_def lower_hd_digit)
  moreover have "d \<noteq> CHR ''i''" "d \<noteq> CHR ''n''" "d \<noteq> CHR ''s''"
    using assms(5) by (auto simp: is_digit_def)
  ultimately show ?thesis
    unfolding parse_decimal_def assms(2,3) Let_def b unfolding sign by simp
qed

theorem parse_dec_str: "parse_decimal (dec_str (Finite s c e)) = Some (Finite s c e)"
proof (rule dec_str_body [of s c e], goal_cases)
  case (1 ip fp x suf)
  then obtain d r where d: "ip = d # r" "is_digit d" by (cases ip) auto
  with parse_decimal_finite [OF 1(1) dec_str_clean, of d] have
    "parse_decimal (dec_str (Finite s c e)) = parse_finite s (ip @ ''.'' @ fp @ suf)" by simp
  with parse_finite_dot [OF 1(2,3,4,5)] 1(6,7) show ?thesis by simp
next
  case (2 ip suf)
  then obtain d r where d: "ip = d # r" "is_digit d" by (cases ip) auto
  with parse_decimal_finite [OF 2(1) dec_str_clean, of d] have
    "parse_decimal (dec_str (Finite s c e)) = parse_finite s (ip @ suf)" by simp
  with parse_finite_int [OF 2(2,3,4)] 2(5) show ?thesis by simp
qed

section \<open>Rounding\<close>

lemma round_half_even_error:
  fixes c d :: nat
  assumes "0 < d"
  shows "\<bar>rat_of_nat (round_half_even c d) - of_nat c / of_nat d\<bar> \<le> 1 / 2"
    and "\<bar>rat_of_nat (round_half_even c d) - of_nat c / of_nat d\<bar> = 1 / 2 \<Longrightarrow> even (round_half_even c d)"
proof -
  define q r where "q = c div d" and "r = c mod d"
  have c: "c = q * d + r" and r: "r < d"
    using assms by (auto simp: q_def r_def)
  have frac: "rat_of_nat c / of_nat d = of_nat q + of_nat r / of_nat d"
    using assms by (simp add: c field_simps)
  have rnd: "round_half_even c d = (if 2 * r > d \<or> (2 * r = d \<and> odd q) then q + 1 else q)"
    by (simp add: round_half_even_def q_def r_def Let_def)
  have "rat_of_nat r / of_nat d > 1 / 2 \<longleftrightarrow> rat_of_nat d < rat_of_nat (2 * r)"
       "rat_of_nat r / of_nat d = 1 / 2 \<longleftrightarrow> rat_of_nat (2 * r) = rat_of_nat d"
    using assms by (auto simp: field_simps)
  then have up: "2 * r > d \<longleftrightarrow> rat_of_nat r / of_nat d > 1 / 2"
           "2 * r = d \<longleftrightarrow> rat_of_nat r / of_nat d = 1 / 2"
    by (simp_all only: of_nat_less_iff of_nat_eq_iff)
  define f where "f = rat_of_nat r / of_nat d"
  have f: "0 \<le> f" "f < 1" using r assms by (simp_all add: f_def)
  note nf = rnd frac [folded f_def] up [folded f_def]
  show "\<bar>rat_of_nat (round_half_even c d) - of_nat c / of_nat d\<bar> \<le> 1 / 2"
    unfolding nf using f by (auto simp: abs_if)
  show "\<bar>rat_of_nat (round_half_even c d) - of_nat c / of_nat d\<bar> = 1 / 2
        \<Longrightarrow> even (round_half_even c d)"
    unfolding nf using f by (auto simp: abs_if split: if_splits)
qed

lemma power_int_minus_nat: "(10::rat) powi (- int n) = 1 / 10 ^ n"
  by (simp add: power_int_minus field_simps)

lemma rescale_error:
  "\<bar>rat_of_nat (rescale c e 0) - of_nat c * 10 powi e\<bar> \<le> 1 / 2 \<and>
   (\<bar>rat_of_nat (rescale c e 0) - of_nat c * 10 powi e\<bar> = 1 / 2 \<longrightarrow> even (rescale c e 0))"
proof (cases "0 \<le> e")
  case True
  then show ?thesis by (simp add: rescale_def power_int_def)
next
  case False
  then have "rescale c e 0 = round_half_even c (10 ^ nat (- e))" by (simp add: rescale_def)
  moreover have "(10::rat) powi e = 1 / of_nat (10 ^ nat (- e))"
    using False power_int_minus_nat [of "nat (- e)"] by simp
  ultimately show ?thesis
    using round_half_even_error [of "10 ^ nat (- e)" c] by simp
qed

section \<open>Two decimal places\<close>

lemma show_nat_two:
  assumes "100 \<le> c"
  shows "show_nat c = show_nat (c div 100) @ [digit_char (c div 10 mod 10), digit_char (c mod 10)]"
proof -
  have "c div 10 div 10 = c div 100" by (simp flip: div_mult2_eq)
  with assms show ?thesis
    by (simp add: show_nat_step [of c] show_nat_step [of "c div 10"])
qed

lemma dec_str_cents:
  "dec_str (Finite s c (- 2)) = (if s then ''-'' else []) @ show_nat (c div 100) @ ''.'' @
     [digit_char (c div 10 mod 10), digit_char (c mod 10)]"
proof -
  consider "c < 10" | "10 \<le> c" "c < 100" | "100 \<le> c" by linarith
  then show ?thesis
  proof cases
    case 1
    then show ?thesis by (simp add: Let_def)
  next
    case 2
    then have "show_nat c = [digit_char (c div 10), digit_char (c mod 10)]" "c div 10 mod 10 = c div 10"
      by (simp_all add: show_nat_step div_less_iff_less_mult)
    with 2 show ?thesis by (simp add: Let_def)
  next
    case 3
    obtain x xs where "show_nat (c div 100) = x # xs"
      using show_nat_nonempty [of "c div 100"] by (cases "show_nat (c div 100)") auto
    with show_nat_two [OF 3] show ?thesis by (simp add: Let_def nat_add_distrib)
  qed
qed


end
