(* ===== verification/Money.thy ===== *)
theory Money
  imports Decimal
begin

text \<open>
  The money value object of \<^verbatim>\<open>app/core/money.py\<close>: an integer number of minor units and a
  currency code.  The properties are the class invariant, exact and currency-checked
  arithmetic, correct rounding of human-readable amounts and the round trip through them.
\<close>

section \<open>Currencies\<close>

definition CURRENCY_EXPONENTS :: "(string \<times> int) list" where
  "CURRENCY_EXPONENTS =
     [(''USD'', 2), (''EUR'', 2), (''GBP'', 2), (''CAD'', 2), (''AUD'', 2), (''TRY'', 2),
      (''AED'', 2), (''SAR'', 2), (''INR'', 2), (''JPY'', 0), (''BTC'', 8), (''ETH'', 8),
      (''USDT'', 6)]"

definition is_supported_currency :: "string \<Rightarrow> bool" where
  "is_supported_currency code = (map_of CURRENCY_EXPONENTS (upper code) \<noteq> None)"

definition exponent_for :: "string \<Rightarrow> int result" where
  "exponent_for currency =
     (case map_of CURRENCY_EXPONENTS (upper currency) of
        Some e \<Rightarrow> Inr e
      | None \<Rightarrow> Inl (Py (CurrencyError currency)))"

section \<open>The value object\<close>

record money =
  minor_units :: int
  currency :: string

text \<open>
  \<open>__post_init__\<close> on a dynamically typed argument: the currency is checked first, then that
  \<open>minor_units\<close> is an \<open>int\<close> and not a \<open>bool\<close>.  \<open>Money\<close> is the constructor at an integer.
\<close>

definition Money_init :: "json \<Rightarrow> string \<Rightarrow> money result" where
  "Money_init units cur =
     (let code = upper cur
      in if \<not> is_supported_currency code then Inl (Py (CurrencyError cur))
         else (case units of
                 JInt i \<Rightarrow> Inr \<lparr> minor_units = i, currency = code \<rparr>
               | _ \<Rightarrow> Inl (Py TypeError)))"

definition Money :: "int \<Rightarrow> string \<Rightarrow> money result" where
  "Money i cur = Money_init (JInt i) cur"

definition from_decimal :: "string \<Rightarrow> string \<Rightarrow> money result" where
  \<comment> \<open>the first argument is \<open>str(amount)\<close>\<close>
  "from_decimal amount cur =
     (case exponent_for cur of
        Inl e \<Rightarrow> Inl e
      | Inr k \<Rightarrow>
          (case parse_decimal amount of
             None \<Rightarrow> Inl (Py InvalidOperation)
           | Some d \<Rightarrow>
               (case div_quantum d k of
                  Inl e \<Rightarrow> Inl e
                | Inr q \<Rightarrow>
                    (case quantize q 0 of
                       Inl e \<Rightarrow> Inl e
                     | Inr scaled \<Rightarrow>
                         (case dec_int scaled of Inl e \<Rightarrow> Inl e | Inr i \<Rightarrow> Money i cur)))))"

definition to_decimal :: "money \<Rightarrow> decimal result" where
  "to_decimal m =
     (case exponent_for (currency m) of
        Inl e \<Rightarrow> Inl e
      | Inr k \<Rightarrow> quantize (mult_quantum (minor_units m) k) (- k))"

definition format :: "money \<Rightarrow> string result" where
  "format m =
     (case to_decimal m of Inl e \<Rightarrow> Inl e | Inr d \<Rightarrow> Inr (dec_str d @ '' '' @ currency m))"

definition is_positive :: "money \<Rightarrow> bool" where
  "is_positive m \<longleftrightarrow> minor_units m > 0"

definition is_zero :: "money \<Rightarrow> bool" where
  "is_zero m \<longleftrightarrow> minor_units m = 0"

definition check_same_currency :: "money \<Rightarrow> money \<Rightarrow> unit result" where
  "check_same_currency a b =
     (if currency a \<noteq> currency b then Inl (Py (CurrencyError (currency b))) else Inr ())"

definition money_add :: "money \<Rightarrow> money \<Rightarrow> money result" where
  "money_add a b =
     (case check_same_currency a b of
        Inl e \<Rightarrow> Inl e
      | Inr _ \<Rightarrow> Money (minor_units a + minor_units b) (currency a))"

definition money_sub :: "money \<Rightarrow> money \<Rightarrow> money result" where
  "money_sub a b =
     (case check_same_currency a b of
        Inl e \<Rightarrow> Inl e
      | Inr _ \<Rightarrow> Money (minor_units a - minor_units b) (currency a))"

definition money_lt :: "money \<Rightarrow> money \<Rightarrow> bool result" where
  "money_lt a b =
     (case check_same_currency a b of Inl e \<Rightarrow> Inl e | Inr _ \<Rightarrow> Inr (minor_units a < minor_units b))"

definition money_le :: "money \<Rightarrow> money \<Rightarrow> bool result" where
  "money_le a b =
     (case check_same_currency a b of Inl e \<Rightarrow> Inl e | Inr _ \<Rightarrow> Inr (minor_units a \<le> minor_units b))"

definition money_gt :: "money \<Rightarrow> money \<Rightarrow> bool result" where
  "money_gt a b =
     (case check_same_currency a b of Inl e \<Rightarrow> Inl e | Inr _ \<Rightarrow> Inr (minor_units a > minor_units b))"

definition money_ge :: "money \<Rightarrow> money \<Rightarrow> bool result" where
  "money_ge a b =
     (case check_same_currency a b of Inl e \<Rightarrow> Inl e | Inr _ \<Rightarrow> Inr (minor_units a \<ge> minor_units b))"

text \<open>The class invariant \<open>__post_init__\<close> establishes.\<close>

definition wf_money :: "money \<Rightarrow> bool" where
  "wf_money m \<longleftrightarrow> is_supported_currency (currency m) \<and> upper (currency m) = currency m"

section \<open>Lemmas\<close>

lemma Money_wf_currency [simp]: "wf_money m \<Longrightarrow> Money i (currency m) = Inr \<lparr> minor_units = i, currency = currency m \<rparr>"
  by (simp add: Money_def Money_init_def wf_money_def)

lemma Money_wf: "Money i c = Inr m \<Longrightarrow> wf_money m \<and> minor_units m = i \<and> currency m = upper c"
  by (auto simp: Money_def Money_init_def wf_money_def Let_def split: if_splits)

lemma wf_exponent: "wf_money m \<Longrightarrow> \<exists>k. exponent_for (currency m) = Inr k \<and> 0 \<le> k"
  by (auto simp: wf_money_def is_supported_currency_def exponent_for_def CURRENCY_EXPONENTS_def
      split: option.splits if_splits)

lemma to_decimal_exact:
  assumes "exponent_for (currency m) = Inr k" and "\<bar>minor_units m\<bar> < 10 ^ 28"
  shows "to_decimal m = Inr (Finite (minor_units m < 0) (nat \<bar>minor_units m\<bar>) (- k))"
proof -
  have "nat \<bar>minor_units m\<bar> < 10 ^ prec"
    using assms(2) by (simp add: prec_def)
  then have "ndigits (nat \<bar>minor_units m\<bar>) \<le> prec"
    by (simp only: ndigits_le_prec)
  then show ?thesis
    using assms(1) by (simp add: to_decimal_def mult_quantum_def dec_fix_exact quantize_same
      del: quantize.simps)
qed

lemma from_decimal_exact:
  assumes "parse_decimal a = Some (Finite s c (- k))" and "exponent_for cur = Inr k"
    and "ndigits c \<le> prec"
  shows "from_decimal a cur = Money (if s then - int c else int c) cur"
  using assms by (simp add: from_decimal_def dec_fix_exact quantize_same del: quantize.simps)


lemma check_same_currency_eq:
  "check_same_currency a b = Inr u \<longleftrightarrow> currency a = currency b"
  by (auto simp: check_same_currency_def)

lemma money_add_wf: "wf_money a \<Longrightarrow> money_add a b = Inr s \<Longrightarrow> wf_money s"
  by (auto simp: money_add_def wf_money_def split: sum.splits)

lemma money_sub_wf: "wf_money a \<Longrightarrow> money_sub a b = Inr s \<Longrightarrow> wf_money s"
  by (auto simp: money_sub_def wf_money_def split: sum.splits)

lemma cross_currency_raises:
  assumes "currency a \<noteq> currency b"
  shows "money_add a b = Inl (Py (CurrencyError (currency b)))"
    and "money_sub a b = Inl (Py (CurrencyError (currency b)))"
    and "money_lt a b = Inl (Py (CurrencyError (currency b)))"
    and "money_ge a b = Inl (Py (CurrencyError (currency b)))"
  using assms
  by (simp_all add: money_add_def money_sub_def money_lt_def money_ge_def check_same_currency_def)

lemmas money_eval = wf_money_def is_supported_currency_def exponent_for_def
  CURRENCY_EXPONENTS_def upper_def upper_char_def

section \<open>Properties\<close>

text \<open>C38. The human-readable amount of a money object reads back as the same object: printing
  \<open>to_decimal\<close> and passing the string to \<open>from_decimal\<close> with the object's currency returns it
  unchanged, for every supported currency and every amount of at most 28 digits.\<close>

theorem money_decimal_roundtrip:
  assumes "wf_money m" and "\<bar>minor_units m\<bar> < 10 ^ 28"
  shows "\<exists>d. to_decimal m = Inr d \<and> from_decimal (dec_str d) (currency m) = Inr m"
proof -
  from assms(1) obtain k where k: "exponent_for (currency m) = Inr k" using wf_exponent by blast
  have "nat \<bar>minor_units m\<bar> < 10 ^ prec" using assms(2) by (simp add: prec_def)
  then have "ndigits (nat \<bar>minor_units m\<bar>) \<le> prec" by (simp only: ndigits_le_prec)
  from from_decimal_exact [OF parse_dec_str k this] to_decimal_exact [OF k assms(2)] assms(1)
  show ?thesis by auto
qed

theorem money_decimal_roundtrip_witness:
  "wf_money \<lparr> minor_units = -1234, currency = ''BTC'' \<rparr> \<and>
   (\<exists>d. to_decimal \<lparr> minor_units = -1234, currency = ''BTC'' \<rparr> = Inr d \<and>
        from_decimal (dec_str d) ''BTC'' = Inr \<lparr> minor_units = -1234, currency = ''BTC'' \<rparr>)"
proof -
  have wf: "wf_money \<lparr> minor_units = -1234, currency = ''BTC'' \<rparr>"
    by (simp add: money_eval)
  show ?thesis using wf money_decimal_roundtrip [OF wf] by simp
qed

text \<open>\<open>from_decimal\<close> rounds half to even: for an amount written with at most 28 significant
  digits, the minor units of the result differ from the exact scaled amount by at most one
  half, and when they differ by exactly one half they are even.\<close>

theorem from_decimal_rounds_half_even:
  assumes "parse_decimal a = Some (Finite s c e)" and "ndigits c \<le> 28"
    and "exponent_for cur = Inr k" and "from_decimal a cur = Inr m"
  shows "\<bar>of_int (minor_units m) - dec_value s c (e + k)\<bar> \<le> 1 / 2 \<and>
    (\<bar>of_int (minor_units m) - dec_value s c (e + k)\<bar> = 1 / 2 \<longrightarrow> even (minor_units m))"
proof -
  let ?u = "if c = 0 then 0 else rescale c (e + k) 0"
  have "minor_units m = (if s then - int ?u else int ?u)"
    using assms by (auto simp: from_decimal_def dec_fix_def prec_def Let_def
        dest!: Money_wf split: if_splits)
  then show ?thesis
    using rescale_error [of c "e + k"]
      abs_minus_commute [of "rat_of_nat ?u" "rat_of_nat c * 10 powi (e + k)"]
    by (auto simp: dec_value_def)
qed

theorem from_decimal_rounds_half_even_witness:
  "\<exists>m. from_decimal ''12.345'' ''USD'' = Inr m \<and>
       \<bar>of_int (minor_units m) - dec_value False 12345 (-3 + 2)\<bar> \<le> 1 / 2 \<and> even (minor_units m)"
proof -
  have p: "parse_decimal ''12.345'' = Some (Finite False 12345 (-3))"
    using parse_dec_str [of False 12345 "-3"] by (simp add: show_nat_step Let_def)
  have n: "ndigits 12345 \<le> 28" by (simp add: show_nat_step)
  have k: "exponent_for ''USD'' = Inr 2" by (simp add: money_eval)
  have m: "from_decimal ''12.345'' ''USD'' = Inr \<lparr> minor_units = 1234, currency = ''USD'' \<rparr>"
    by (simp add: from_decimal_def p k n dec_fix_def prec_def rescale_def round_half_even_def
        Money_def Money_init_def money_eval show_nat_step)
  show ?thesis
    using from_decimal_rounds_half_even [OF p n k m] m by simp
qed

text \<open>Adding and subtracting are exact, stay in the currency and keep the class invariant:
  \<open>(a + b) - b\<close> is \<open>a\<close> for amounts of any size.\<close>

theorem money_add_sub_inverse:
  assumes "wf_money a" and "currency a = currency b"
  shows "\<exists>s. money_add a b = Inr s \<and> wf_money s \<and>
     minor_units s = minor_units a + minor_units b \<and> money_sub s b = Inr a"
proof -
  let ?s = "\<lparr> minor_units = minor_units a + minor_units b, currency = currency a \<rparr>"
  have s: "money_add a b = Inr ?s"
    using assms Money_wf_currency [OF assms(1)] by (simp add: money_add_def check_same_currency_def)
  have "wf_money ?s" using money_add_wf [OF assms(1) s] .
  moreover have "money_sub ?s b = Inr a"
    using assms Money_wf_currency [OF assms(1)] by (simp add: money_sub_def check_same_currency_def)
  ultimately show ?thesis using s by auto
qed

theorem money_add_sub_inverse_witness:
  "\<exists>s. money_add \<lparr> minor_units = 100, currency = ''USD'' \<rparr> \<lparr> minor_units = 50, currency = ''USD'' \<rparr>
        = Inr s \<and> minor_units s = 150"
  using money_add_sub_inverse [of "\<lparr> minor_units = 100, currency = ''USD'' \<rparr>"
      "\<lparr> minor_units = 50, currency = ''USD'' \<rparr>"]
  by (auto simp: money_eval)

text \<open>In a currency with two decimal places \<open>format\<close> prints the sign, the whole units, a
  point, exactly two digits, and the currency code.\<close>

theorem format_cents:
  assumes "exponent_for (currency m) = Inr 2" and "\<bar>minor_units m\<bar> < 10 ^ 28"
  shows "format m = Inr ((if minor_units m < 0 then ''-'' else []) @
     show_int (\<bar>minor_units m\<bar> div 100) @ ''.'' @
     [digit_char (nat (\<bar>minor_units m\<bar> div 10 mod 10)), digit_char (nat (\<bar>minor_units m\<bar> mod 10))] @
     '' '' @ currency m)"
  unfolding format_def to_decimal_exact [OF assms]
  by (simp add: dec_str_cents show_int_def nat_div_distrib nat_mod_distrib del: dec_str.simps)

theorem format_cents_witness:
  "format \<lparr> minor_units = -1205, currency = ''USD'' \<rparr> = Inr ''-12.05 USD''"
  using format_cents [of "\<lparr> minor_units = -1205, currency = ''USD'' \<rparr>"]
  by (simp add: money_eval show_int_def show_nat_step)

text \<open>In a currency with eight decimal places the printed amount uses scientific notation
  exactly for amounts below 100 minor units, zero included.\<close>

theorem crypto_display_scientific:
  assumes "exponent_for (currency m) = Inr 8" and "\<bar>minor_units m\<bar> < 10 ^ 28"
    and "to_decimal m = Inr d"
  shows "CHR ''E'' \<in> set (dec_str d) \<longleftrightarrow> \<bar>minor_units m\<bar> < 100"
proof -
  let ?c = "nat \<bar>minor_units m\<bar>"
  have nd: "ndigits ?c \<le> 2 \<longleftrightarrow> \<bar>minor_units m\<bar> < 100"
    using ndigits_le_iff [of 2 ?c] by simp linarith
  have noE: "CHR ''E'' \<notin> set (show_nat n)" for n
    using show_nat_digits [of "CHR ''E''" n] by (auto simp: is_digit_def)
  then have sub: "CHR ''E'' \<notin> set (take j (show_nat n))" "CHR ''E'' \<notin> set (drop j (show_nat n))" for j n
    by (meson in_set_takeD in_set_dropD)+
  have d: "d = Finite (minor_units m < 0) ?c (- 8)"
    using to_decimal_exact [OF assms(1,2)] assms(3) by simp
  show ?thesis
  proof (cases "ndigits ?c \<le> 2")
    case True
    with nd show ?thesis by (simp add: d Let_def exp_suffix_def)
  next
    case False
    with nd noE sub show ?thesis by (simp add: d Let_def exp_suffix_def)
  qed
qed

theorem crypto_display_scientific_witness:
  "format \<lparr> minor_units = 1, currency = ''BTC'' \<rparr> = Inr ''1E-8 BTC'' \<and>
   (\<exists>d. to_decimal \<lparr> minor_units = 1, currency = ''BTC'' \<rparr> = Inr d \<and> CHR ''E'' \<in> set (dec_str d))"
proof -
  let ?m = "\<lparr> minor_units = 1, currency = ''BTC'' \<rparr>"
  have k: "exponent_for (currency ?m) = Inr 8" by (simp add: money_eval)
  have d: "to_decimal ?m = Inr (Finite False 1 (-8))"
    using to_decimal_exact [OF k] by simp
  have "format ?m = Inr ''1E-8 BTC''"
    by (simp add: format_def d exp_suffix_def show_int_def)
  then show ?thesis using crypto_display_scientific [OF k _ d] d by simp
qed

end
