(* ===== verification/Signatures.thy ===== *)
theory Signatures
  imports Errors Hashing
begin

text \<open>
  Webhook signatures with replay protection, \<^verbatim>\<open>app/security/signatures.py\<close>: header building
  and parsing, and verification with its three kinds of failure (malformed or wrong signature,
  stale timestamp, and the \<open>TypeError\<close> of \<open>hmac.compare_digest\<close> on non-ASCII text).
\<close>

section \<open>Operations\<close>

definition compute :: "string \<Rightarrow> int \<Rightarrow> string \<Rightarrow> string" where
  "compute secret timestamp body =
     hexdigest (hmac_sha256 (utf8 secret) (utf8 (show_int timestamp @ ''.'') @ body))"

text \<open>\<open>now\<close> is \<open>int(time.time())\<close>, read only when no timestamp is given.\<close>

definition sign :: "int \<Rightarrow> string \<Rightarrow> string \<Rightarrow> int option \<Rightarrow> string" where
  "sign now body secret timestamp =
     (let ts = (case timestamp of Some t \<Rightarrow> t | None \<Rightarrow> now);
          digest = compute secret ts body
      in ''t='' @ show_int ts @ '',v1='' @ digest)"

fun parse_parts :: "string list \<Rightarrow> int option \<Rightarrow> string list \<Rightarrow> (int option \<times> string list) result" where
  "parse_parts [] ts sigs = Inr (ts, sigs)"
| "parse_parts (part # parts) ts sigs =
     (case partition_on (CHR ''='') (strip part) of (key, _, value) \<Rightarrow>
        if key = ''t''
        then (case int_of_str value of
                Some i \<Rightarrow> parse_parts parts (Some i) sigs
              | None \<Rightarrow> Inl (err SignatureInvalidError ''malformed timestamp in signature header''))
        else if key = ''v1'' then parse_parts parts ts (sigs @ [value])
        else parse_parts parts ts sigs)"

definition parse_header :: "string \<Rightarrow> (int \<times> string list) result" where
  "parse_header header =
     (case parse_parts (split_on (CHR '','') header) None [] of
        Inl e \<Rightarrow> Inl e
      | Inr (ts, sigs) \<Rightarrow>
          (case ts of
             Some t \<Rightarrow>
               if sigs = []
               then Inl (err SignatureInvalidError ''signature header missing timestamp or v1 signature'')
               else Inr (t, sigs)
           | None \<Rightarrow> Inl (err SignatureInvalidError ''signature header missing timestamp or v1 signature'')))"

text \<open>\<open>hmac.compare_digest\<close> on two strings, and \<open>any\<close> over the candidates, left to right.\<close>

definition compare_digest :: "string \<Rightarrow> string \<Rightarrow> bool result" where
  "compare_digest a b =
     (if list_all is_ascii a \<and> list_all is_ascii b then Inr (a = b) else Inl (Py TypeError))"

fun any_matches :: "string \<Rightarrow> string list \<Rightarrow> bool result" where
  "any_matches expected [] = Inr False"
| "any_matches expected (candidate # rest) =
     (case compare_digest expected candidate of
        Inl e \<Rightarrow> Inl e
      | Inr True \<Rightarrow> Inr True
      | Inr False \<Rightarrow> any_matches expected rest)"

definition replay_error :: "int \<Rightarrow> exc" where
  "replay_error tolerance_seconds =
     err_with ReplayDetectedError ''webhook timestamp outside tolerance window''
       [(''tolerance_seconds'', JInt tolerance_seconds)]"

definition verify :: "int \<Rightarrow> int \<Rightarrow> string \<Rightarrow> string \<Rightarrow> string \<Rightarrow> unit result" where
  "verify now tolerance_seconds body header secret =
     (case parse_header header of
        Inl e \<Rightarrow> Inl e
      | Inr (ts, signatures) \<Rightarrow>
          if \<bar>now - ts\<bar> > tolerance_seconds then Inl (replay_error tolerance_seconds)
          else (case any_matches (compute secret ts body) signatures of
                  Inl e \<Rightarrow> Inl e
                | Inr True \<Rightarrow> Inr ()
                | Inr False \<Rightarrow> Inl (err SignatureInvalidError ''webhook signature verification failed'')))"

text \<open>The default tolerance, which is what every caller uses.\<close>

definition default_tolerance :: int where
  "default_tolerance = 300"

section \<open>Lemmas\<close>

lemma compute_chars: "c \<in> set (compute secret ts body) \<Longrightarrow> is_hex_char c"
  by (simp add: compute_def hexdigest_chars)

lemma compute_ascii [simp]: "list_all is_ascii (compute secret ts body)"
  by (simp add: list_all_iff compute_chars is_hex_ascii)

lemma compute_length [simp]: "length (compute secret ts body) = 64"
  by (simp add: compute_def)

lemma is_hex_not_special: "is_hex_char c \<Longrightarrow> \<not> is_space c \<and> c \<noteq> CHR '','' \<and> c \<noteq> CHR ''=''"
  by (auto simp: is_hex_char_def is_space_def Let_def)

lemma compute_plain:
  "CHR '','' \<notin> set (compute secret ts body)" "c \<in> set (compute secret ts body) \<Longrightarrow> \<not> is_space c"
  using compute_chars is_hex_not_special by blast+

lemma show_int_plain: "CHR '','' \<notin> set (show_int ts)" "CHR ''='' \<notin> set (show_int ts)"
  using show_int_chars digit_ne_sign by fastforce+

lemma any_matches_char:
  assumes "list_all is_ascii expected"
  shows "any_matches expected cs =
    (let pre = takeWhile (\<lambda>c. list_all is_ascii c \<and> c \<noteq> expected) cs
     in if length pre = length cs then Inr False
        else if cs ! length pre = expected then Inr True else Inl (Py TypeError))"
  using assms
proof (induction cs)
  case Nil
  then show ?case by simp
next
  case (Cons c cs)
  then show ?case
    by (cases "list_all is_ascii c"; cases "c = expected") (simp_all add: compare_digest_def Let_def)
qed

lemma any_matches_error: "any_matches expected cs = Inl e \<Longrightarrow> e = Py TypeError"
  by (induction expected cs rule: any_matches.induct)
    (auto simp: compare_digest_def split: sum.splits bool.splits if_splits)

lemma parse_parts_error: "parse_parts ps ts sigs = Inl e \<Longrightarrow>
    e = err SignatureInvalidError ''malformed timestamp in signature header''"
  by (induction ps ts sigs rule: parse_parts.induct)
    (auto split: prod.splits if_splits option.splits)

lemma parse_header_error: "parse_header header = Inl e \<Longrightarrow>
    e = err SignatureInvalidError ''malformed timestamp in signature header'' \<or>
    e = err SignatureInvalidError ''signature header missing timestamp or v1 signature''"
  by (auto simp: parse_header_def dest: parse_parts_error split: sum.splits option.splits if_splits)

lemma strip_plain: "(\<And>c. c \<in> set s \<Longrightarrow> \<not> is_space c) \<Longrightarrow> strip s = s"
  by (rule strip_none)

lemma parse_t_part:
  assumes "length (show_nat (nat \<bar>ts\<bar>)) \<le> 4300"
  shows "parse_parts ((''t='' @ show_int ts) # ps) old sigs = parse_parts ps (Some ts) sigs"
proof -
  have "strip (''t='' @ show_int ts) = ''t='' @ show_int ts"
    by (rule strip_plain) (auto simp: is_space_def dest: show_int_no_space)
  moreover have "partition_on (CHR ''='') (''t'' @ CHR ''='' # show_int ts) = (''t'', ''='', show_int ts)"
    by (rule partition_on_append) simp
  ultimately show ?thesis using int_of_str_show_int [OF assms] by simp
qed

lemma parse_v1_part:
  assumes "\<And>c. c \<in> set v \<Longrightarrow> \<not> is_space c"
  shows "parse_parts ((''v1='' @ v) # ps) ts sigs = parse_parts ps ts (sigs @ [v])"
proof -
  have "strip (''v1='' @ v) = ''v1='' @ v"
    using assms by (intro strip_plain) (auto simp: is_space_def)
  moreover have "partition_on (CHR ''='') (''v1'' @ CHR ''='' # v) = (''v1'', ''='', v)"
    by (rule partition_on_append) simp
  ultimately show ?thesis by simp
qed

lemma parse_header_sign:
  assumes "length (show_nat (nat \<bar>ts\<bar>)) \<le> 4300"
  shows "parse_header (sign now body secret (Some ts)) = Inr (ts, [compute secret ts body])"
proof -
  let ?d = "compute secret ts body"
  have split: "split_on (CHR '','') ((''t='' @ show_int ts) @ CHR '','' # ''v1='' @ ?d) =
      [''t='' @ show_int ts, ''v1='' @ ?d]"
    using show_int_plain compute_plain
    by (subst split_on_append) (auto simp: split_on_none)
  have header: "sign now body secret (Some ts) = (''t='' @ show_int ts) @ CHR '','' # ''v1='' @ ?d"
    by (simp add: sign_def)
  have "parse_parts [''t='' @ show_int ts, ''v1='' @ ?d] None [] = Inr (Some ts, [?d])"
    by (subst parse_t_part [OF assms], subst parse_v1_part) (simp_all add: compute_plain(2))
  then show ?thesis by (simp only: parse_header_def header split) simp
qed

lemma verify_sign:
  assumes "length (show_nat (nat \<bar>ts\<bar>)) \<le> 4300"
  shows "verify now tolerance body (sign clock body secret (Some ts)) secret =
    (if \<bar>now - ts\<bar> \<le> tolerance then Inr () else Inl (replay_error tolerance))"
  by (simp add: verify_def parse_header_sign [OF assms] compare_digest_def)

lemma accepted_iff:
  "verify now tolerance body header secret = Inr () \<longleftrightarrow>
     (\<exists>ts pre post. parse_header header = Inr (ts, pre @ compute secret ts body # post) \<and>
        \<bar>now - ts\<bar> \<le> tolerance \<and> list_all (list_all is_ascii) pre)"
  (is "?accepts \<longleftrightarrow> ?genuine")
proof
  assume ?accepts
  then obtain ts sigs where h: "parse_header header = Inr (ts, sigs)" "\<bar>now - ts\<bar> \<le> tolerance"
    and m: "any_matches (compute secret ts body) sigs = Inr True"
    by (auto simp: verify_def split: sum.splits if_splits bool.splits)
  let ?e = "compute secret ts body"
  let ?pre = "takeWhile (\<lambda>c. list_all is_ascii c \<and> c \<noteq> ?e) sigs"
  have "length ?pre < length sigs" "sigs ! length ?pre = ?e"
    using m length_takeWhile_le [of "\<lambda>c. list_all is_ascii c \<and> c \<noteq> ?e" sigs]
    by (auto simp: any_matches_char Let_def split: if_splits)
  then have "sigs = ?pre @ ?e # drop (Suc (length ?pre)) sigs"
    by (metis takeWhile_nth_split)
  moreover have "list_all (list_all is_ascii) ?pre"
    by (auto simp: list_all_iff dest: set_takeWhileD)
  ultimately show ?genuine using h by metis
next
  assume ?genuine
  then obtain ts pre post where h: "parse_header header = Inr (ts, pre @ compute secret ts body # post)"
    "\<bar>now - ts\<bar> \<le> tolerance" and pre: "list_all (list_all is_ascii) pre" by blast
  have "any_matches (compute secret ts body) (pre @ compute secret ts body # post) = Inr True"
    using pre by (induction pre) (auto simp: compare_digest_def split: bool.splits)
  then show ?accepts using h by (simp add: verify_def)
qed

section \<open>Properties\<close>

text \<open>Sign and verify agree: a header made by \<open>sign\<close> for a body and secret verifies for that
  body and secret exactly while the clock is within the tolerance of the signed timestamp, on
  both sides, and is otherwise refused as a replay.\<close>

theorem sign_verify_roundtrip:
  assumes "length (show_nat (nat \<bar>ts\<bar>)) \<le> 4300"
  shows "verify now tolerance body (sign clock body secret (Some ts)) secret =
    (if \<bar>now - ts\<bar> \<le> tolerance then Inr () else Inl (replay_error tolerance))"
  by (rule verify_sign [OF assms])

theorem sign_verify_roundtrip_witness:
  "verify 1700000200 300 ''{}'' (sign 0 ''{}'' ''whsec'' (Some 1700000000)) ''whsec'' = Inr () \<and>
   verify 1700000301 300 ''{}'' (sign 0 ''{}'' ''whsec'' (Some 1700000000)) ''whsec'' = Inl (replay_error 300)"
proof -
  have "length (show_nat (nat \<bar>1700000000\<bar>)) \<le> 4300" by (simp add: show_nat_step)
  from sign_verify_roundtrip [OF this] show ?thesis by simp
qed

text \<open>C34. What verification accepts, exactly: a header that parses, whose timestamp is inside the
  tolerance window and among whose \<open>v1\<close> values the HMAC-SHA256 of timestamp and body under the
  secret occurs, before any value that is not ASCII.\<close>

theorem verify_accepts_iff:
  "verify now tolerance body header secret = Inr () \<longleftrightarrow>
     (\<exists>ts pre post. parse_header header = Inr (ts, pre @ compute secret ts body # post) \<and>
        \<bar>now - ts\<bar> \<le> tolerance \<and> list_all (list_all is_ascii) pre)"
  by (rule accepted_iff)

text \<open>How verification fails: with a signature error, with the replay error, or with
  Python's \<open>TypeError\<close>.  The last happens exactly when a timely header has a \<open>v1\<close> value outside
  ASCII before any match, and then the exception handler answers 500, not 400.\<close>

theorem verify_failures:
  "verify now tolerance body header secret = Inl e \<Longrightarrow>
     is_instance SignatureInvalidError e \<or> e = replay_error tolerance \<or>
     (e = Py TypeError \<and> fst (handle_exception cid e) = 500 \<and>
      (\<exists>ts pre bad post. parse_header header = Inr (ts, pre @ bad # post) \<and> \<bar>now - ts\<bar> \<le> tolerance \<and>
         \<not> list_all is_ascii bad \<and> compute secret ts body \<notin> set pre))"
  (is "?fails \<Longrightarrow> _")
proof -
  assume fails: ?fails
  show ?thesis
  proof (cases "parse_header header")
    case (Inl e')
    with fails parse_header_error [OF Inl] show ?thesis by (auto simp: verify_def is_subclass_def)
  next
    case (Inr p)
    obtain ts sigs where p: "p = (ts, sigs)" by (cases p)
    let ?e = "compute secret ts body"
    let ?pre = "takeWhile (\<lambda>c. list_all is_ascii c \<and> c \<noteq> ?e) sigs"
    consider "e = replay_error tolerance" | "is_instance SignatureInvalidError e"
      | "\<bar>now - ts\<bar> \<le> tolerance" "any_matches ?e sigs = Inl e"
      using fails Inr p
      by (auto simp: verify_def is_subclass_def split: if_splits sum.splits bool.splits)
    then show ?thesis
    proof cases
      case 3
      have e: "e = Py TypeError" using 3(2) by (rule any_matches_error)
      have lt: "length ?pre < length sigs" and ne: "sigs ! length ?pre \<noteq> ?e"
        using 3(2) length_takeWhile_le [of "\<lambda>c. list_all is_ascii c \<and> c \<noteq> ?e" sigs]
        by (auto simp: any_matches_char Let_def split: if_splits)
      have "\<not> list_all is_ascii (sigs ! length ?pre)"
        using nth_length_takeWhile [OF lt] ne by simp
      moreover have "sigs = ?pre @ sigs ! length ?pre # drop (Suc (length ?pre)) sigs"
        using lt by (rule takeWhile_nth_split)
      moreover have "?e \<notin> set ?pre" by (auto dest: set_takeWhileD)
      ultimately have "\<exists>pre bad post. sigs = pre @ bad # post \<and> \<not> list_all is_ascii bad \<and> ?e \<notin> set pre"
        by blast
      then show ?thesis using e 3(1) Inr p by auto
    qed auto
  qed
qed

theorem verify_failures_witness:
  "verify 0 300 ''x'' (''t=0,v1='' @ [CHR 0xE9]) ''s'' = Inl (Py TypeError) \<and>
   fst (handle_exception [] (Py TypeError)) = 500"
proof -
  have header: "parse_header (''t=0,v1='' @ [CHR 0xE9]) = Inr (0, [[CHR 0xE9]])"
    by (simp add: parse_header_def partition_on_def strip_def is_space_def int_of_str_def is_digit_def
        digits_val_def digit_val_def)
  then have "verify 0 300 ''x'' (''t=0,v1='' @ [CHR 0xE9]) ''s'' = Inl (Py TypeError)"
    by (simp add: verify_def compare_digest_def is_ascii_def)
  with verify_failures [OF this, of "[]"] show ?thesis by simp
qed

end
