(* ===== verification/Providers.thy ===== *)
theory Providers
  imports World Money Signatures
begin

text \<open>
  The provider interface (\<^verbatim>\<open>app/providers/base.py\<close>), the sandbox adapter
  (\<^verbatim>\<open>app/providers/mock.py\<close>) and the Stripe adapter (\<^verbatim>\<open>app/providers/stripe.py\<close>) with the
  registry that resolves a provider name to one of them (\<^verbatim>\<open>app/providers/registry.py\<close>).
  An adapter object is the record of its operations.  The locale \<open>payment_adapter\<close> is the
  contract the services rely on; \<open>sound_adapter\<close> adds what the money invariants need.
\<close>

section \<open>Data transfer objects\<close>

record ChargeRequest =
  cr_amount :: money
  cr_capture_method :: CaptureMethod
  cr_method_type :: PaymentMethodType
  cr_payment_method_token :: "string option"
  cr_description :: "string option"
  cr_customer_reference :: "string option"
  cr_idempotency_key :: "string option"
  cr_metadata :: "(string \<times> json) list"

record ProviderCharge =
  chg_reference :: string
  chg_status :: PaymentStatus
  chg_amount_captured :: int
  chg_raw :: json
  chg_failure_reason :: "string option"

record ProviderRefund =
  prf_reference :: string
  prf_status :: string
  prf_amount :: int
  prf_raw :: json

record ProviderWebhook =
  whk_event_id :: string
  whk_event_type :: string
  whk_payload :: json

record ProviderContext =
  ctx_secret :: string
  ctx_sandbox :: bool
  ctx_config :: "(string \<times> json) list"
  ctx_http :: "http_client option"

record 'e BasePaymentProvider =
  ad_create_payment :: "ChargeRequest \<Rightarrow> ('e world, exc, ProviderCharge) op"
  ad_capture :: "string \<Rightarrow> money \<Rightarrow> ('e world, exc, ProviderCharge) op"
  ad_cancel :: "string \<Rightarrow> ('e world, exc, ProviderCharge) op"
  ad_refund :: "string \<Rightarrow> money \<Rightarrow> string option \<Rightarrow> ('e world, exc, ProviderRefund) op"
  ad_verify_webhook :: "string \<Rightarrow> (string \<times> string) list \<Rightarrow> ('e world, exc, ProviderWebhook) op"

section \<open>Webhook bodies\<close>

text \<open>\<open>int(time.time())\<close>, and the part of \<open>verify_webhook\<close> both adapters share.\<close>

definition unix_now :: "'e platform \<Rightarrow> 'e world \<Rightarrow> int" where
  "unix_now P w = \<lfloor>time_time P (env w)\<rfloor>"

definition loads :: "'e platform \<Rightarrow> string \<Rightarrow> json result" where
  "loads P text = (case json_loads P text of Inl x \<Rightarrow> Inl (Py x) | Inr j \<Rightarrow> Inr j)"

definition http_call :: "'e platform \<Rightarrow> http_request \<Rightarrow> ('e world, exc, http_response) op" where
  "http_call P rq = (\<lambda>w. case http_post P rq (env w) of
     (Inl x, e) \<Rightarrow> (Inl (Py x), w\<lparr>env := e\<rparr>) | (Inr r, e) \<Rightarrow> (Inr r, w\<lparr>env := e\<rparr>))"

lemma loads_Inr:
  "loads P text = Inr j \<longleftrightarrow> json_loads P text = Inr j" "Inr j = loads P text \<longleftrightarrow> json_loads P text = Inr j"
  by (auto simp: loads_def split: sum.splits)

lemma http_call_Inr [op_splits]:
  "http_call P rq w = (Inr r, v) \<longleftrightarrow> (\<exists>e. http_post P rq (env w) = (Inr r, e) \<and> v = w\<lparr>env := e\<rparr>)"
  by (auto simp: http_call_def split: prod.splits sum.splits)

definition header_get :: "(string \<times> string) list \<Rightarrow> string \<Rightarrow> string" where
  "header_get headers name = (case map_of headers name of Some v \<Rightarrow> v | None \<Rightarrow> [])"

definition verify_event ::
  "'e platform \<Rightarrow> string \<Rightarrow> string \<Rightarrow> string \<Rightarrow> ('e world, exc, ProviderWebhook) op" where
  "verify_event P secret header body =
     andThen (gets (\<lambda>w. verify (unix_now P w) default_tolerance body header secret)) (\<lambda>v.
     andThen (lift_result v) (\<lambda>_.
     andThen (lift_result (loads P body)) (\<lambda>payload.
     andThen (lift_result (json_index payload ''id'')) (\<lambda>i.
     andThen (lift_result (json_index payload ''type'')) (\<lambda>t.
     return \<lparr> whk_event_id = py_str i, whk_event_type = py_str t, whk_payload = payload \<rparr>)))))"

section \<open>The sandbox adapter\<close>

definition MOCK_SIGNATURE_HEADER :: string where
  "MOCK_SIGNATURE_HEADER = ''x-upgi-signature''"

definition new_reference :: "'e platform \<Rightarrow> string \<Rightarrow> ('e world, exc, string) op" where
  "new_reference P prefix = (\<lambda>w. case uuid4 P (env w) of (u, e) \<Rightarrow>
     (Inr (prefix @ ''_'' @ take 24 (uuid_hex u)), w\<lparr>env := e\<rparr>))"

definition should_fail :: "ChargeRequest \<Rightarrow> bool" where
  "should_fail request \<longleftrightarrow>
     cr_payment_method_token request = Some ''pm_fail'' \<or>
     (case map_of (cr_metadata request) ''force_failure'' of None \<Rightarrow> False | Some v \<Rightarrow> truthy v)"

definition mock_create_payment ::
  "'e platform \<Rightarrow> ChargeRequest \<Rightarrow> ('e world, exc, ProviderCharge) op" where
  "mock_create_payment P request =
     andThen (new_reference P ''mock_pay'') (\<lambda>reference.
     if should_fail request
     then return \<lparr> chg_reference = reference, chg_status = FAILED, chg_amount_captured = 0,
                   chg_raw = JObj [(''simulated'', JBool True)],
                   chg_failure_reason = Some ''card_declined'' \<rparr>
     else if cr_capture_method request = MANUAL
     then return \<lparr> chg_reference = reference, chg_status = AUTHORIZED, chg_amount_captured = 0,
                   chg_raw = JObj [(''simulated'', JBool True), (''captured'', JBool False)],
                   chg_failure_reason = None \<rparr>
     else return \<lparr> chg_reference = reference, chg_status = CAPTURED,
                   chg_amount_captured = minor_units (cr_amount request),
                   chg_raw = JObj [(''simulated'', JBool True), (''captured'', JBool True)],
                   chg_failure_reason = None \<rparr>)"

definition mock_capture :: "string \<Rightarrow> money \<Rightarrow> ('e world, exc, ProviderCharge) op" where
  "mock_capture reference amount =
     return \<lparr> chg_reference = reference, chg_status = CAPTURED, chg_amount_captured = minor_units amount,
              chg_raw = JObj [(''simulated'', JBool True)], chg_failure_reason = None \<rparr>"

definition mock_cancel :: "string \<Rightarrow> ('e world, exc, ProviderCharge) op" where
  "mock_cancel reference =
     return \<lparr> chg_reference = reference, chg_status = CANCELED, chg_amount_captured = 0,
              chg_raw = JObj [(''simulated'', JBool True)], chg_failure_reason = None \<rparr>"

definition mock_refund ::
  "'e platform \<Rightarrow> string \<Rightarrow> money \<Rightarrow> string option \<Rightarrow> ('e world, exc, ProviderRefund) op" where
  "mock_refund P reference amount reason =
     andThen (new_reference P ''mock_ref'') (\<lambda>r.
     return \<lparr> prf_reference = r, prf_status = ''succeeded'', prf_amount = minor_units amount,
              prf_raw = JObj [(''simulated'', JBool True), (''payment'', JStr reference),
                              (''reason'', opt_str reason)] \<rparr>)"

definition build_signed_webhook ::
  "'e platform \<Rightarrow> ProviderContext \<Rightarrow> json \<Rightarrow> int option \<Rightarrow> 'e world \<Rightarrow> string \<times> (string \<times> string) list" where
  "build_signed_webhook P ctx payload timestamp w =
     (let body = json_dumps payload;
          header = sign (unix_now P w) body (ctx_secret ctx) timestamp
      in (body, [(MOCK_SIGNATURE_HEADER, header)]))"

definition mock_verify_webhook ::
  "'e platform \<Rightarrow> ProviderContext \<Rightarrow> string \<Rightarrow> (string \<times> string) list \<Rightarrow> ('e world, exc, ProviderWebhook) op" where
  "mock_verify_webhook P ctx body headers =
     verify_event P (ctx_secret ctx) (header_get headers MOCK_SIGNATURE_HEADER) body"

definition MockProvider :: "'e platform \<Rightarrow> ProviderContext \<Rightarrow> 'e BasePaymentProvider" where
  "MockProvider P ctx =
     \<lparr> ad_create_payment = mock_create_payment P, ad_capture = mock_capture, ad_cancel = mock_cancel,
       ad_refund = mock_refund P, ad_verify_webhook = mock_verify_webhook P ctx \<rparr>"

section \<open>The Stripe adapter\<close>

definition LIVE_BASE_URL :: string where
  "LIVE_BASE_URL = ''https://api.stripe.com''"

definition STRIPE_SIGNATURE_HEADER :: string where
  "STRIPE_SIGNATURE_HEADER = ''stripe-signature''"

definition STATUS_MAP :: "(string \<times> PaymentStatus) list" where
  "STATUS_MAP =
     [(''succeeded'', CAPTURED), (''requires_capture'', AUTHORIZED), (''canceled'', CANCELED),
      (''processing'', REQUIRES_CONFIRMATION), (''requires_confirmation'', REQUIRES_CONFIRMATION),
      (''requires_action'', REQUIRES_CONFIRMATION), (''requires_payment_method'', FAILED)]"

definition stripe_client :: "ProviderContext \<Rightarrow> http_client result" where
  "stripe_client ctx =
     (case ctx_http ctx of
        Some c \<Rightarrow> Inr c
      | None \<Rightarrow>
          (case map_of (ctx_config ctx) ''base_url'' of
             None \<Rightarrow> Inr (OwnClient LIVE_BASE_URL)
           | Some (JStr url) \<Rightarrow> Inr (OwnClient url)
           | Some _ \<Rightarrow> Inl (Py TypeError)))"

definition stripe_headers :: "ProviderContext \<Rightarrow> string option \<Rightarrow> (string \<times> string) list" where
  "stripe_headers ctx idempotency_key =
     [(''Authorization'', ''Bearer '' @ ctx_secret ctx),
      (''Content-Type'', ''application/x-www-form-urlencoded'')] @
     (case idempotency_key of
        None \<Rightarrow> [] | Some k \<Rightarrow> if k = [] then [] else [(''Idempotency-Key'', k)])"

definition stripe_error :: "json \<Rightarrow> exc result" where
  \<comment> \<open>the \<open>ProviderError\<close> made from the body of a failed response\<close>
  "stripe_error payload =
     (let e = (case payload of
                 JObj kvs \<Rightarrow> (case map_of kvs ''error'' of Some v \<Rightarrow> v | None \<Rightarrow> JObj [])
               | _ \<Rightarrow> JObj [])
      in case json_get e ''message'' (JStr ''Stripe request failed'') of
           Inl x \<Rightarrow> Inl x
         | Inr message \<Rightarrow>
             (case (json_get e ''type'' JNull, json_get e ''code'' JNull) of
                (Inr t, Inr c) \<Rightarrow>
                  Inr (err_with ProviderError (py_str message)
                        [(''provider'', JStr ''stripe''), (''type'', t), (''code'', c)])
              | (Inl x, _) \<Rightarrow> Inl x
              | (_, Inl x) \<Rightarrow> Inl x))"

definition stripe_post ::
  "'e platform \<Rightarrow> ProviderContext \<Rightarrow> string \<Rightarrow> (string \<times> json) list \<Rightarrow> string option
   \<Rightarrow> ('e world, exc, json) op" where
  "stripe_post P ctx path data idempotency_key =
     andThen (lift_result (stripe_client ctx)) (\<lambda>client.
     andThen (http_call P \<lparr> rq_client = client, rq_path = path, rq_data = data,
                             rq_headers = stripe_headers ctx idempotency_key \<rparr>) (\<lambda>response.
     andThen (lift_result (loads P (rs_text response))) (\<lambda>payload.
     if rs_status_code response \<ge> 400
     then andThen (lift_result (stripe_error payload)) throw
     else return payload)))"

definition py_int :: "'e platform \<Rightarrow> json \<Rightarrow> int result" where
  \<comment> \<open>\<open>int(v)\<close>\<close>
  "py_int P v =
     (case v of
        JInt i \<Rightarrow> Inr i
      | JBool b \<Rightarrow> Inr (if b then 1 else 0)
      | JFloat r \<Rightarrow> (case int_of_float P r of Inl x \<Rightarrow> Inl (Py x) | Inr i \<Rightarrow> Inr i)
      | JStr s \<Rightarrow> (case int_of_str s of None \<Rightarrow> Inl (Py ValueError) | Some i \<Rightarrow> Inr i)
      | _ \<Rightarrow> Inl (Py TypeError))"

definition status_lookup :: "json \<Rightarrow> PaymentStatus result" where
  \<comment> \<open>\<open>_STATUS_MAP.get(v, FAILED)\<close>: lists and dictionaries are not hashable\<close>
  "status_lookup v =
     (case v of
        JStr s \<Rightarrow> Inr (case map_of STATUS_MAP s of Some t \<Rightarrow> t | None \<Rightarrow> FAILED)
      | JArr _ \<Rightarrow> Inl (Py TypeError)
      | JObj _ \<Rightarrow> Inl (Py TypeError)
      | _ \<Rightarrow> Inr FAILED)"

definition failure_message :: "json \<Rightarrow> PaymentStatus \<Rightarrow> string option result" where
  "failure_message intent status =
     (if status \<noteq> FAILED then Inr None
      else (case json_get intent ''last_payment_error'' JNull of
              Inl x \<Rightarrow> Inl x
            | Inr v \<Rightarrow>
                (case json_get (if truthy v then v else JObj []) ''message'' (JStr ''payment_failed'') of
                   Inl x \<Rightarrow> Inl x
                 | Inr m \<Rightarrow> Inr (case m of JNull \<Rightarrow> None | _ \<Rightarrow> Some (py_str m)))))"

definition to_charge :: "'e platform \<Rightarrow> json \<Rightarrow> ('e world, exc, ProviderCharge) op" where
  "to_charge P intent =
     andThen (lift_result (json_get intent ''status'' (JStr []))) (\<lambda>s.
     andThen (lift_result (status_lookup s)) (\<lambda>status.
     andThen (lift_result (json_get intent ''amount_received'' (JInt 0))) (\<lambda>received.
     andThen (lift_result (py_int P (if truthy received then received else JInt 0))) (\<lambda>amount_captured.
     andThen (lift_result (failure_message intent status)) (\<lambda>failure.
     andThen (lift_result (json_index intent ''id'')) (\<lambda>i.
     return \<lparr> chg_reference = py_str i, chg_status = status, chg_amount_captured = amount_captured,
              chg_raw = intent, chg_failure_reason = failure \<rparr>))))))"

definition nonempty :: "string option \<Rightarrow> bool" where
  "nonempty v \<longleftrightarrow> v \<noteq> None \<and> v \<noteq> Some []"

definition stripe_charge_data :: "ChargeRequest \<Rightarrow> (string \<times> json) list" where
  "stripe_charge_data request =
     (let data = [(''amount'', JInt (minor_units (cr_amount request))),
                  (''currency'', JStr (lower (currency (cr_amount request)))),
                  (''capture_method'',
                     JStr (if cr_capture_method request = MANUAL then ''manual'' else ''automatic'')),
                  (''confirm'', JStr ''true'')];
          data = (if nonempty (cr_payment_method_token request)
                  then dict_set ''payment_method'' (opt_str (cr_payment_method_token request)) data else data);
          data = (if nonempty (cr_description request)
                  then dict_set ''description'' (opt_str (cr_description request)) data else data)
      in fold (\<lambda>(k, v). dict_set (''metadata['' @ k @ '']'') v) (cr_metadata request) data)"

definition stripe_create_payment ::
  "'e platform \<Rightarrow> ProviderContext \<Rightarrow> ChargeRequest \<Rightarrow> ('e world, exc, ProviderCharge) op" where
  "stripe_create_payment P ctx request =
     andThen (stripe_post P ctx ''/v1/payment_intents'' (stripe_charge_data request)
                (cr_idempotency_key request)) (to_charge P)"

definition stripe_capture ::
  "'e platform \<Rightarrow> ProviderContext \<Rightarrow> string \<Rightarrow> money \<Rightarrow> ('e world, exc, ProviderCharge) op" where
  "stripe_capture P ctx reference amount =
     andThen (stripe_post P ctx (''/v1/payment_intents/'' @ reference @ ''/capture'')
                [(''amount_to_capture'', JInt (minor_units amount))] None) (to_charge P)"

definition stripe_cancel ::
  "'e platform \<Rightarrow> ProviderContext \<Rightarrow> string \<Rightarrow> ('e world, exc, ProviderCharge) op" where
  "stripe_cancel P ctx reference =
     andThen (stripe_post P ctx (''/v1/payment_intents/'' @ reference @ ''/cancel'') [] None) (to_charge P)"

definition stripe_refund ::
  "'e platform \<Rightarrow> ProviderContext \<Rightarrow> string \<Rightarrow> money \<Rightarrow> string option \<Rightarrow> ('e world, exc, ProviderRefund) op" where
  "stripe_refund P ctx reference amount reason =
     andThen (stripe_post P ctx ''/v1/refunds''
                ([(''payment_intent'', JStr reference), (''amount'', JInt (minor_units amount))] @
                 (if nonempty reason then [(''metadata[reason]'', opt_str reason)] else [])) None) (\<lambda>refund.
     andThen (lift_result (json_index refund ''id'')) (\<lambda>i.
     andThen (lift_result (json_get refund ''status'' (JStr ''pending''))) (\<lambda>status.
     andThen (lift_result (json_get refund ''amount'' (JInt (minor_units amount)))) (\<lambda>a.
     andThen (lift_result (py_int P a)) (\<lambda>refunded.
     return \<lparr> prf_reference = py_str i, prf_status = py_str status, prf_amount = refunded,
              prf_raw = refund \<rparr>)))))"

definition stripe_webhook_secret :: "ProviderContext \<Rightarrow> string result" where
  \<comment> \<open>\<open>config.get("webhook_secret") or secret\<close>, which \<open>verify\<close> then encodes\<close>
  "stripe_webhook_secret ctx =
     (case map_of (ctx_config ctx) ''webhook_secret'' of
        None \<Rightarrow> Inr (ctx_secret ctx)
      | Some v \<Rightarrow>
          if truthy v then (case v of JStr s \<Rightarrow> Inr s | _ \<Rightarrow> Inl (Py AttributeError))
          else Inr (ctx_secret ctx))"

definition verify_unusable_secret :: "int \<Rightarrow> string \<Rightarrow> exc \<Rightarrow> 'a result" where
  \<comment> \<open>\<open>verify\<close> with a secret that cannot be encoded: header and clock are looked at first\<close>
  "verify_unusable_secret now header e =
     (case parse_header header of
        Inl x \<Rightarrow> Inl x
      | Inr (ts, _) \<Rightarrow>
          if \<bar>now - ts\<bar> > default_tolerance then Inl (replay_error default_tolerance) else Inl e)"

definition stripe_verify_webhook ::
  "'e platform \<Rightarrow> ProviderContext \<Rightarrow> string \<Rightarrow> (string \<times> string) list \<Rightarrow> ('e world, exc, ProviderWebhook) op" where
  "stripe_verify_webhook P ctx body headers =
     (let header = header_get headers STRIPE_SIGNATURE_HEADER
      in case stripe_webhook_secret ctx of
           Inr secret \<Rightarrow> verify_event P secret header body
         | Inl e \<Rightarrow> andThen (gets (\<lambda>w. verify_unusable_secret (unix_now P w) header e)) lift_result)"

definition StripeProvider :: "'e platform \<Rightarrow> ProviderContext \<Rightarrow> 'e BasePaymentProvider" where
  "StripeProvider P ctx =
     \<lparr> ad_create_payment = stripe_create_payment P ctx, ad_capture = stripe_capture P ctx,
       ad_cancel = stripe_cancel P ctx, ad_refund = stripe_refund P ctx,
       ad_verify_webhook = stripe_verify_webhook P ctx \<rparr>"

section \<open>The registry\<close>

datatype adapter_class = MockProviderClass | StripeProviderClass

type_synonym registry = "(ProviderName \<times> adapter_class) list"

definition register_provider :: "ProviderName \<Rightarrow> adapter_class \<Rightarrow> registry \<Rightarrow> registry result" where
  "register_provider name cls reg =
     (if name \<in> fst ` set reg then Inl (Py RuntimeError) else Inr (reg @ [(name, cls)]))"

definition REGISTRY :: "registry result" where
  \<comment> \<open>importing the package registers the sandbox adapter, then Stripe\<close>
  "REGISTRY =
     (case register_provider MOCK MockProviderClass [] of
        Inl e \<Rightarrow> Inl e
      | Inr reg \<Rightarrow> register_provider STRIPE StripeProviderClass reg)"

definition available_providers :: "registry \<Rightarrow> ProviderName list" where
  "available_providers reg = map fst reg"

definition is_registered :: "registry \<Rightarrow> ProviderName \<Rightarrow> bool" where
  "is_registered reg name \<longleftrightarrow> name \<in> fst ` set reg"

fun construct :: "'e platform \<Rightarrow> adapter_class \<Rightarrow> ProviderContext \<Rightarrow> 'e BasePaymentProvider" where
  "construct P MockProviderClass ctx = MockProvider P ctx"
| "construct P StripeProviderClass ctx = StripeProvider P ctx"

fun provider_repr :: "ProviderName \<Rightarrow> string" where
  "provider_repr MOCK = ''<ProviderName.MOCK: '' @ repr_str ''mock'' @ ''>''"
| "provider_repr STRIPE = ''<ProviderName.STRIPE: '' @ repr_str ''stripe'' @ ''>''"

definition build_provider ::
  "'e platform \<Rightarrow> registry \<Rightarrow> ProviderName \<Rightarrow> ProviderContext \<Rightarrow> 'e BasePaymentProvider result" where
  "build_provider P reg name ctx =
     (case map_of reg name of
        Some cls \<Rightarrow> Inr (construct P cls ctx)
      | None \<Rightarrow>
          Inl (err_with ProviderError (''no adapter registered for provider '' @ provider_repr name)
                 [(''available'', JArr (map (\<lambda>(p, _). JStr (ProviderName_value p)) reg))]))"

section \<open>The contract of an adapter\<close>

text \<open>
  An adapter talks to the outside world and touches nothing else: not the session, not the
  breakers, not the metrics.  Verifying a webhook only reads.
\<close>

definition env_only :: "('e world, exc, 'a) op \<Rightarrow> bool" where
  "env_only m \<longleftrightarrow> (\<forall>w. keeps (\<lambda>v. \<exists>e. v = w\<lparr>env := e\<rparr>) m)"

definition reads_only :: "('e world, exc, 'a) op \<Rightarrow> bool" where
  "reads_only m \<longleftrightarrow> (\<forall>w. keeps (\<lambda>v. v = w) m)"

lemma env_onlyI: "(\<And>w. keeps (\<lambda>v. \<exists>e. v = w\<lparr>env := e\<rparr>) m) \<Longrightarrow> env_only m"
  by (simp add: env_only_def)

lemma reads_onlyI: "(\<And>w. keeps (\<lambda>v. v = w) m) \<Longrightarrow> reads_only m"
  by (simp add: reads_only_def)

lemma env_onlyD: "env_only m \<Longrightarrow> m w = (r, v) \<Longrightarrow> v = w\<lparr>env := env v\<rparr>"
proof -
  assume m: "env_only m" and run: "m w = (r, v)"
  have "w = w\<lparr>env := env w\<rparr>" by simp
  then have "\<exists>e. v = w\<lparr>env := e\<rparr>"
    using m run keepsD [of "\<lambda>v. \<exists>e. v = w\<lparr>env := e\<rparr>" m w r v] by (metis env_only_def)
  then show ?thesis by auto
qed

lemma reads_onlyD: "reads_only m \<Longrightarrow> m w = (r, v) \<Longrightarrow> v = w"
  using keepsD [of "\<lambda>v. v = w" m w r v] by (simp add: reads_only_def)

lemma env_step: "keeps (\<lambda>v. \<exists>e. v = w\<lparr>env := e\<rparr>) (\<lambda>u. (f u, u\<lparr>env := g u\<rparr>))"
  by (auto simp: keeps_def)

locale payment_adapter =
  fixes a :: "'e BasePaymentProvider"
  assumes create_env: "env_only (ad_create_payment a rq)"
    and capture_env: "env_only (ad_capture a ref m)"
    and cancel_env: "env_only (ad_cancel a ref)"
    and refund_env: "env_only (ad_refund a ref m reason)"
    and verify_reads: "reads_only (ad_verify_webhook a body hs)"
begin

lemmas operations_env = create_env capture_env cancel_env refund_env

lemma charge_frame:
  assumes "ad_create_payment a rq w = (r, v)"
  shows "objs v = objs w \<and> pending v = pending w \<and> breakers v = breakers w"
  using env_onlyD [OF create_env assms] by (metis world.ext_inject world.surjective world.update_convs(1))

end

text \<open>What the money invariants need of a provider: it never reports more captured than asked for.\<close>

locale sound_adapter = payment_adapter +
  assumes create_bounds:
      "ad_create_payment a rq w = (Inr c, v) \<Longrightarrow> 0 \<le> minor_units (cr_amount rq) \<Longrightarrow>
         0 \<le> chg_amount_captured c \<and> chg_amount_captured c \<le> minor_units (cr_amount rq)"
    and capture_bounds:
      "ad_capture a ref m w = (Inr c, v) \<Longrightarrow> 0 \<le> minor_units m \<Longrightarrow>
         0 \<le> chg_amount_captured c \<and> chg_amount_captured c \<le> minor_units m"

lemma new_reference_env: "keeps (\<lambda>v. \<exists>e. v = w\<lparr>env := e\<rparr>) (new_reference P prefix)"
  by (auto simp: keeps_def new_reference_def split: prod.splits)

lemma verify_event_reads: "keeps (\<lambda>v. v = w) (verify_event P secret header body)"
  unfolding verify_event_def by (intro keeps_intros)

interpretation mock: sound_adapter "MockProvider P ctx" for P ctx
proof unfold_locales
  fix rq ref m reason body hs
  show "env_only (ad_create_payment (MockProvider P ctx) rq)"
    "env_only (ad_refund (MockProvider P ctx) ref m reason)"
    by (auto simp: MockProvider_def mock_create_payment_def mock_refund_def
        intro!: env_onlyI keeps_intros new_reference_env)
  show "env_only (ad_capture (MockProvider P ctx) ref m)" "env_only (ad_cancel (MockProvider P ctx) ref)"
    by (auto simp: MockProvider_def mock_capture_def mock_cancel_def intro!: env_onlyI keeps_intros)
  show "reads_only (ad_verify_webhook (MockProvider P ctx) body hs)"
    by (auto simp: MockProvider_def mock_verify_webhook_def intro!: reads_onlyI verify_event_reads)
next
  fix rq w c v
  assume "ad_create_payment (MockProvider P ctx) rq w = (Inr c, v)" "0 \<le> minor_units (cr_amount rq)"
  then show "0 \<le> chg_amount_captured c \<and> chg_amount_captured c \<le> minor_units (cr_amount rq)"
    by (auto simp: MockProvider_def mock_create_payment_def op_splits split: if_splits)
next
  fix ref m w c v
  assume "ad_capture (MockProvider P ctx) ref m w = (Inr c, v)" "0 \<le> minor_units m"
  then show "0 \<le> chg_amount_captured c \<and> chg_amount_captured c \<le> minor_units m"
    by (auto simp: MockProvider_def mock_capture_def op_splits)
qed

lemma stripe_post_env: "keeps (\<lambda>v. \<exists>e. v = w\<lparr>env := e\<rparr>) (stripe_post P ctx path data key)"
proof -
  have "keeps (\<lambda>v. \<exists>e. v = w\<lparr>env := e\<rparr>) (http_call P rq)" for rq
    by (auto simp: keeps_def http_call_def split: prod.splits sum.splits)
  then show ?thesis unfolding stripe_post_def by (intro keeps_intros)
qed

lemma to_charge_env: "keeps (\<lambda>v. \<exists>e. v = w\<lparr>env := e\<rparr>) (to_charge P intent)"
  unfolding to_charge_def by (intro keeps_intros)

lemma stripe_verify_reads: "keeps (\<lambda>v. v = w) (stripe_verify_webhook P ctx body hs)"
  unfolding stripe_verify_webhook_def Let_def by (intro keeps_intros verify_event_reads)

interpretation stripe: payment_adapter "StripeProvider P ctx" for P ctx
proof unfold_locales
  fix rq ref m reason body hs
  show "env_only (ad_create_payment (StripeProvider P ctx) rq)"
    "env_only (ad_capture (StripeProvider P ctx) ref m)"
    "env_only (ad_cancel (StripeProvider P ctx) ref)"
    by (auto simp: StripeProvider_def stripe_create_payment_def stripe_capture_def stripe_cancel_def
        intro!: env_onlyI keeps_intros stripe_post_env to_charge_env)
  show "env_only (ad_refund (StripeProvider P ctx) ref m reason)"
    by (auto simp: StripeProvider_def stripe_refund_def simp del: append.simps
        intro!: env_onlyI keeps_intros stripe_post_env)
  show "reads_only (ad_verify_webhook (StripeProvider P ctx) body hs)"
    by (auto simp: StripeProvider_def intro!: reads_onlyI stripe_verify_reads)
qed

text \<open>
  Stripe's documented behaviour: a payment intent that was created or captured reports in
  \<open>amount_received\<close> a non-negative integer, at most the amount the request named.
\<close>

definition honest_stripe :: "'e platform \<Rightarrow> bool" where
  "honest_stripe P \<longleftrightarrow>
     (\<forall>rq e resp e' kvs v field m.
        http_post P rq e = (Inr resp, e') \<longrightarrow> rs_status_code resp < 400 \<longrightarrow>
        json_loads P (rs_text resp) = Inr (JObj kvs) \<longrightarrow> map_of kvs ''amount_received'' = Some v \<longrightarrow>
        field \<in> {''amount'', ''amount_to_capture''} \<longrightarrow> map_of (rq_data rq) field = Some (JInt m) \<longrightarrow>
        (\<exists>i. v = JInt i \<and> 0 \<le> i \<and> i \<le> m))"

lemma stripe_post_Inr:
  assumes "stripe_post P ctx path data key w = (Inr payload, v)"
  obtains client resp where
    "http_post P \<lparr> rq_client = client, rq_path = path, rq_data = data, rq_headers = stripe_headers ctx key \<rparr> (env w)
       = (Inr resp, env v)"
    and "rs_status_code resp < 400" and "json_loads P (rs_text resp) = Inr payload"
  using assms
  by (auto simp: stripe_post_def op_splits loads_Inr split: if_splits)

lemma to_charge_Inr:
  assumes "to_charge P intent w = (Inr c, v)"
  obtains kvs i where "intent = JObj kvs"
    and "py_int P (case map_of kvs ''amount_received'' of Some x \<Rightarrow> if truthy x then x else JInt 0 | None \<Rightarrow> JInt 0)
           = Inr (chg_amount_captured c)"
    and "map_of kvs ''id'' = Some i" and "chg_reference c = py_str i"
    and "status_lookup (case map_of kvs ''status'' of Some x \<Rightarrow> x | None \<Rightarrow> JStr []) = Inr (chg_status c)"
  using assms
  by (cases intent) (auto simp: to_charge_def op_splits json_get_def json_index_def split: option.splits if_splits)

text \<open>Metadata cannot reach Stripe's own fields: every metadata key is wrapped.\<close>

lemma map_of_metadata:
  assumes "\<not> starts_with ''metadata['' field"
  shows "map_of (fold (\<lambda>(k, v). dict_set (''metadata['' @ k @ '']'') v) md data) field = map_of data field"
  using assms
proof (induction md arbitrary: data)
  case Nil
  then show ?case by simp
next
  case (Cons kv md)
  obtain k v where kv: "kv = (k, v)" by (cases kv)
  have "field \<noteq> ''metadata['' @ k @ '']''" using Cons.prems by (auto simp: starts_with_def)
  then have "map_of (dict_set (''metadata['' @ k @ '']'') v data) field = map_of data field"
    by (auto simp only: map_of_dict_set fun_upd_apply split: if_splits)
  then show ?case using Cons kv by simp
qed

lemma charge_data_amount: "map_of (stripe_charge_data rq) ''amount'' = Some (JInt (minor_units (cr_amount rq)))"
  unfolding stripe_charge_data_def Let_def by (subst map_of_metadata) (simp_all add: starts_with_def)

lemma charged_within:
  assumes "honest_stripe P" and "stripe_post P ctx path data key w = (Inr intent, u)"
    and "to_charge P intent u' = (Inr c, v)"
    and "map_of data field = Some (JInt m)" and "field \<in> {''amount'', ''amount_to_capture''}" and "0 \<le> m"
  shows "0 \<le> chg_amount_captured c \<and> chg_amount_captured c \<le> m"
proof -
  obtain client resp where post: "http_post P \<lparr> rq_client = client, rq_path = path, rq_data = data,
      rq_headers = stripe_headers ctx key \<rparr> (env w) = (Inr resp, env u)"
    and ok: "rs_status_code resp < 400" and body: "json_loads P (rs_text resp) = Inr intent"
    using assms(2) by (rule stripe_post_Inr)
  obtain kvs where intent: "intent = JObj kvs"
    and amount: "py_int P (case map_of kvs ''amount_received'' of Some x \<Rightarrow> if truthy x then x else JInt 0 | None \<Rightarrow> JInt 0)
           = Inr (chg_amount_captured c)"
    using assms(3) by (rule to_charge_Inr)
  show ?thesis
  proof (cases "map_of kvs ''amount_received''")
    case None
    then show ?thesis using amount assms(6) by (simp add: py_int_def)
  next
    case (Some x)
    then obtain i where "x = JInt i" "0 \<le> i" "i \<le> m"
      using assms(1) [unfolded honest_stripe_def, rule_format, OF post ok _ Some assms(5)] body intent assms(4)
      by auto
    then show ?thesis using amount Some assms(6) by (auto simp: py_int_def split: if_splits)
  qed
qed

lemma stripe_sound:
  assumes "honest_stripe P"
  shows "sound_adapter (StripeProvider P ctx)"
proof (intro sound_adapter.intro sound_adapter_axioms.intro)
  show "payment_adapter (StripeProvider P ctx)" by (rule stripe.payment_adapter_axioms)
next
  fix rq w c v
  assume "ad_create_payment (StripeProvider P ctx) rq w = (Inr c, v)" "0 \<le> minor_units (cr_amount rq)"
  then show "0 \<le> chg_amount_captured c \<and> chg_amount_captured c \<le> minor_units (cr_amount rq)"
    using charged_within [OF assms _ _ charge_data_amount]
    by (auto simp: StripeProvider_def stripe_create_payment_def op_splits)
next
  fix ref m w c v
  assume "ad_capture (StripeProvider P ctx) ref m w = (Inr c, v)" "0 \<le> minor_units m"
  then show "0 \<le> chg_amount_captured c \<and> chg_amount_captured c \<le> minor_units m"
    using charged_within [OF assms, of ctx _ "[(''amount_to_capture'', JInt (minor_units m))]" _ _ _ _ _ _ _ "''amount_to_capture''"]
    by (auto simp: StripeProvider_def stripe_capture_def op_splits)
qed

lemma REGISTRY_eq: "REGISTRY = Inr [(MOCK, MockProviderClass), (STRIPE, StripeProviderClass)]"
  by (simp add: REGISTRY_def register_provider_def)

lemma verify_event_Inr:
  assumes "verify_event P secret header body w = (Inr ev, v)"
  shows "verify (unix_now P w) default_tolerance body header secret = Inr () \<and> v = w \<and>
    (\<exists>i t. json_loads P body = Inr (whk_payload ev) \<and> json_index (whk_payload ev) ''id'' = Inr i \<and>
       json_index (whk_payload ev) ''type'' = Inr t \<and> whk_event_id ev = py_str i \<and> whk_event_type ev = py_str t)"
  using assms by (auto simp: verify_event_def op_splits loads_Inr)

lemma mock_accepts_signed:
  assumes "json_loads P (json_dumps payload) = Inr payload"
    and "payload = JObj kvs" and "map_of kvs ''id'' = Some (JStr i)" and "map_of kvs ''type'' = Some (JStr t)"
    and "\<bar>unix_now P w - ts\<bar> \<le> 300" and "length (show_nat (nat \<bar>ts\<bar>)) \<le> 4300"
    and "build_signed_webhook P ctx payload (Some ts) w0 = (body, headers)"
  shows "ad_verify_webhook (MockProvider P ctx) body headers w =
    (Inr \<lparr> whk_event_id = i, whk_event_type = t, whk_payload = payload \<rparr>, w)"
proof -
  have "verify (unix_now P w) default_tolerance body (header_get headers MOCK_SIGNATURE_HEADER) (ctx_secret ctx) = Inr ()"
    using verify_sign [OF assms(6), of "unix_now P w" default_tolerance body "unix_now P w0" "ctx_secret ctx"]
      assms(5,7)
    by (auto simp: build_signed_webhook_def Let_def header_get_def default_tolerance_def)
  moreover have "body = json_dumps payload" using assms(7) by (auto simp: build_signed_webhook_def Let_def)
  ultimately show ?thesis
    using assms(1-4)
    by (simp add: MockProvider_def mock_verify_webhook_def verify_event_def op_simps loads_def json_index_def)
qed

text \<open>The sandbox platform with a JSON reader that knows one event, for the examples below.\<close>

definition ping_event :: json where
  "ping_event = JObj [(''id'', JStr ''evt_1''), (''type'', JStr ''ping'')]"

definition ping_platform :: "nat platform" where
  "ping_platform = sandbox\<lparr>json_loads := (\<lambda>s. Inr ping_event)\<rparr>"

definition ping_context :: ProviderContext where
  "ping_context = \<lparr>ctx_secret = ''s'', ctx_sandbox = True, ctx_config = [], ctx_http = None\<rparr>"

lemma ping_facts:
  "json_loads ping_platform (json_dumps ping_event) = Inr ping_event"
  "unix_now ping_platform (sandbox_world Map.empty) = 1700000000"
  "length (show_nat (nat \<bar>1700000000\<bar>)) \<le> 4300"
  by (simp_all add: ping_platform_def unix_now_def sandbox_def sandbox_world_def show_nat_step)

section \<open>Properties\<close>

text \<open>The body sent to Stripe for a charge names the amount in minor units, the currency, the
  capture method and the confirmation exactly as the request has them, whatever metadata the
  merchant attached: no metadata key can overwrite a field of Stripe's.\<close>

theorem stripe_charge_fields:
  "map_of (stripe_charge_data rq) ''amount'' = Some (JInt (minor_units (cr_amount rq))) \<and>
   map_of (stripe_charge_data rq) ''currency'' = Some (JStr (lower (currency (cr_amount rq)))) \<and>
   map_of (stripe_charge_data rq) ''capture_method'' =
     Some (JStr (if cr_capture_method rq = MANUAL then ''manual'' else ''automatic'')) \<and>
   map_of (stripe_charge_data rq) ''confirm'' = Some (JStr ''true'') \<and>
   map_of (stripe_charge_data rq) ''payment_method'' =
     (if nonempty (cr_payment_method_token rq) then Some (opt_str (cr_payment_method_token rq)) else None)"
  unfolding stripe_charge_data_def Let_def
  by (intro conjI; subst map_of_metadata) (simp_all add: starts_with_def)

text \<open>The webhook simulator and the sandbox adapter fit together: a webhook built for a
  payload, signed at a time within the tolerance of the receiver's clock, verifies under the
  same secret and yields the payload with its identifier and type, whenever the JSON reader
  reads back what the writer wrote.\<close>

theorem mock_webhook_roundtrip:
  assumes "json_loads P (json_dumps payload) = Inr payload"
    and "payload = JObj kvs" and "map_of kvs ''id'' = Some (JStr i)" and "map_of kvs ''type'' = Some (JStr t)"
    and "\<bar>unix_now P w - ts\<bar> \<le> 300" and "length (show_nat (nat \<bar>ts\<bar>)) \<le> 4300"
    and "build_signed_webhook P ctx payload (Some ts) w0 = (body, headers)"
  shows "ad_verify_webhook (MockProvider P ctx) body headers w =
    (Inr \<lparr> whk_event_id = i, whk_event_type = t, whk_payload = payload \<rparr>, w)"
  using assms by (rule mock_accepts_signed)

theorem mock_webhook_roundtrip_witness:
  "\<exists>body headers. build_signed_webhook ping_platform ping_context ping_event (Some 1700000000)
       (sandbox_world Map.empty) = (body, headers) \<and>
     ad_verify_webhook (MockProvider ping_platform ping_context) body headers (sandbox_world Map.empty) =
       (Inr \<lparr> whk_event_id = ''evt_1'', whk_event_type = ''ping'', whk_payload = ping_event \<rparr>,
        sandbox_world Map.empty)"
proof -
  obtain body headers where b: "build_signed_webhook ping_platform ping_context ping_event (Some 1700000000)
      (sandbox_world Map.empty) = (body, headers)" by fastforce
  from mock_webhook_roundtrip [OF ping_facts(1) ping_event_def _ _ _ ping_facts(3) b,
      of "''evt_1''" "''ping''" "sandbox_world Map.empty"]
  show ?thesis using b ping_facts(2) by auto
qed

text \<open>C33. Webhooks are authentic: whichever adapter accepts a delivery, the signature header
  carries the HMAC-SHA256 of exactly this body under the adapter's secret, with a timestamp at
  most 300 seconds from the clock, and the event is what the JSON reader makes of the body.\<close>

theorem accepted_webhook_authentic:
  "(ad_verify_webhook (MockProvider P ctx) body headers w = (Inr ev, v) \<longrightarrow>
      (\<exists>ts sigs. parse_header (header_get headers MOCK_SIGNATURE_HEADER) = Inr (ts, sigs) \<and>
         compute (ctx_secret ctx) ts body \<in> set sigs \<and> \<bar>unix_now P w - ts\<bar> \<le> 300 \<and>
         json_loads P body = Inr (whk_payload ev))) \<and>
   (ad_verify_webhook (StripeProvider P ctx) body headers w = (Inr ev, v) \<longrightarrow>
      (\<exists>secret ts sigs. stripe_webhook_secret ctx = Inr secret \<and>
         parse_header (header_get headers STRIPE_SIGNATURE_HEADER) = Inr (ts, sigs) \<and>
         compute secret ts body \<in> set sigs \<and> \<bar>unix_now P w - ts\<bar> \<le> 300 \<and>
         json_loads P body = Inr (whk_payload ev)))"
proof -
  have key: "\<exists>ts sigs. parse_header header = Inr (ts, sigs) \<and> compute secret ts body \<in> set sigs \<and>
      \<bar>unix_now P w - ts\<bar> \<le> 300 \<and> json_loads P body = Inr (whk_payload ev)"
    if "verify_event P secret header body w = (Inr ev, v)" for secret header
    using verify_event_Inr [OF that] unfolding accepted_iff default_tolerance_def by fastforce
  show ?thesis
  proof (intro conjI impI)
    assume "ad_verify_webhook (StripeProvider P ctx) body headers w = (Inr ev, v)"
    then obtain secret where secret: "stripe_webhook_secret ctx = Inr secret"
      and ev: "verify_event P secret (header_get headers STRIPE_SIGNATURE_HEADER) body w = (Inr ev, v)"
      by (auto simp: StripeProvider_def stripe_verify_webhook_def Let_def verify_unusable_secret_def op_splits
          split: sum.splits if_splits)
    from key [OF ev] secret show "\<exists>secret ts sigs. stripe_webhook_secret ctx = Inr secret \<and>
         parse_header (header_get headers STRIPE_SIGNATURE_HEADER) = Inr (ts, sigs) \<and>
         compute secret ts body \<in> set sigs \<and> \<bar>unix_now P w - ts\<bar> \<le> 300 \<and>
         json_loads P body = Inr (whk_payload ev)" by blast
  qed (auto simp: MockProvider_def mock_verify_webhook_def dest: key)
qed

theorem accepted_webhook_authentic_witness:
  "\<exists>body headers ts sigs ev. ad_verify_webhook (MockProvider ping_platform ping_context) body headers
       (sandbox_world Map.empty) = (Inr ev, sandbox_world Map.empty) \<and>
     parse_header (header_get headers MOCK_SIGNATURE_HEADER) = Inr (ts, sigs) \<and>
     compute ''s'' ts body \<in> set sigs"
proof -
  obtain body headers where b: "build_signed_webhook ping_platform ping_context ping_event (Some 1700000000)
      (sandbox_world Map.empty) = (body, headers)" by fastforce
  have "ad_verify_webhook (MockProvider ping_platform ping_context) body headers (sandbox_world Map.empty) =
       (Inr \<lparr> whk_event_id = ''evt_1'', whk_event_type = ''ping'', whk_payload = ping_event \<rparr>,
        sandbox_world Map.empty)"
    using mock_accepts_signed [OF ping_facts(1) ping_event_def _ _ _ ping_facts(3) b,
      of "''evt_1''" "''ping''" "sandbox_world Map.empty"] ping_facts(2) by simp
  moreover have "ctx_secret ping_context = ''s''" by (simp add: ping_context_def)
  ultimately show ?thesis using accepted_webhook_authentic [of ping_platform ping_context body headers
        "sandbox_world Map.empty"] by metis
qed

end
