(* ===== verification/Credentials.thy ===== *)
theory Credentials
  imports Base64 Config Providers "HOL-Library.Countable"
begin

text \<open>
  Credentials: \<open>uuid.UUID(s)\<close> of the standard library, passwords (\<^verbatim>\<open>app/security/passwords.py\<close>), API
  keys (\<^verbatim>\<open>app/security/api_keys.py\<close>) and JWTs (\<^verbatim>\<open>app/security/tokens.py\<close>).  The password hasher
  and the token library are functions of the platform.
\<close>

section \<open>Reading identifiers\<close>

text \<open>\<open>s.replace(p, "")\<close> for a non-empty \<open>p\<close>.\<close>

function remove_all :: "string \<Rightarrow> string \<Rightarrow> string" where
  "remove_all p s =
     (if s = [] then []
      else if p \<noteq> [] \<and> starts_with p s then remove_all p (drop (length p) s)
      else hd s # remove_all p (tl s))"
  by pat_completeness auto
termination
  by (relation "measure (length \<circ> snd)") auto

declare remove_all.simps [simp del]

lemma remove_all_none: "\<lbrakk>c \<in> set p; c \<notin> set s\<rbrakk> \<Longrightarrow> remove_all p s = s"
proof (induction s)
  case Nil
  then show ?case by (simp add: remove_all.simps)
next
  case (Cons x s)
  have "\<not> starts_with p (x # s)"
    using Cons.prems by (metis starts_with_def in_set_takeD)
  then show ?case using Cons by (subst remove_all.simps) simp
qed

definition strip_chars :: "char list \<Rightarrow> string \<Rightarrow> string" where
  "strip_chars cs s = rev (dropWhile (\<lambda>c. c \<in> set cs) (rev (dropWhile (\<lambda>c. c \<in> set cs) s)))"

fun hex_with_underscores :: "bool \<Rightarrow> string \<Rightarrow> bool" where
  "hex_with_underscores prev [] = prev"
| "hex_with_underscores prev (c # cs) =
     (if hex_val c \<noteq> None then hex_with_underscores True cs
      else c = CHR ''_'' \<and> prev \<and> hex_with_underscores False cs)"

definition hex_number :: "string \<Rightarrow> nat" where
  "hex_number s = foldl (\<lambda>acc d. 16 * acc + d) 0 (List.map_filter hex_val s)"

definition int_of_hex :: "string \<Rightarrow> int option" where
  \<comment> \<open>\<open>int(s, 16)\<close>\<close>
  "int_of_hex s =
     (let t = strip s;
          neg = (take 1 t = ''-'');
          body = (if take 1 t = ''-'' \<or> take 1 t = ''+'' then drop 1 t else t);
          body = (if take 2 body = ''0x'' \<or> take 2 body = ''0X''
                  then (if take 1 (drop 2 body) = ''_'' then drop 3 body else drop 2 body) else body)
      in if hex_with_underscores False body
         then Some (if neg then - int (hex_number body) else int (hex_number body))
         else None)"

definition UUID :: "string \<Rightarrow> uuid result" where
  "UUID s =
     (let h = filter (\<lambda>c. c \<noteq> CHR ''-'') (strip_chars [CHR 0x7B, CHR 0x7D]
                (remove_all ''uuid:'' (remove_all ''urn:'' s)))
      in if length h \<noteq> 32 then Inl (Py ValueError)
         else (case int_of_hex h of
                 None \<Rightarrow> Inl (Py ValueError)
               | Some i \<Rightarrow> if 0 \<le> i \<and> i < 2 ^ 128 then Inr (word_of_int i) else Inl (Py ValueError)))"

lemma hex_val_is_hex: "is_hex_char c \<Longrightarrow> hex_val c \<noteq> None"
  by (auto simp: hex_val_def is_hex_char_def Let_def)

lemma hex_all: "\<forall>c \<in> set s. is_hex_char c \<Longrightarrow> hex_with_underscores prev s \<longleftrightarrow> prev \<or> s \<noteq> []"
  by (induction s arbitrary: prev) (auto simp: hex_val_is_hex)

lemma map_filter_hex: "\<forall>i \<in> set is. f i < 16 \<Longrightarrow> List.map_filter hex_val (map (\<lambda>i. hex_char (f i)) is) = map f is"
  by (induction "is") (auto simp: List.map_filter_simps)

lemma base16: "foldl (\<lambda>acc d. 16 * acc + d) a (map (\<lambda>i. n div 16 ^ i mod 16) (rev [0..<k])) = a * 16 ^ k + n mod (16::nat) ^ k"
proof (induction k arbitrary: a)
  case (Suc k)
  have "n mod 16 ^ Suc k = 16 ^ k * (n div 16 ^ k mod 16) + n mod 16 ^ k"
    using mod_mult2_eq [of n "16 ^ k" 16] by (simp add: mult.commute)
  then show ?case using Suc [of "16 * a + n div 16 ^ k mod 16"] by (simp add: algebra_simps)
qed simp

lemma uuid_hex_number: "hex_number (uuid_hex u) = unat u"
proof -
  have "hex_number (uuid_hex u) = unat u mod 16 ^ 32"
    unfolding hex_number_def uuid_hex_def by (subst map_filter_hex) (simp_all only: base16, simp_all)
  then show ?thesis using unsigned_less [of u, where ?'a = nat] by simp
qed

lemma uuid_hex_chars: "c \<in> set (uuid_hex u) \<Longrightarrow> is_hex_char c"
  by (auto simp: uuid_hex_def)

lemma length_uuid_hex [simp]: "length (uuid_hex u) = 32"
  by (simp add: uuid_hex_def)

lemma uuid_str_chars: "c \<in> set (uuid_str u) \<Longrightarrow> is_hex_char c \<or> c = CHR ''-''"
  by (auto simp: uuid_str_def Let_def dest!: in_set_takeD in_set_dropD uuid_hex_chars)

lemma is_hex_char_excludes: "is_hex_char c \<Longrightarrow> c \<noteq> CHR ''-''" "is_hex_char c \<Longrightarrow> \<not> is_space c"
  by (auto simp: is_hex_char_def is_space_def Let_def)

lemma filter_uuid_str: "filter (\<lambda>c. c \<noteq> CHR ''-'') (uuid_str u) = uuid_hex u"
proof -
  have *: "filter (\<lambda>c. c \<noteq> CHR ''-'') xs = xs" if "set xs \<subseteq> set (uuid_hex u)" for xs
    using that is_hex_char_excludes(1) uuid_hex_chars by (auto simp: filter_id_conv)
  let ?h = "uuid_hex u"
  have parts: "set (take 8 ?h) \<subseteq> set ?h" "set (take 4 (drop n ?h)) \<subseteq> set ?h" "set (drop n ?h) \<subseteq> set ?h" for n
    by (auto dest: in_set_takeD in_set_dropD)
  have "filter (\<lambda>c. c \<noteq> CHR ''-'') (uuid_str u) =
      take 8 ?h @ take 4 (drop 8 ?h) @ take 4 (drop 12 ?h) @ take 4 (drop 16 ?h) @ drop 20 ?h"
    by (simp add: uuid_str_def Let_def * parts)
  also have "\<dots> = ?h"
    using take_add [of 8 4 ?h] take_add [of 12 4 ?h] take_add [of 16 4 ?h] append_take_drop_id [of 20 ?h] by simp
  finally show ?thesis .
qed

lemma strip_chars_none: "(\<And>c. c \<in> set s \<Longrightarrow> c \<notin> set cs) \<Longrightarrow> strip_chars cs s = s"
  using dropWhile_none [of s "\<lambda>c. c \<in> set cs"] dropWhile_none [of "rev s" "\<lambda>c. c \<in> set cs"]
  by (simp add: strip_chars_def)

lemma take_mem: "take n s = t \<Longrightarrow> c \<in> set t \<Longrightarrow> c \<in> set s"
  by (metis in_set_takeD)

lemma int_of_hex_plain:
  assumes "\<forall>c \<in> set h. is_hex_char c" and "h \<noteq> []"
  shows "int_of_hex h = Some (int (hex_number h))"
proof -
  have no: "CHR ''-'' \<notin> set h" "CHR ''+'' \<notin> set h" "CHR ''x'' \<notin> set h" "CHR ''X'' \<notin> set h"
    using assms(1) by (auto dest!: bspec simp: is_hex_char_def)
  have "strip h = h" by (rule strip_none) (use assms(1) is_hex_char_excludes(2) in blast)
  moreover have "take 1 h \<noteq> ''-''" using take_mem [of 1 h "''-''" "CHR ''-''"] no(1) by (metis list.set_intros(1))
  moreover have "take 1 h \<noteq> ''+''" using take_mem [of 1 h "''+''" "CHR ''+''"] no(2) by (metis list.set_intros(1))
  moreover have "take 2 h \<noteq> ''0x''" using take_mem [of 2 h "''0x''" "CHR ''x''"] no(3) by (metis list.set_intros)
  moreover have "take 2 h \<noteq> ''0X''" using take_mem [of 2 h "''0X''" "CHR ''X''"] no(4) by (metis list.set_intros)
  moreover have "hex_with_underscores False h" using hex_all [OF assms(1)] assms(2) by simp
  ultimately show ?thesis unfolding int_of_hex_def by (simp only: Let_def if_False if_True simp_thms)
qed

lemma UUID_str [simp]: "UUID (uuid_str u) = Inr u"
proof -
  have chars: "c \<notin> set (uuid_str u)" if "c \<in> {CHR '':'', CHR 0x7B, CHR 0x7D}" for c
    using that uuid_str_chars [of c u] by (auto simp: is_hex_char_def)
  have "CHR '':'' \<in> set ''urn:''" "CHR '':'' \<in> set ''uuid:''" "CHR '':'' \<notin> set (uuid_str u)" by (simp_all add: chars)
  then have "remove_all ''urn:'' (uuid_str u) = uuid_str u" "remove_all ''uuid:'' (uuid_str u) = uuid_str u"
    using remove_all_none by metis+
  moreover have "strip_chars [CHR 0x7B, CHR 0x7D] (uuid_str u) = uuid_str u"
    by (rule strip_chars_none) (use chars in auto)
  moreover have "int (unat u) < 2 ^ 128" using unsigned_less [of u, where ?'a = int] by simp
  moreover have "int_of_hex (uuid_hex u) = Some (int (unat u))"
    using int_of_hex_plain [of "uuid_hex u"] uuid_hex_chars by (simp add: uuid_hex_number flip: length_0_conv)
  ultimately show ?thesis by (simp add: UUID_def filter_uuid_str)
qed

section \<open>Passwords\<close>

definition hash_password :: "'e platform \<Rightarrow> string \<Rightarrow> ('e world, exc, string) op" where
  "hash_password P plain =
     andThen (ensure (plain \<noteq> []) (Py ValueError)) (\<lambda>_.
     (\<lambda>w. case argon2_hash P plain (env w) of (h, e) \<Rightarrow> (Inr h, w\<lparr>env := e\<rparr>)))"

definition is_value_error :: "py_exc \<Rightarrow> bool" where
  "is_value_error x \<longleftrightarrow> x \<in> {ValueError, UnicodeError, JSONDecodeError, InvalidHashError}"

definition verify_password :: "'e platform \<Rightarrow> string \<Rightarrow> string \<Rightarrow> bool result" where
  "verify_password P plain hashed =
     (case argon2_verify P hashed plain of
        Inr b \<Rightarrow> Inr b
      | Inl x \<Rightarrow> if x = VerifyMismatchError \<or> is_value_error x then Inr False else Inl (Py x))"

definition needs_rehash :: "'e platform \<Rightarrow> string \<Rightarrow> bool result" where
  "needs_rehash P hashed =
     (case argon2_needs_rehash P hashed of
        Inr b \<Rightarrow> Inr b
      | Inl x \<Rightarrow> if x = InvalidHashError then Inr True else Inl (Py x))"

section \<open>API keys\<close>

record GeneratedApiKey =
  gen_full_key :: string
  gen_lookup_hash :: string
  gen_display_prefix :: string

definition hash_key :: "string \<Rightarrow> string" where
  "hash_key full_key = hexdigest (sha256 (utf8 full_key))"

definition token_urlsafe :: "'e platform \<Rightarrow> nat \<Rightarrow> ('e world, exc, string) op" where
  \<comment> \<open>\<open>secrets.token_urlsafe(n)\<close>: URL-safe base64 without padding\<close>
  "token_urlsafe P n = (\<lambda>w. case urandom P n (env w) of (bytes, e) \<Rightarrow>
     (Inr (rev (dropWhile (\<lambda>c. c = CHR ''='') (rev (b64encode bytes)))), w\<lparr>env := e\<rparr>))"

definition ellipsis :: string where
  \<comment> \<open>the character U+2026, as its UTF-8 bytes\<close>
  "ellipsis = [CHR 0xE2, CHR 0x80, CHR 0xA6]"

definition generate_api_key :: "'e platform \<Rightarrow> string \<Rightarrow> ('e world, exc, GeneratedApiKey) op" where
  "generate_api_key P prefix =
     andThen (token_urlsafe P 32) (\<lambda>secret.
     let full_key = prefix @ ''_'' @ secret
     in return \<lparr> gen_full_key = full_key, gen_lookup_hash = hash_key full_key,
                 gen_display_prefix = prefix @ ''_'' @ take 8 secret @ ellipsis \<rparr>)"

definition hash_for_lookup :: "string \<Rightarrow> string" where
  "hash_for_lookup full_key = hash_key full_key"

definition verify_api_key :: "string \<Rightarrow> string \<Rightarrow> bool result" where
  "verify_api_key full_key stored_hash = compare_digest (hash_key full_key) stored_hash"

section \<open>Tokens\<close>

datatype TokenType = ACCESS | REFRESH

fun TokenType_value :: "TokenType \<Rightarrow> string" where
  "TokenType_value ACCESS = ''access''"
| "TokenType_value REFRESH = ''refresh''"

fun jwt_alg_value :: "jwt_alg \<Rightarrow> string" where
  "jwt_alg_value HS256 = ''HS256''"
| "jwt_alg_value HS384 = ''HS384''"
| "jwt_alg_value HS512 = ''HS512''"

record TokenClaims =
  tkc_subject :: string
  tkc_token_type :: TokenType
  tkc_jti :: string
  tkc_expires_at :: int
  tkc_scopes :: "json list"
  tkc_raw :: json

definition token_payload :: "Settings \<Rightarrow> string \<Rightarrow> TokenType \<Rightarrow> int \<Rightarrow> string list \<Rightarrow> int \<Rightarrow> string \<Rightarrow> json" where
  "token_payload s subject token_type ttl_seconds scopes issued_at jti = JObj
     [(''sub'', JStr subject), (''type'', JStr (TokenType_value token_type)), (''scopes'', JArr (map JStr scopes)),
      (''iss'', JStr (jwt_issuer s)), (''aud'', JStr (jwt_audience s)), (''iat'', JInt issued_at),
      (''nbf'', JInt issued_at), (''exp'', JInt (issued_at + ttl_seconds)), (''jti'', JStr jti)]"

definition issue ::
  "'e platform \<Rightarrow> Settings \<Rightarrow> string \<Rightarrow> TokenType \<Rightarrow> int \<Rightarrow> string list \<Rightarrow> ('e world, exc, string) op" where
  "issue P s subject token_type ttl_seconds scopes = (\<lambda>w.
     case uuid4 P (env w) of (jti, e) \<Rightarrow>
       (Inr (jwt_encode P (token_payload s subject token_type ttl_seconds scopes (unix_now P w) (uuid_hex jti))
               (jwt_secret_key s) (jwt_alg_value (jwt_algorithm s))), w\<lparr>env := e\<rparr>))"

definition create_access_token :: "'e platform \<Rightarrow> Settings \<Rightarrow> string \<Rightarrow> string list \<Rightarrow> ('e world, exc, string) op" where
  "create_access_token P s subject scopes = issue P s subject ACCESS (access_token_ttl_seconds s) scopes"

definition create_refresh_token :: "'e platform \<Rightarrow> Settings \<Rightarrow> string \<Rightarrow> ('e world, exc, string) op" where
  "create_refresh_token P s subject = issue P s subject REFRESH (refresh_token_ttl_seconds s) []"

definition fromtimestamp :: "'e platform \<Rightarrow> json \<Rightarrow> int result" where
  \<comment> \<open>\<open>datetime.fromtimestamp(v, tz=UTC)\<close>, in whole seconds; years 1 to 9999\<close>
  "fromtimestamp P v =
     (let seconds = (case v of
          JInt i \<Rightarrow> Inr i
        | JBool b \<Rightarrow> Inr (of_bool b)
        | JFloat r \<Rightarrow> (case int_of_float P r of Inr i \<Rightarrow> Inr i | Inl x \<Rightarrow> Inl (Py x))
        | _ \<Rightarrow> Inl (Py TypeError))
      in case seconds of
           Inl e \<Rightarrow> Inl e
         | Inr i \<Rightarrow> if -62135596800 \<le> i \<and> i \<le> 253402300799 then Inr i else Inl (Py ValueError))"

definition py_tuple :: "json \<Rightarrow> json list result" where
  \<comment> \<open>\<open>tuple(v)\<close>\<close>
  "py_tuple v =
     (case v of
        JArr xs \<Rightarrow> Inr xs
      | JStr s \<Rightarrow> Inr (map (\<lambda>c. JStr [c]) s)
      | JObj kvs \<Rightarrow> Inr (map (JStr \<circ> fst) kvs)
      | _ \<Rightarrow> Inl (Py TypeError))"

definition bad_token :: "py_exc \<Rightarrow> exc" where
  "bad_token x =
     (if x = ExpiredSignatureError then err AuthenticationError ''Token has expired''
      else if x = InvalidTokenError then err AuthenticationError ''Invalid authentication token''
      else Py x)"

definition wrong_type :: "TokenType \<Rightarrow> json \<Rightarrow> exc" where
  "wrong_type expected received =
     err AuthenticationError (''Expected a '' @ TokenType_value expected @ '' token but received '' @ py_repr received)"

definition decode :: "'e platform \<Rightarrow> Settings \<Rightarrow> string \<Rightarrow> TokenType \<Rightarrow> ('e world, exc, TokenClaims) op" where
  "decode P s token expected_type =
     andThen (gets (\<lambda>w. jwt_decode P token (jwt_secret_key s) (jwt_alg_value (jwt_algorithm s)) (jwt_issuer s)
                (jwt_audience s) [''exp'', ''iat'', ''sub'', ''jti''] (env w))) (\<lambda>decoded.
     case decoded of
       Inl x \<Rightarrow> throw (bad_token x)
     | Inr payload \<Rightarrow>
         andThen (lift_result (json_get payload ''type'' JNull)) (\<lambda>ty.
         andThen (ensure (ty = JStr (TokenType_value expected_type)) (wrong_type expected_type ty)) (\<lambda>_.
         andThen (lift_result (json_index payload ''sub'')) (\<lambda>sub.
         andThen (lift_result (json_index payload ''jti'')) (\<lambda>jti.
         andThen (lift_result (json_index payload ''exp'')) (\<lambda>exp.
         andThen (lift_result (fromtimestamp P exp)) (\<lambda>expires_at.
         andThen (lift_result (json_get payload ''scopes'' (JArr []))) (\<lambda>sc.
         andThen (lift_result (py_tuple sc)) (\<lambda>scopes.
         return \<lparr> tkc_subject = py_str sub, tkc_token_type = expected_type, tkc_jti = py_str jti,
                  tkc_expires_at = expires_at, tkc_scopes = scopes, tkc_raw = payload \<rparr>)))))))))"

section \<open>What the token library promises\<close>

text \<open>
  The documented behaviour of \<open>jwt.encode\<close> and \<open>jwt.decode\<close>: a token decodes under the key and
  algorithm it was made with to its payload, provided issuer and audience are the expected ones,
  the required claims are there and the clock is between \<open>nbf\<close>, \<open>iat\<close> and \<open>exp\<close>; after \<open>exp\<close> it
  is an expired signature.
\<close>

definition jwt_faithful :: "'e platform \<Rightarrow> bool" where
  "jwt_faithful P \<longleftrightarrow>
     (\<forall>kvs key alg iss aud required iat nbf exp e.
        map_of kvs ''iss'' = Some (JStr iss) \<longrightarrow> map_of kvs ''aud'' = Some (JStr aud) \<longrightarrow>
        map_of kvs ''iat'' = Some (JInt iat) \<longrightarrow> map_of kvs ''nbf'' = Some (JInt nbf) \<longrightarrow>
        map_of kvs ''exp'' = Some (JInt exp) \<longrightarrow> set required \<subseteq> fst ` set kvs \<longrightarrow>
        of_int iat \<le> time_time P e \<longrightarrow> of_int nbf \<le> time_time P e \<longrightarrow>
        jwt_decode P (jwt_encode P (JObj kvs) key alg) key alg iss aud required e =
          (if time_time P e < of_int exp then Inr (JObj kvs) else Inl ExpiredSignatureError))"

lemma decode_reads: "decode P s token ty w = (r, v) \<Longrightarrow> v = w"
proof -
  have "keeps (\<lambda>v. v = w) (decode P s token ty)" for w
    by (auto simp: decode_def intro!: keeps_intros)
  then show "decode P s token ty w = (r, v) \<Longrightarrow> v = w" by (rule keepsD) auto
qed

text \<open>A decoded token is of the type that was asked for.\<close>

lemma decode_Inr:
  assumes "decode P s token ty w = (Inr claims, v)"
  shows "v = w \<and> (\<exists>kvs sub. tkc_raw claims = JObj kvs \<and> map_of kvs ''type'' = Some (JStr (TokenType_value ty)) \<and>
    map_of kvs ''sub'' = Some sub \<and> tkc_subject claims = py_str sub \<and>
    jwt_decode P token (jwt_secret_key s) (jwt_alg_value (jwt_algorithm s)) (jwt_issuer s) (jwt_audience s)
      [''exp'', ''iat'', ''sub'', ''jti''] (env w) = Inr (JObj kvs))"
  using assms decode_reads [OF assms]
  by (auto simp: decode_def op_splits json_get_def json_index_def split: json.splits sum.splits option.splits)

lemma issued_token:
  assumes "issue P s subject ty ttl scopes w = (Inr token, v)"
  obtains jti where "token = jwt_encode P (token_payload s subject ty ttl scopes (unix_now P w) jti)
      (jwt_secret_key s) (jwt_alg_value (jwt_algorithm s))"
    and "\<exists>e. v = w\<lparr>env := e\<rparr>"
  using assms by (auto simp: issue_def split: prod.splits)

lemma decode_issued:
  assumes "issue P s subject ty ttl scopes w = (Inr token, v)" and "jwt_faithful P"
    and "of_int (unix_now P w) \<le> time_time P (env u)"
  obtains jti where "jwt_decode P token (jwt_secret_key s) (jwt_alg_value (jwt_algorithm s)) (jwt_issuer s)
      (jwt_audience s) [''exp'', ''iat'', ''sub'', ''jti''] (env u) =
    (if time_time P (env u) < of_int (unix_now P w + ttl)
     then Inr (token_payload s subject ty ttl scopes (unix_now P w) jti) else Inl ExpiredSignatureError)"
proof -
  obtain jti where tok: "token = jwt_encode P (token_payload s subject ty ttl scopes (unix_now P w) jti)
      (jwt_secret_key s) (jwt_alg_value (jwt_algorithm s))" using assms(1) by (rule issued_token)
  show thesis
    by (rule that [of jti], unfold tok token_payload_def, rule assms(2) [unfolded jwt_faithful_def, rule_format])
      (use assms(3) in simp_all)
qed

lemma TokenType_value_inject [simp]: "TokenType_value a = TokenType_value b \<longleftrightarrow> a = b"
  by (cases a; cases b; simp)

text \<open>An issued token, read back.\<close>

lemma token_read_back:
  assumes "issue P s subject ty ttl scopes w = (Inr token, v)" and "jwt_faithful P"
    and "of_int (unix_now P w) \<le> time_time P (env u)"
    and "0 \<le> unix_now P w + ttl" and "unix_now P w + ttl \<le> 253402300799"
  shows "if time_time P (env u) < of_int (unix_now P w + ttl)
    then (if ty' = ty
          then \<exists>claims. decode P s token ty' u = (Inr claims, u) \<and> tkc_subject claims = subject \<and>
                 tkc_scopes claims = map JStr scopes \<and> tkc_expires_at claims = unix_now P w + ttl
          else decode P s token ty' u = (Inl (wrong_type ty' (JStr (TokenType_value ty))), u))
    else decode P s token ty' u = (Inl (err AuthenticationError ''Token has expired''), u)"
proof -
  obtain jti where "jwt_decode P token (jwt_secret_key s) (jwt_alg_value (jwt_algorithm s)) (jwt_issuer s)
      (jwt_audience s) [''exp'', ''iat'', ''sub'', ''jti''] (env u) =
    (if time_time P (env u) < of_int (unix_now P w + ttl)
     then Inr (token_payload s subject ty ttl scopes (unix_now P w) jti) else Inl ExpiredSignatureError)"
    using assms(1-3) by (rule decode_issued)
  then show ?thesis
    using assms(4,5)
    by (simp add: decode_def op_simps token_payload_def json_index_def fromtimestamp_def py_tuple_def bad_token_def
        ensure_def)
qed

section \<open>A platform with working tokens\<close>

text \<open>
  For examples: a token is the number of its payload, key and algorithm; the reader checks key,
  algorithm, issuer, audience and expiry.
\<close>

instance json :: countable
  by countable_datatype

definition demo_encode :: "json \<Rightarrow> string \<Rightarrow> string \<Rightarrow> string" where
  "demo_encode payload key alg = show_nat (to_nat (payload, key, alg))"

definition demo_decode ::
  "string \<Rightarrow> string \<Rightarrow> string \<Rightarrow> string \<Rightarrow> string \<Rightarrow> string list \<Rightarrow> nat \<Rightarrow> py_exc + json" where
  "demo_decode token key alg iss aud required n =
     (case from_nat (digits_val token) :: json \<times> string \<times> string of
        (JObj kvs, key', alg') \<Rightarrow>
          (case map_of kvs ''exp'' of
             Some (JInt expiry) \<Rightarrow>
               if key' \<noteq> key \<or> alg' \<noteq> alg \<or> map_of kvs ''iss'' \<noteq> Some (JStr iss) \<or> map_of kvs ''aud'' \<noteq> Some (JStr aud)
               then Inl InvalidTokenError
               else if time_time sandbox n < of_int expiry then Inr (JObj kvs) else Inl ExpiredSignatureError
           | _ \<Rightarrow> Inl InvalidTokenError)
      | _ \<Rightarrow> Inl InvalidTokenError)"

definition token_sandbox :: "nat platform" where
  "token_sandbox = sandbox\<lparr>jwt_encode := demo_encode, jwt_decode := demo_decode\<rparr>"

lemma token_sandbox_faithful: "jwt_faithful token_sandbox"
  by (auto simp: jwt_faithful_def token_sandbox_def demo_encode_def demo_decode_def)

end
