(* ===== verification/Crypto.thy ===== *)
theory Crypto
  imports World Base64
begin

text \<open>
  Envelope encryption of provider credentials, \<^verbatim>\<open>app/security/crypto.py\<close>.  AES-256-GCM is a
  function of the platform; key selection, framing, base64 and the treatment of failures are
  the program's.
\<close>

section \<open>SecretBox\<close>

record SecretBox =
  box_keys :: "(string \<times> string) list"
  box_active_key_id :: string

definition NONCE_BYTES :: nat where
  "NONCE_BYTES = 12"

definition VERSION :: string where
  "VERSION = [CHR 0x01]"

definition SecretBox_init :: "(string \<times> string) list \<Rightarrow> string \<Rightarrow> SecretBox result" where
  "SecretBox_init ks active =
     (if map_of ks active = None then Inl (Py ValueError)
      else if \<exists>(kid, key) \<in> set ks. length key \<noteq> 32 then Inl (Py ValueError)
      else Inr \<lparr> box_keys = ks, box_active_key_id = active \<rparr>)"

definition from_single_key :: "string \<Rightarrow> string \<Rightarrow> SecretBox result" where
  "from_single_key key kid = SecretBox_init [(kid, key)] kid"

definition aad_bytes :: "string option \<Rightarrow> string option" where
  \<comment> \<open>\<open>aad.encode() if aad else None\<close>\<close>
  "aad_bytes aad = (case aad of None \<Rightarrow> None | Some a \<Rightarrow> if a = [] then None else Some (utf8 a))"

definition encrypt ::
  "'e platform \<Rightarrow> SecretBox \<Rightarrow> string \<Rightarrow> string option \<Rightarrow> ('e world, exc, string) op" where
  "encrypt P box plaintext aad = (\<lambda>w.
     case map_of (box_keys box) (box_active_key_id box) of
       None \<Rightarrow> (Inl (Py (KeyError (box_active_key_id box))), w)
     | Some key \<Rightarrow>
         (case urandom P NONCE_BYTES (env w) of (nonce, e) \<Rightarrow>
            let ct = aesgcm_encrypt P key nonce (utf8 plaintext) (aad_bytes aad);
                kid = utf8 (box_active_key_id box)
            in if length kid > 255 then (Inl (Py ValueError), w\<lparr>env := e\<rparr>)
               else (Inr (b64encode (VERSION @ [char_of (length kid)] @ kid @ nonce @ ct)), w\<lparr>env := e\<rparr>)))"

text \<open>\<open>except (InvalidTag, IndexError, ValueError)\<close>, with the subclasses of \<open>ValueError\<close>.\<close>

fun decrypt_catches :: "exc \<Rightarrow> bool" where
  "decrypt_catches (Py InvalidTag) = True"
| "decrypt_catches (Py IndexError) = True"
| "decrypt_catches (Py ValueError) = True"
| "decrypt_catches (Py UnicodeError) = True"
| "decrypt_catches (Py JSONDecodeError) = True"
| "decrypt_catches (Py (DecryptionError m)) = True"
| "decrypt_catches (Py (CurrencyError m)) = True"
| "decrypt_catches _ = False"

definition decrypt_blob :: "'e platform \<Rightarrow> SecretBox \<Rightarrow> string \<Rightarrow> string option \<Rightarrow> string result" where
  "decrypt_blob P box blob aad =
     (if take 1 blob \<noteq> VERSION then Inl (Py (DecryptionError ''unsupported ciphertext version''))
      else if length blob < 2 then Inl (Py IndexError)
      else
        let kid_len = of_char (blob ! 1) :: nat
        in case utf8_decode (take kid_len (drop 2 blob)) of
             Inl e \<Rightarrow> Inl e
           | Inr kid \<Rightarrow>
               let nonce = take NONCE_BYTES (drop (2 + kid_len) blob);
                   ct = drop (2 + kid_len + NONCE_BYTES) blob
               in case map_of (box_keys box) kid of
                    None \<Rightarrow> Inl (Py (DecryptionError (''unknown key id '' @ repr_str kid)))
                  | Some key \<Rightarrow>
                      (case aesgcm_decrypt P key nonce ct (aad_bytes aad) of
                         Inl e \<Rightarrow> Inl (Py e)
                       | Inr plaintext \<Rightarrow> utf8_decode plaintext))"

definition decrypt :: "'e platform \<Rightarrow> SecretBox \<Rightarrow> string \<Rightarrow> string option \<Rightarrow> string result" where
  "decrypt P box token aad =
     (case (case b64decode token of Inl e \<Rightarrow> Inl e | Inr blob \<Rightarrow> decrypt_blob P box blob aad) of
        Inr s \<Rightarrow> Inr s
      | Inl e \<Rightarrow> if decrypt_catches e then Inl (Py (DecryptionError ''failed to decrypt secret'')) else Inl e)"

section \<open>Properties\<close>

lemma encrypt_Inr:
  assumes "encrypt P box plaintext aad w = (Inr token, v)"
  obtains key nonce where "map_of (box_keys box) (box_active_key_id box) = Some key"
    and "urandom P NONCE_BYTES (env w) = (nonce, env v)" and "length (utf8 (box_active_key_id box)) \<le> 255"
    and "token = b64encode (VERSION @ [char_of (length (utf8 (box_active_key_id box)))] @
           utf8 (box_active_key_id box) @ nonce @
           aesgcm_encrypt P key nonce (utf8 plaintext) (aad_bytes aad))"
  using assms by (auto simp: encrypt_def Let_def split: option.splits prod.splits if_splits)

text \<open>C35. A secret survives encryption at rest and key rotation: what one box encrypted, any box
  that still holds the key under the same identifier decrypts, under the same associated data,
  whichever key is now active, as long as the cipher itself is correct.\<close>

theorem secret_box_roundtrip:
  assumes "\<And>key nonce pt ad. aesgcm_decrypt P key nonce (aesgcm_encrypt P key nonce pt ad) ad = Inr pt"
    and "\<And>n e. length (fst (urandom P n e)) = n"
    and "encrypt P box plaintext aad w = (Inr token, v)"
    and "map_of (box_keys box') (box_active_key_id box) = map_of (box_keys box) (box_active_key_id box)"
  shows "decrypt P box' token aad = Inr plaintext"
proof -
  let ?kid = "utf8 (box_active_key_id box)"
  from assms(3) obtain key nonce where key: "map_of (box_keys box) (box_active_key_id box) = Some key"
    and nonce: "urandom P NONCE_BYTES (env w) = (nonce, env v)" and len: "length ?kid \<le> 255"
    and token: "token = b64encode (VERSION @ [char_of (length ?kid)] @ ?kid @ nonce @
           aesgcm_encrypt P key nonce (utf8 plaintext) (aad_bytes aad))"
    by (rule encrypt_Inr)
  have "length nonce = NONCE_BYTES" using assms(2) [of NONCE_BYTES "env w"] nonce by simp
  then have "decrypt_blob P box' (VERSION @ [char_of (length ?kid)] @ ?kid @ nonce @
      aesgcm_encrypt P key nonce (utf8 plaintext) (aad_bytes aad)) aad = Inr plaintext"
    using len key assms(1,4) by (simp add: decrypt_blob_def VERSION_def Let_def)
  then show ?thesis by (simp add: decrypt_def token)
qed

theorem secret_box_roundtrip_witness:
  "\<exists>token w. encrypt sandbox \<lparr>box_keys = [(''k1'', replicate 32 CHR ''a'')], box_active_key_id = ''k1''\<rparr>
       ''sk_live'' (Some ''tenant'') (sandbox_world Map.empty) = (Inr token, w) \<and>
     decrypt sandbox \<lparr>box_keys = [(''k2'', replicate 32 CHR ''b''), (''k1'', replicate 32 CHR ''a'')],
       box_active_key_id = ''k2''\<rparr> token (Some ''tenant'') = Inr ''sk_live''"
proof -
  let ?box = "\<lparr>box_keys = [(''k1'', replicate 32 CHR ''a'')], box_active_key_id = ''k1''\<rparr>"
  obtain r w where run: "encrypt sandbox ?box ''sk_live'' (Some ''tenant'') (sandbox_world Map.empty) = (r, w)"
    by fastforce
  then obtain token where "r = Inr token"
    by (auto simp: encrypt_def Let_def sandbox_def utf8_def utf8_char_def)
  with run secret_box_roundtrip [of sandbox ?box "''sk_live''" "Some ''tenant''" "sandbox_world Map.empty" token w
      "\<lparr>box_keys = [(''k2'', replicate 32 CHR ''b''), (''k1'', replicate 32 CHR ''a'')], box_active_key_id = ''k2''\<rparr>"]
  show ?thesis by (simp add: sandbox_def)
qed

text \<open>Whatever is wrong with a stored token (not base64, wrong version, truncated, unknown key,
  failed authentication, garbled text), decryption fails with the one error
  \<open>DecryptionError\<close>, as long as the cipher raises only \<open>InvalidTag\<close> or \<open>ValueError\<close>.\<close>

theorem decrypt_fails_uniformly:
  assumes "\<And>key nonce ct ad e. aesgcm_decrypt P key nonce ct ad = Inl e \<Longrightarrow> e = InvalidTag \<or> e = ValueError"
    and "decrypt P box token aad = Inl e"
  shows "e = Py (DecryptionError ''failed to decrypt secret'')"
proof -
  have "decrypt_catches x" if "decrypt_blob P box blob aad = Inl x" for blob x
    using that
    by (auto simp: decrypt_blob_def Let_def dest!: assms(1) utf8_decode_error
        split: if_splits sum.splits option.splits)
  moreover have "decrypt_catches x" if "b64decode token = Inl x" for x
    using that by (auto simp: b64decode_def split: if_splits option.splits)
  ultimately show ?thesis
    using assms(2) by (auto simp: decrypt_def split: sum.splits if_splits)
qed

theorem decrypt_fails_uniformly_witness:
  "decrypt sandbox \<lparr>box_keys = [], box_active_key_id = ''k1''\<rparr> (b64encode [CHR 0x02]) None =
     Inl (Py (DecryptionError ''failed to decrypt secret''))"
proof -
  have "decrypt_blob sandbox \<lparr>box_keys = [], box_active_key_id = ''k1''\<rparr> [CHR 0x02] None =
      Inl (Py (DecryptionError ''unsupported ciphertext version''))"
    by (simp add: decrypt_blob_def VERSION_def)
  then obtain e where e: "decrypt sandbox \<lparr>box_keys = [], box_active_key_id = ''k1''\<rparr> (b64encode [CHR 0x02]) None = Inl e"
    by (auto simp: decrypt_def simp del: b64encode.simps)
  from decrypt_fails_uniformly [OF _ this] show ?thesis using e by (auto simp: sandbox_def)
qed

end
