(* ===== verification/Gateway.thy ===== *)
theory Gateway
  imports Providers Crypto Config
begin

text \<open>
  The gateway manager, \<^verbatim>\<open>app/services/gateway_manager.py\<close>: resolution of a tenant's adapter and
  execution of provider operations under retry, circuit breaker and metrics.  Its table of
  breakers is part of the world; the breaker interface of \<^verbatim>\<open>Resilience\<close> is interpreted on it.
\<close>

section \<open>Operations\<close>

definition MOCK_SANDBOX_SECRET :: string where
  "MOCK_SANDBOX_SECRET = ''upgi_sandbox_signing_secret''"

record GatewayManager =
  gm_settings :: Settings
  gm_secret_box :: SecretBox
  gm_http :: "http_client option"

definition registry_of :: "registry" where
  "registry_of = (case REGISTRY of Inr reg \<Rightarrow> reg | Inl _ \<Rightarrow> [])"

definition not_configured :: "ProviderName \<Rightarrow> exc" where
  "not_configured provider =
     err_with NotFoundError
       (''provider '' @ repr_str (ProviderName_value provider) @ '' is not configured for this account'')
       [(''provider'', JStr (ProviderName_value provider))]"

definition get_provider ::
  "'e platform \<Rightarrow> GatewayManager \<Rightarrow> uuid \<Rightarrow> ProviderName \<Rightarrow> ('e world, exc, 'e BasePaymentProvider) op" where
  "get_provider P gm owner_id provider =
     andThen (get_active owner_id provider) (\<lambda>config.
     case config of
       Some c \<Rightarrow>
         andThen (lift_result (decrypt P (gm_secret_box gm) (cfg_encrypted_secret c) (Some (uuid_str owner_id)))) (\<lambda>secret.
         lift_result (build_provider P registry_of provider
           \<lparr> ctx_secret = secret, ctx_sandbox = cfg_sandbox c, ctx_config = cfg_config c, ctx_http = gm_http gm \<rparr>))
     | None \<Rightarrow>
         if provider = MOCK
         then lift_result (build_provider P registry_of provider
           \<lparr> ctx_secret = MOCK_SANDBOX_SECRET, ctx_sandbox = True, ctx_config = [], ctx_http = gm_http gm \<rparr>)
         else throw (not_configured provider))"

definition configured_breaker :: "GatewayManager \<Rightarrow> ProviderName \<Rightarrow> CircuitBreaker" where
  "configured_breaker gm provider =
     new_breaker (circuit_breaker_failure_threshold (gm_settings gm))
       (circuit_breaker_reset_seconds (gm_settings gm)) (ProviderName_value provider) [ProviderError]"

definition breaker_for :: "GatewayManager \<Rightarrow> ProviderName \<Rightarrow> ('e world, exc, unit) op" where
  "breaker_for gm provider = modify (\<lambda>w.
     case breakers w provider of
       Some b \<Rightarrow> w
     | None \<Rightarrow> w\<lparr>breakers := (breakers w)(provider \<mapsto> configured_breaker gm provider)\<rparr>)"

definition get_breaker :: "GatewayManager \<Rightarrow> ProviderName \<Rightarrow> 'e world \<Rightarrow> CircuitBreaker" where
  "get_breaker gm provider w =
     (case breakers w provider of Some b \<Rightarrow> b | None \<Rightarrow> configured_breaker gm provider)"

definition put_breaker :: "ProviderName \<Rightarrow> CircuitBreaker \<Rightarrow> 'e world \<Rightarrow> 'e world" where
  "put_breaker provider b w = w\<lparr>breakers := (breakers w)(provider \<mapsto> b)\<rparr>"

definition unavailable :: "ProviderName \<Rightarrow> exc" where
  "unavailable provider =
     err_with ProviderUnavailableError ''provider transport error''
       [(''provider'', JStr (ProviderName_value provider))]"

definition guarded :: "ProviderName \<Rightarrow> ('e world, exc, 'a) op \<Rightarrow> ('e world, exc, 'a) op" where
  "guarded provider operation =
     on_exit operation (\<lambda>r. case r of
         Inr a \<Rightarrow> return a
       | Inl e \<Rightarrow>
           if e = Py TimeoutException \<or> e = Py TransportError then throw (unavailable provider)
           else throw e)"

definition world_uniform :: "'e platform \<Rightarrow> rat \<Rightarrow> rat \<Rightarrow> ('e world, exc, rat) op" where
  "world_uniform P lo hi = (\<lambda>w. case uniform P lo hi (env w) of (d, e) \<Rightarrow> (Inr d, w\<lparr>env := e\<rparr>))"

definition world_sleep :: "'e platform \<Rightarrow> rat \<Rightarrow> ('e world, exc, unit) op" where
  "world_sleep P d = modify (\<lambda>w. w\<lparr>env := async_sleep P d (env w)\<rparr>)"

definition with_retry ::
  "'e platform \<Rightarrow> GatewayManager \<Rightarrow> ProviderName \<Rightarrow> ('e world, exc, 'a) op \<Rightarrow> ('e world, exc, 'a) op" where
  "with_retry P gm provider operation =
     retry_async (guarded provider operation) (world_uniform P)
       (default_policy\<lparr>max_attempts := provider_max_retries (gm_settings gm)\<rparr>)
       (is_instance ProviderUnavailableError) (world_sleep P)"

definition call_outcome :: "exc + 'a \<Rightarrow> string" where
  "call_outcome r =
     (case r of
        Inr _ \<Rightarrow> ''success''
      | Inl e \<Rightarrow> if is_instance ProviderError e then ''declined'' else ''error'')"

definition execute ::
  "'e platform \<Rightarrow> GatewayManager \<Rightarrow> ProviderName \<Rightarrow> ('e world, exc, 'a) op \<Rightarrow> ('e world, exc, 'a) op" where
  "execute P gm provider operation =
     andThen (breaker_for gm provider) (\<lambda>_.
     andThen (gets (\<lambda>w. monotonic P (env w))) (\<lambda>started.
     on_exit (breaker_call (get_breaker gm provider) (put_breaker provider) (\<lambda>w. monotonic P (env w))
                (with_retry P gm provider operation)) (\<lambda>r.
     andThen (inc ''upgi_provider_calls_total'' [ProviderName_value provider, call_outcome r]) (\<lambda>_.
     andThen (gets (\<lambda>w. monotonic P (env w) - started)) (\<lambda>elapsed.
     andThen (observe ''upgi_provider_call_duration_seconds'' [ProviderName_value provider] elapsed) (\<lambda>_.
     lift_result r))))))"

section \<open>The breaker table\<close>

interpretation table_breaker: breaker_object "get_breaker gm provider" "put_breaker provider"
    "\<lambda>w. monotonic P (env w)" "\<lambda>w. breakers w provider \<noteq> None" for gm provider P
  by unfold_locales (auto simp: get_breaker_def put_breaker_def map_upd_triv)

section \<open>Frame: provider calls never touch the session\<close>

definition same_session :: "'e world \<Rightarrow> 'e world \<Rightarrow> bool" where
  "same_session w v \<longleftrightarrow>
     objs v = objs w \<and> pending v = pending w \<and> committed v = committed w \<and>
     correlation_id v = correlation_id w"

lemma same_session_refl [simp]: "same_session w w"
  by (simp add: same_session_def)

lemma same_session_trans: "same_session u v \<Longrightarrow> same_session v w \<Longrightarrow> same_session u w"
  by (simp add: same_session_def)

lemma same_session_update [simp]:
  "same_session w (v\<lparr>env := e\<rparr>) = same_session w v" "same_session w (v\<lparr>breakers := b\<rparr>) = same_session w v"
  "same_session w (v\<lparr>metrics := m\<rparr>) = same_session w v" "same_session w (put_breaker p x v) = same_session w v"
  by (simp_all add: same_session_def put_breaker_def)

lemma env_only_session: "env_only m \<Longrightarrow> keeps (same_session w) m"
proof (rule keepsI)
  fix s r t
  assume m: "env_only m" "same_session w s" "m s = (r, t)"
  have "t = s\<lparr>env := env t\<rparr>" using m by (intro env_onlyD)
  then show "same_session w t" using m(2) by (metis same_session_update(1))
qed

lemma guarded_Inr: "guarded provider operation u = (Inr a, v) \<longleftrightarrow> operation u = (Inr a, v)"
proof (cases "operation u")
  case (Pair r t)
  then show ?thesis by (cases r) (auto simp: guarded_def op_simps)
qed

lemma keeps_guarded: "keeps I operation \<Longrightarrow> keeps I (guarded provider operation)"
  unfolding guarded_def by (intro keeps_intros)

lemma keeps_with_retry:
  assumes "keeps (same_session w) operation"
  shows "keeps (same_session w) (with_retry P gm provider operation)"
  unfolding with_retry_def
proof (rule keeps_retry_async)
  show "keeps (same_session w) (guarded provider operation)" using assms by (rule keeps_guarded)
  show "keeps (same_session w) (world_uniform P lo hi)" for lo hi
    by (auto simp: keeps_def world_uniform_def split: prod.splits)
  show "keeps (same_session w) (world_sleep P d)" for d
    by (auto simp: keeps_def world_sleep_def op_simps)
qed

lemma keeps_execute:
  assumes "keeps (same_session w) operation"
  shows "keeps (same_session w) (execute P gm provider operation)"
proof -
  have "keeps (same_session w) (breaker_call (get_breaker gm provider) (put_breaker provider)
      (\<lambda>w. monotonic P (env w)) (with_retry P gm provider operation))"
    by (rule keeps_breaker_call) (simp_all add: keeps_with_retry assms)
  then show ?thesis
    unfolding execute_def breaker_for_def inc_def observe_def
    by (intro keeps_intros) (auto split: option.splits)
qed

lemma execute_env_only:
  assumes "env_only operation"
  shows "execute P gm provider operation w = (r, v) \<Longrightarrow> same_session w v"
  using keepsD [OF keeps_execute [OF env_only_session [OF assms]]] same_session_refl by blast

text \<open>What the gateway returns, the operation returned, in a state with the same session.\<close>

lemma execute_Inr:
  assumes "env_only operation" and "execute P gm provider operation w = (Inr a, v)"
  shows "\<exists>u u'. same_session w u \<and> operation u = (Inr a, u') \<and> same_session w v"
proof -
  let ?b = "case breakers w provider of
    Some b \<Rightarrow> w | None \<Rightarrow> w\<lparr>breakers := (breakers w)(provider \<mapsto> configured_breaker gm provider)\<rparr>"
  have same: "same_session w ?b" by (auto split: option.splits)
  from assms(2) obtain t where "breaker_call (get_breaker gm provider) (put_breaker provider)
      (\<lambda>w. monotonic P (env w)) (with_retry P gm provider operation) ?b = (Inr a, t)"
    by (auto simp: execute_def breaker_for_def inc_def observe_def op_splits on_exit_eval split: prod.splits)
  then obtain b u where ret: "with_retry P gm provider operation (put_breaker provider b ?b) = (Inr a, u)"
    by (rule breaker_call_Inr)
  have "\<exists>u'. same_session w u' \<and> guarded provider operation u' = (Inr a, u)"
  proof (rule retry_async_Inr [OF _ _ _ _ ret [unfolded with_retry_def]])
    show "keeps (same_session w) (guarded provider operation)"
      using assms(1) by (intro keeps_guarded env_only_session)
    show "keeps (same_session w) (world_uniform P lo hi)" for lo hi
      by (auto simp: keeps_def world_uniform_def split: prod.splits)
    show "keeps (same_session w) (world_sleep P d)" for d
      by (auto simp: keeps_def world_sleep_def op_simps)
    show "same_session w (put_breaker provider b ?b)" using same by simp
  qed
  then obtain u' where "same_session w u'" "operation u' = (Inr a, u)" by (auto simp: guarded_Inr)
  then show ?thesis using execute_env_only [OF assms] by blast
qed

text \<open>Every adapter the gateway hands out keeps the adapter contract.\<close>

lemma get_provider_Inr:
  assumes "get_provider P gm owner provider w = (Inr a, v)"
  shows "v = w \<and> (\<exists>ctx. a = MockProvider P ctx \<or> a = StripeProvider P ctx)"
  using assms
  by (cases provider)
    (auto simp: get_provider_def get_active_def op_splits build_provider_def registry_of_def REGISTRY_eq
      split: option.splits if_splits)

lemma get_provider_adapter: "get_provider P gm owner provider w = (Inr a, v) \<Longrightarrow> payment_adapter a"
  using get_provider_Inr mock.payment_adapter_axioms stripe.payment_adapter_axioms by metis

lemma get_provider_sound:
  "honest_stripe P \<Longrightarrow> get_provider P gm owner provider w = (Inr a, v) \<Longrightarrow> sound_adapter a"
  using get_provider_Inr mock.sound_adapter_axioms stripe_sound by metis

lemma get_provider_reads: "get_provider P gm owner provider w = (r, v) \<Longrightarrow> v = w"
  by (cases r) (auto dest: get_provider_Inr simp: get_provider_def get_active_def op_splits
      split: option.splits if_splits)

lemma keeps_provider_call:
  assumes "\<And>a. payment_adapter a \<Longrightarrow> keeps I (f a)"
  shows "keeps I (andThen (get_provider P gm owner provider) f)"
proof (rule keeps_andThen_result)
  show "keeps I (get_provider P gm owner provider)" by (rule keepsI) (auto dest: get_provider_reads)
qed (auto intro: assms dest: get_provider_adapter)

lemma keeps_committed_execute:
  assumes "env_only operation"
  shows "keeps (\<lambda>v. committed v = c) (execute P gm provider operation)"
  by (rule keepsI) (auto dest: execute_env_only [OF assms] simp: same_session_def)

lemma execute_eq:
  assumes "breakers w provider \<noteq> None"
    and "breaker_call (get_breaker gm provider) (put_breaker provider) (\<lambda>w. monotonic P (env w))
           (with_retry P gm provider operation) w = (r, v)"
  shows "execute P gm provider operation w =
    (r, v\<lparr>metrics := metrics v @
           [Inc ''upgi_provider_calls_total'' [ProviderName_value provider, call_outcome r],
            Observe ''upgi_provider_call_duration_seconds'' [ProviderName_value provider]
              (monotonic P (env v) - monotonic P (env w))]\<rparr>)"
  using assms by (auto simp: execute_def breaker_for_def inc_def observe_def op_simps split: option.splits)

text \<open>A call that meets no fault on a circuit that is not open returns.\<close>

lemma execute_returns:
  assumes "cb_state (get_breaker gm provider w) \<noteq> OPEN" and "1 \<le> provider_max_retries (gm_settings gm)"
    and "env_only operation" and "\<And>u. \<exists>a u'. operation u = (Inr a, u')"
  shows "\<exists>a v x u. execute P gm provider operation w = (Inr a, v) \<and> env x = env w \<and> operation x = (Inr a, u) \<and> env v = env u"
proof -
  let ?w = "snd (breaker_for gm provider w :: (exc + unit) \<times> 'a world)"
  have present: "breakers ?w provider \<noteq> None" and same: "get_breaker gm provider ?w = get_breaker gm provider w"
    by (auto simp: breaker_for_def op_simps get_breaker_def split: option.splits)
  obtain a u where op: "operation ?w = (Inr a, u)" using assms(4) by blast
  have "[1..provider_max_retries (gm_settings gm)] = 1 # [2..provider_max_retries (gm_settings gm)]"
    using assms(2) by (simp add: upto_rec1)
  then have retry: "with_retry P gm provider operation ?w = (Inr a, u)"
    using op by (simp add: with_retry_def retry_async_def op_simps guarded_def)
  have "breaker_call (get_breaker gm provider) (put_breaker provider) (\<lambda>w. monotonic P (env w))
      (with_retry P gm provider operation) ?w = (Inr a, put_breaker provider (on_success (get_breaker gm provider u)) u)"
    using table_breaker.call_closed [of gm provider ?w P "with_retry P gm provider operation"] present same retry assms(1)
    by simp
  moreover have "execute P gm provider operation w = execute P gm provider operation ?w"
    by (auto simp: execute_def breaker_for_def op_simps split: option.splits)
  moreover have "env ?w = env w" by (simp add: breaker_for_def op_simps split: option.splits)
  ultimately show ?thesis
    using op execute_eq [OF present, of gm P operation]
    by (intro exI [of _ a] exI [of _ "snd (execute P gm provider operation w)"] exI [of _ ?w] exI [of _ u])
      (simp add: put_breaker_def)
qed

section \<open>Outcomes of a guarded call\<close>

lemma error_hierarchy: "is_instance ProviderError e \<Longrightarrow> \<not> is_instance ProviderUnavailableError e"
proof (cases e)
  case (Domain d)
  then show "is_instance ProviderError e \<Longrightarrow> \<not> is_instance ProviderUnavailableError e"
    by (cases "err_class d") (auto simp: is_instance_def is_subclass_def)
qed (simp_all add: is_instance_def)

lemma unavailable_kind [simp]:
  "is_instance ProviderUnavailableError (unavailable p)" "\<not> is_instance ProviderError (unavailable p)"
  by (simp_all add: unavailable_def is_subclass_def)

text \<open>An attempt whose outcome is not retried decides at once.\<close>

lemma with_retry_first:
  assumes "guarded provider operation w = (r, u)" and "1 \<le> provider_max_retries (gm_settings gm)"
    and "decisive (is_instance ProviderUnavailableError) r"
  shows "with_retry P gm provider operation w = (r, u)"
proof -
  let ?n = "provider_max_retries (gm_settings gm)"
  have "[1..?n] = 1 # [2..?n]" using assms(2) by (simp add: upto_rec1)
  then show ?thesis
    using assms(1,3)
    by (cases r) (auto simp: with_retry_def retry_async_def op_simps decisive_def)
qed

definition sandbox_gateway :: GatewayManager where
  "sandbox_gateway =
     \<lparr> gm_settings = default_settings,
       gm_secret_box = \<lparr> box_keys = [(''primary'', replicate 32 (CHR 0x00))], box_active_key_id = ''primary'' \<rparr>,
       gm_http = Some SharedClient \<rparr>"

section \<open>Properties\<close>

text \<open>While a provider's circuit is open and cooling off, a call fails with
  \<open>CircuitOpenError\<close> without the operation being run: nothing but the call metrics changes.\<close>

theorem open_circuit_fails_fast:
  assumes "breakers w provider = Some b" and "cb_state b = OPEN"
    and "monotonic P (env w) - cb_opened_at b < reset_timeout b"
  shows "execute P gm provider operation w =
    (Inl (circuit_open_error (cb_name b)),
     w\<lparr>metrics := metrics w @
         [Inc ''upgi_provider_calls_total'' [ProviderName_value provider, ''error''],
          Observe ''upgi_provider_call_duration_seconds'' [ProviderName_value provider] 0]\<rparr>)"
proof -
  have "get_breaker gm provider w = b" using assms(1) by (simp add: get_breaker_def)
  then have "breaker_call (get_breaker gm provider) (put_breaker provider) (\<lambda>w. monotonic P (env w))
      (with_retry P gm provider operation) w = (Inl (circuit_open_error (cb_name b)), w)"
    using table_breaker.call_open [of gm provider w P] assms(2,3) by simp
  then show ?thesis
    using assms(1) by (subst execute_eq) (auto simp: call_outcome_def circuit_open_error_def is_subclass_def)
qed

theorem open_circuit_fails_fast_witness:
  "fst (execute sandbox sandbox_gateway MOCK (return ()) (sandbox_world [MOCK \<mapsto> on_failure 0 (new_breaker 1 30 ''mock'' [])]))
     = Inl (circuit_open_error ''mock'')"
  using open_circuit_fails_fast [of "sandbox_world [MOCK \<mapsto> on_failure 0 (new_breaker 1 30 ''mock'' [])]" MOCK
      "on_failure 0 (new_breaker 1 30 ''mock'' [])" sandbox sandbox_gateway "return ()"]
  by (simp add: sandbox_world_def sandbox_def on_failure_def new_breaker_def)

text \<open>A decline is not an outage: when the provider answers with a \<open>ProviderError\<close>, the gateway
  re-raises it after a single attempt, and neither counts a failure on the provider's circuit
  nor changes anything else but the call metrics.\<close>

theorem decline_passes_through:
  assumes "breakers w provider = Some b" and "cb_state b \<noteq> OPEN" and "ProviderError \<in> set (ignored_exceptions b)"
    and "1 \<le> provider_max_retries (gm_settings gm)"
    and "operation w = (Inl e, u)" and "is_instance ProviderError e" and "breakers u = breakers w"
  shows "execute P gm provider operation w =
    (Inl e, u\<lparr>metrics := metrics u @
         [Inc ''upgi_provider_calls_total'' [ProviderName_value provider, ''declined''],
          Observe ''upgi_provider_call_duration_seconds'' [ProviderName_value provider]
            (monotonic P (env u) - monotonic P (env w))]\<rparr>)"
proof -
  have "guarded provider operation w = (Inl e, u)"
    using assms(5,6) by (auto simp: guarded_def op_simps)
  then have retry: "with_retry P gm provider operation w = (Inl e, u)"
    using assms(4,6) by (intro with_retry_first) (auto simp: decisive_def error_hierarchy)
  have b: "get_breaker gm provider w = b" "get_breaker gm provider u = b"
    using assms(1,7) by (simp_all add: get_breaker_def)
  have "is_ignored b e" using assms(3,6) by (auto simp: is_ignored_def)
  then have "breaker_call (get_breaker gm provider) (put_breaker provider) (\<lambda>w. monotonic P (env w))
      (with_retry P gm provider operation) w = (Inl e, u)"
    using table_breaker.call_closed [of gm provider w P "with_retry P gm provider operation"] retry b assms(1,2) by simp
  then show ?thesis using assms(1,6) by (subst execute_eq) (auto simp: call_outcome_def)
qed

theorem decline_passes_through_witness:
  "fst (execute sandbox sandbox_gateway MOCK
      (throw (err ProviderError ''declined'') :: (nat world, exc, unit) op)
      (sandbox_world [MOCK \<mapsto> new_breaker 1 30 ''mock'' [ProviderError]])) = Inl (err ProviderError ''declined'')"
proof -
  let ?w = "sandbox_world [MOCK \<mapsto> new_breaker 1 30 ''mock'' [ProviderError]]"
  have "breakers ?w MOCK = Some (new_breaker 1 30 ''mock'' [ProviderError])"
    by (simp add: sandbox_world_def)
  from decline_passes_through [OF this, of sandbox_gateway "throw (err ProviderError ''declined'') :: (nat world, exc, unit) op"
      "err ProviderError ''declined''" ?w sandbox]
  show ?thesis by (simp add: new_breaker_def sandbox_gateway_def default_settings_def throw_eval is_subclass_def)
qed

text \<open>An outage counts once per call: when every attempt of an operation meets a transport
  fault, the gateway reports \<open>ProviderUnavailableError\<close> after its retries and records exactly one
  failure on the provider's circuit, so it takes as many failed calls as the threshold says,
  not failed attempts, to open it.\<close>

theorem outage_counts_once:
  assumes "breakers w provider = Some b" and "cb_state b \<noteq> OPEN" and "ignored_exceptions b = [ProviderError]"
    and "1 \<le> provider_max_retries (gm_settings gm)"
    and "\<And>u. \<exists>e. operation u = (Inl (Py TransportError), u\<lparr>env := e\<rparr>)"
  shows "\<exists>v. execute P gm provider operation w = (Inl (unavailable provider), v) \<and>
    breakers v = (breakers w)(provider \<mapsto> on_failure (monotonic P (env v)) b) \<and> same_session w v"
proof -
  let ?I = "\<lambda>u. breakers u = breakers w \<and> same_session w u"
  have "\<exists>t. with_retry P gm provider operation w = (Inl (unavailable provider), t) \<and> ?I t"
    unfolding with_retry_def retry_async_def
  proof (rule retry_loop_all_fail)
    show "\<exists>v. guarded provider operation u = (Inl (unavailable provider), v) \<and> ?I v" if "?I u" for u
      using assms(5) [of u] that by (auto simp: guarded_def op_simps)
    show "\<exists>d v. world_uniform P lo hi u = (Inr d, v) \<and> ?I v" if "?I u" for u lo hi
      using that by (auto simp: world_uniform_def split: prod.splits)
    show "\<exists>v. world_sleep P d u = (Inr (), v) \<and> ?I v" if "?I u" for u d
      using that by (auto simp: world_sleep_def op_simps)
  qed (use assms(4) in simp_all)
  then obtain t where t: "with_retry P gm provider operation w = (Inl (unavailable provider), t)" "?I t" by blast
  have b: "get_breaker gm provider w = b" "get_breaker gm provider t = b"
    using assms(1) t(2) by (simp_all add: get_breaker_def)
  have "\<not> is_ignored b (unavailable provider)" using assms(3) by (simp add: is_ignored_def)
  then have "breaker_call (get_breaker gm provider) (put_breaker provider) (\<lambda>w. monotonic P (env w))
      (with_retry P gm provider operation) w =
      (Inl (unavailable provider), put_breaker provider (on_failure (monotonic P (env t)) b) t)"
    using table_breaker.call_closed [of gm provider w P "with_retry P gm provider operation"] t(1) b assms(1,2) by simp
  from execute_eq [OF _ this] show ?thesis using assms(1) t(2) by (simp add: put_breaker_def)
qed

theorem outage_counts_once_witness:
  "\<exists>v. execute sandbox sandbox_gateway STRIPE
       (ad_cancel (StripeProvider sandbox \<lparr>ctx_secret = ''sk'', ctx_sandbox = True, ctx_config = [], ctx_http = Some SharedClient\<rparr>) ''pi_1'')
       (sandbox_world [STRIPE \<mapsto> new_breaker 5 30 ''stripe'' [ProviderError]]) = (Inl (unavailable STRIPE), v) \<and>
     cb_failures (the (breakers v STRIPE)) = 1"
proof -
  let ?b = "new_breaker 5 30 ''stripe'' [ProviderError]"
  let ?op = "ad_cancel (StripeProvider sandbox \<lparr>ctx_secret = ''sk'', ctx_sandbox = True, ctx_config = [], ctx_http = Some SharedClient\<rparr>) ''pi_1''"
  have down: "\<exists>e. ?op u = (Inl (Py TransportError), u\<lparr>env := e\<rparr>)" for u
    by (auto simp: StripeProvider_def stripe_cancel_def stripe_post_def stripe_client_def http_call_def sandbox_def op_simps
        intro: exI [of _ "env u"])
  have "breakers (sandbox_world [STRIPE \<mapsto> ?b]) STRIPE = Some ?b" by (simp add: sandbox_world_def)
  from outage_counts_once [OF this _ _ _ down, of sandbox_gateway sandbox] show ?thesis
    by (auto simp: sandbox_gateway_def default_settings_def new_breaker_def on_failure_def Let_def)
qed

text \<open>Which adapter a tenant gets.  With exactly one active configuration, the adapter is built
  with the secret decrypted under the tenant's identifier as associated data.  Without one, the
  sandbox adapter is available to every tenant in every environment, with its published secret,
  and Stripe is refused as not configured.  Resolution changes nothing.\<close>

theorem provider_resolution:
  "(filter (\<lambda>c. cfg_owner_id c = owner \<and> cfg_provider c = provider \<and> cfg_is_active c) (provider_configs (objs w)) = [c] \<longrightarrow>
      get_provider P gm owner provider w =
        ((case decrypt P (gm_secret_box gm) (cfg_encrypted_secret c) (Some (uuid_str owner)) of
            Inl e \<Rightarrow> Inl e
          | Inr secret \<Rightarrow>
              let ctx = \<lparr> ctx_secret = secret, ctx_sandbox = cfg_sandbox c, ctx_config = cfg_config c, ctx_http = gm_http gm \<rparr>
              in Inr (if provider = MOCK then MockProvider P ctx else StripeProvider P ctx)), w)) \<and>
   (filter (\<lambda>c. cfg_owner_id c = owner \<and> cfg_provider c = provider \<and> cfg_is_active c) (provider_configs (objs w)) = [] \<longrightarrow>
      get_provider P gm owner provider w =
        (if provider = MOCK
         then Inr (MockProvider P \<lparr> ctx_secret = MOCK_SANDBOX_SECRET, ctx_sandbox = True, ctx_config = [], ctx_http = gm_http gm \<rparr>)
         else Inl (not_configured provider), w))"
  by (cases provider)
    (auto simp: get_provider_def get_active_def select_one_eq scalar_one_or_none_def op_simps
      build_provider_def registry_of_def REGISTRY_eq Let_def split: sum.splits)

theorem provider_resolution_witness:
  "get_provider sandbox sandbox_gateway 7 STRIPE (sandbox_world Map.empty) =
     (Inl (not_configured STRIPE), sandbox_world Map.empty)"
  using provider_resolution [of 7 STRIPE "sandbox_world Map.empty" _ sandbox sandbox_gateway]
  by (simp add: sandbox_world_def empty_tables_def)

end
