(* ===== verification/Payments.thy ===== *)
theory Payments
  imports Gateway
begin

text \<open>
  The audit service (\<^verbatim>\<open>app/services/audit.py\<close>) and the payment service
  (\<^verbatim>\<open>app/services/payments.py\<close>): create, capture, cancel and the queries, on the session of the
  request.
\<close>

section \<open>Audit\<close>

definition audit_record ::
  "'e platform \<Rightarrow> AuditAction \<Rightarrow> uuid option \<Rightarrow> string option \<Rightarrow> string option \<Rightarrow> (string \<times> json) list
   \<Rightarrow> ('e world, exc, AuditLog) op" where
  "audit_record P action actor_id resource_type resource_id context =
     andThen (gets correlation_id) (\<lambda>cid.
     add_row P AuditLogRow (\<lambda>i now.
       \<lparr> aud_id = i, aud_actor_id = actor_id, aud_action = action, aud_resource_type = resource_type,
         aud_resource_id = resource_id, aud_correlation_id = (if cid = [] then None else Some cid),
         aud_context = context \<rparr>))"

section \<open>Payments\<close>

definition require_payment :: "User \<Rightarrow> uuid \<Rightarrow> ('e world, exc, Payment) op" where
  "require_payment owner payment_id =
     andThen (get_for_owner payment_id (usr_id owner)) (\<lambda>payment.
     case payment of
       None \<Rightarrow> throw (err NotFoundError ''payment not found'')
     | Some p \<Rightarrow> return p)"

definition new_payment ::
  "User \<Rightarrow> ProviderName \<Rightarrow> money \<Rightarrow> CaptureMethod \<Rightarrow> PaymentMethodType \<Rightarrow> string option \<Rightarrow> string option
   \<Rightarrow> (string \<times> json) list \<Rightarrow> uuid \<Rightarrow> rat \<Rightarrow> Payment" where
  "new_payment owner provider amount capture_method method_type description customer_reference metadata i now =
     \<lparr> pay_id = i, pay_owner_id = usr_id owner, pay_provider = provider, pay_provider_reference = None,
       pay_amount = minor_units amount, pay_currency = currency amount,
       pay_amount_captured = 0, pay_amount_refunded = 0, pay_status = REQUIRES_CONFIRMATION,
       pay_capture_method = capture_method, pay_method_type = method_type,
       pay_description = description, pay_customer_reference = customer_reference,
       pay_failure_reason = None, pay_metadata = metadata, pay_created_at = now, pay_updated_at = now \<rparr>"

text \<open>What a charge makes of a payment: the row, the audited action and the metric's outcome.\<close>

definition apply_charge :: "ProviderCharge \<Rightarrow> Payment \<Rightarrow> Payment \<times> AuditAction \<times> string" where
  "apply_charge charge payment =
     (let payment = payment\<lparr>pay_status := chg_status charge\<rparr>
      in if chg_status charge = CAPTURED
         then (payment\<lparr>pay_amount_captured := chg_amount_captured charge\<rparr>, PAYMENT_CAPTURED, ''captured'')
         else if chg_status charge = AUTHORIZED
         then (payment, PAYMENT_AUTHORIZED, ''authorized'')
         else (payment\<lparr>pay_failure_reason := chg_failure_reason charge\<rparr>, PAYMENT_FAILED, ''failed''))"

definition payment_metric :: "string \<Rightarrow> ProviderName \<Rightarrow> string \<Rightarrow> ('e world, exc, unit) op" where
  "payment_metric operation provider outcome =
     inc ''upgi_payment_operations_total'' [operation, ProviderName_value provider, outcome]"

definition create_payment ::
  "'e platform \<Rightarrow> GatewayManager \<Rightarrow> User \<Rightarrow> ProviderName \<Rightarrow> money \<Rightarrow> CaptureMethod \<Rightarrow> PaymentMethodType
   \<Rightarrow> string option \<Rightarrow> string option \<Rightarrow> string option \<Rightarrow> (string \<times> json) list \<Rightarrow> string option
   \<Rightarrow> ('e world, exc, Payment) op" where
  "create_payment P gm owner provider amount capture_method method_type payment_method_token
     description customer_reference metadata idempotency_key =
     andThen (ensure (is_positive amount) (err ValidationError ''amount must be greater than zero'')) (\<lambda>_.
     andThen (add_row P PaymentRow (new_payment owner provider amount capture_method method_type
                description customer_reference metadata)) (\<lambda>payment.
     andThen (flush P) (\<lambda>_.
     andThen (get_provider P gm (usr_id owner) provider) (\<lambda>adapter.
     andThen (execute P gm provider (ad_create_payment adapter
                \<lparr> cr_amount = amount, cr_capture_method = capture_method, cr_method_type = method_type,
                  cr_payment_method_token = payment_method_token, cr_description = description,
                  cr_customer_reference = customer_reference, cr_idempotency_key = idempotency_key,
                  cr_metadata = metadata \<rparr>)) (\<lambda>charge.
     let payment = payment\<lparr>pay_provider_reference := Some (chg_reference charge)\<rparr>
     in andThen (put_payment payment) (\<lambda>_.
        andThen (lift_result (assert_transition (pay_status payment) (chg_status charge))) (\<lambda>_.
        case apply_charge charge payment of (payment, action, outcome) \<Rightarrow>
          andThen (put_payment payment) (\<lambda>_.
          andThen (payment_metric ''create'' provider outcome) (\<lambda>_.
          andThen (audit_record P action (Some (usr_id owner)) (Some ''payment'')
                     (Some (uuid_str (pay_id payment))) []) (\<lambda>_.
          return payment))))))))))"

definition capture_payment ::
  "'e platform \<Rightarrow> GatewayManager \<Rightarrow> User \<Rightarrow> uuid \<Rightarrow> money option \<Rightarrow> ('e world, exc, Payment) op" where
  "capture_payment P gm owner payment_id amount =
     andThen (require_payment owner payment_id) (\<lambda>payment.
     andThen (ensure (pay_status payment = AUTHORIZED)
                (err_with InvalidStateError ''only authorized payments can be captured''
                   [(''status'', JStr (PaymentStatus_value (pay_status payment)))])) (\<lambda>_.
     andThen (case amount of
                Some m \<Rightarrow> return m
              | None \<Rightarrow> lift_result (Money (pay_amount payment) (pay_currency payment))) (\<lambda>capture_amount.
     andThen (ensure (currency capture_amount = pay_currency payment)
                (err ValidationError ''capture currency mismatch'')) (\<lambda>_.
     andThen (ensure (\<not> minor_units capture_amount > pay_amount payment)
                (err ValidationError ''capture amount exceeds authorized amount'')) (\<lambda>_.
     andThen (get_provider P gm (usr_id owner) (pay_provider payment)) (\<lambda>adapter.
     andThen (execute P gm (pay_provider payment)
                (ad_capture adapter (case pay_provider_reference payment of None \<Rightarrow> [] | Some r \<Rightarrow> r)
                   capture_amount)) (\<lambda>charge.
     andThen (lift_result (assert_transition (pay_status payment) CAPTURED)) (\<lambda>_.
     let payment = payment\<lparr>pay_status := CAPTURED,
           pay_amount_captured := (if chg_amount_captured charge \<noteq> 0 then chg_amount_captured charge
                                   else minor_units capture_amount)\<rparr>
     in andThen (put_payment payment) (\<lambda>_.
        andThen (payment_metric ''capture'' (pay_provider payment) ''captured'') (\<lambda>_.
        andThen (audit_record P PAYMENT_CAPTURED (Some (usr_id owner)) (Some ''payment'')
                   (Some (uuid_str (pay_id payment))) []) (\<lambda>_.
        return payment)))))))))))"

definition cancel_payment ::
  "'e platform \<Rightarrow> GatewayManager \<Rightarrow> User \<Rightarrow> uuid \<Rightarrow> ('e world, exc, Payment) op" where
  "cancel_payment P gm owner payment_id =
     andThen (require_payment owner payment_id) (\<lambda>payment.
     andThen (lift_result (assert_transition (pay_status payment) CANCELED)) (\<lambda>_.
     andThen (get_provider P gm (usr_id owner) (pay_provider payment)) (\<lambda>adapter.
     andThen (execute P gm (pay_provider payment)
                (ad_cancel adapter (case pay_provider_reference payment of None \<Rightarrow> [] | Some r \<Rightarrow> r))) (\<lambda>_.
     let payment = payment\<lparr>pay_status := CANCELED\<rparr>
     in andThen (put_payment payment) (\<lambda>_.
        andThen (payment_metric ''cancel'' (pay_provider payment) ''canceled'') (\<lambda>_.
        andThen (audit_record P PAYMENT_CANCELED (Some (usr_id owner)) (Some ''payment'')
                   (Some (uuid_str (pay_id payment))) []) (\<lambda>_.
        return payment)))))))"

definition get_payment :: "User \<Rightarrow> uuid \<Rightarrow> ('e world, exc, Payment) op" where
  "get_payment owner payment_id = require_payment owner payment_id"

definition list_payments ::
  "User \<Rightarrow> PaymentStatus option \<Rightarrow> nat \<Rightarrow> nat \<Rightarrow> ('e world, exc, Payment list \<times> nat) op" where
  "list_payments owner status limit offset = list_for_owner (usr_id owner) status limit offset"

section \<open>Unit of work\<close>

lemma service_steps_committed [keeps_intros]:
  "keeps (\<lambda>v. committed v = c) (audit_record P action actor rt ri ctx)"
  "keeps (\<lambda>v. committed v = c) (payment_metric operation provider outcome)"
  "keeps (\<lambda>v. committed v = c) (require_payment owner i)"
  "keeps (\<lambda>v. committed v = c) (get_for_owner i own)"
  by (auto simp: audit_record_def payment_metric_def require_payment_def get_for_owner_def intro!: keeps_intros)

interpretation create_body: unit_of_work_body
    "create_payment P gm owner provider amount cm mt token descr cust metadata key"
    for P gm owner provider amount cm mt token descr cust metadata key
  by unfold_locales
    (auto simp: create_payment_def Let_def payment_adapter.create_env split: prod.splits
      intro!: keeps_intros keeps_provider_call keeps_committed_execute)

interpretation capture_body: unit_of_work_body "capture_payment P gm owner i amount"
    for P gm owner i amount
  by unfold_locales
    (auto simp: capture_payment_def Let_def payment_adapter.capture_env
      intro!: keeps_intros keeps_provider_call keeps_committed_execute)

interpretation cancel_body: unit_of_work_body "cancel_payment P gm owner i" for P gm owner i
  by unfold_locales
    (auto simp: cancel_payment_def Let_def payment_adapter.cancel_env
      intro!: keeps_intros keeps_provider_call keeps_committed_execute)

definition demo_user :: User where
  "demo_user =
     \<lparr> usr_id = 7, usr_email = ''merchant@example.com'', usr_hashed_password = [], usr_full_name = None,
       usr_role = MERCHANT, usr_is_active = True, usr_failed_login_attempts = 0, usr_created_at = 0 \<rparr>"

definition demo_amount :: money where
  "demo_amount = \<lparr>minor_units = 1000, currency = ''USD''\<rparr>"

lemma sandbox_facts:
  "is_positive demo_amount" "1 \<le> provider_max_retries (gm_settings sandbox_gateway)"
  "pending (sandbox_world Map.empty) = []"
  "cb_state (get_breaker sandbox_gateway MOCK (sandbox_world Map.empty)) \<noteq> OPEN"
  "filter (\<lambda>c. cfg_owner_id c = usr_id demo_user \<and> cfg_provider c = MOCK \<and> cfg_is_active c)
      (provider_configs (objs (sandbox_world Map.empty))) = []"
  "uuid4 sandbox (env (sandbox_world Map.empty)) = (0, 1)"
  "db_accepts sandbox ((objs (sandbox_world Map.empty))\<lparr>payments := payments (objs (sandbox_world Map.empty)) @
      [new_payment demo_user MOCK demo_amount AUTOMATIC PaymentMethodType.CARD None None [] 0 (db_now sandbox 1)]\<rparr>)"
  by (simp_all add: is_positive_def sandbox_gateway_def default_settings_def sandbox_world_def get_breaker_def
      configured_breaker_def new_breaker_def empty_tables_def sandbox_def demo_amount_def unique_ok_def unique_by_def
      new_payment_def List.map_filter_simps)

section \<open>Properties\<close>

lemma mock_create_returns: "\<exists>a u'. mock_create_payment P rq u = (Inr a, u')"
  by (auto simp: mock_create_payment_def new_reference_def op_simps split: prod.splits)

lemma mock_create_charge:
  "mock_create_payment P rq u = (Inr c, v) \<Longrightarrow>
     chg_status c = (if should_fail rq then FAILED else if cr_capture_method rq = MANUAL then AUTHORIZED else CAPTURED) \<and>
     chg_amount_captured c = (if chg_status c = CAPTURED then minor_units (cr_amount rq) else 0)"
  by (auto simp: mock_create_payment_def op_splits split: if_splits)

lemma mock_unconfigured:
  assumes "filter (\<lambda>c. cfg_owner_id c = owner \<and> cfg_provider c = MOCK \<and> cfg_is_active c) (provider_configs (objs w)) = []"
  shows "get_provider P gm owner MOCK w = (Inr (MockProvider P \<lparr> ctx_secret = MOCK_SANDBOX_SECRET, ctx_sandbox = True,
           ctx_config = [], ctx_http = gm_http gm \<rparr>), w)"
  using assms by (simp add: get_provider_def get_active_def select_one_eq scalar_one_or_none_def op_simps
      build_provider_def registry_of_def REGISTRY_eq)

lemma mock_create_runs:
  assumes "is_positive amount" and "1 \<le> provider_max_retries (gm_settings gm)" and "pending w = []"
    and "cb_state (get_breaker gm MOCK w) \<noteq> OPEN"
    and "filter (\<lambda>c. cfg_owner_id c = usr_id owner \<and> cfg_provider c = MOCK \<and> cfg_is_active c) (provider_configs (objs w)) = []"
    and "uuid4 P (env w) = (i, e)"
    and "db_accepts P ((objs w)\<lparr>payments := payments (objs w) @
           [new_payment owner MOCK amount cm mt descr cust metadata i (db_now P e)]\<rparr>)"
    and fails: "fails = (token = Some ''pm_fail'' \<or> (\<exists>x. map_of metadata ''force_failure'' = Some x \<and> truthy x))"
  shows "\<exists>p v. create_payment P gm owner MOCK amount cm mt token descr cust metadata key w = (Inr p, v) \<and>
    pay_id p = i \<and> pay_owner_id p = usr_id owner \<and> pay_amount p = minor_units amount \<and> pay_currency p = currency amount \<and>
    pay_status p = (if fails then FAILED else if cm = MANUAL then AUTHORIZED else CAPTURED) \<and>
    pay_amount_captured p = (if pay_status p = CAPTURED then minor_units amount else 0) \<and> pay_amount_refunded p = 0"
proof -
  let ?p0 = "new_payment owner MOCK amount cm mt descr cust metadata i (db_now P e)"
  let ?w1 = "w\<lparr>env := e, pending := [PaymentRow ?p0]\<rparr>"
  let ?w2 = "w\<lparr>env := e, objs := (objs w)\<lparr>payments := payments (objs w) @ [?p0]\<rparr>, pending := []\<rparr>"
  let ?ctx = "\<lparr> ctx_secret = MOCK_SANDBOX_SECRET, ctx_sandbox = True, ctx_config = [], ctx_http = gm_http gm \<rparr>"
  let ?rq = "\<lparr> cr_amount = amount, cr_capture_method = cm, cr_method_type = mt,
      cr_payment_method_token = token, cr_description = descr,
      cr_customer_reference = cust, cr_idempotency_key = key, cr_metadata = metadata \<rparr>"
  have add: "add_row P PaymentRow (new_payment owner MOCK amount cm mt descr cust metadata) w = (Inr ?p0, ?w1)"
    using assms(3,6) by (simp add: add_row_def Let_def)
  have flush: "flush P ?w1 = (Inr (), ?w2)" using assms(7) by (simp add: flush_def)
  have get: "get_provider P gm (usr_id owner) MOCK ?w2 = (Inr (MockProvider P ?ctx), ?w2)"
    using assms(5) by (intro mock_unconfigured) simp
  have op: "ad_create_payment (MockProvider P ?ctx) ?rq = mock_create_payment P ?rq" by (simp add: MockProvider_def)
  have env: "env_only (mock_create_payment P ?rq)" using mock.create_env [of P ?ctx ?rq] op by simp
  have "cb_state (get_breaker gm MOCK ?w2) \<noteq> OPEN" using assms(4) by (simp add: get_breaker_def)
  from execute_returns [OF this assms(2) env mock_create_returns, of P] obtain c v
    where exec: "execute P gm MOCK (mock_create_payment P ?rq) ?w2 = (Inr c, v)" by blast
  from execute_Inr [OF env exec] obtain u u' where "mock_create_payment P ?rq u = (Inr c, u')" by blast
  then have c: "chg_status c = (if fails then FAILED else if cm = MANUAL then AUTHORIZED else CAPTURED)"
    "chg_amount_captured c = (if chg_status c = CAPTURED then minor_units amount else 0)"
    using mock_create_charge [of P ?rq u c u'] fails by (auto simp: should_fail_def split: option.splits)
  have "\<exists>v'. create_payment P gm owner MOCK amount cm mt token descr cust metadata key w =
      (Inr (fst (apply_charge c (?p0\<lparr>pay_provider_reference := Some (chg_reference c)\<rparr>))), v')"
    using assms(1) c
    by (simp only: create_payment_def ensure_def assms(1) if_True andThen_return
        andThen_step [of "add_row P PaymentRow (new_payment owner MOCK amount cm mt descr cust metadata)" w, OF add]
        andThen_step [of "flush P" ?w1, OF flush] andThen_step [of "get_provider P gm (usr_id owner) MOCK" ?w2, OF get] op
        andThen_step [of "execute P gm MOCK (mock_create_payment P ?rq)" ?w2, OF exec])
      (auto simp: op_simps put_payment_def payment_metric_def inc_def audit_record_def add_row_def Let_def
        assert_transition_def new_payment_def split: prod.splits)
  then obtain v' where run: "create_payment P gm owner MOCK amount cm mt token descr cust metadata key w =
      (Inr (fst (apply_charge c (?p0\<lparr>pay_provider_reference := Some (chg_reference c)\<rparr>))), v')" by blast
  show ?thesis
    by (intro exI conjI, rule run) (simp_all add: c apply_charge_def Let_def new_payment_def)
qed

text \<open>The sandbox works out of the box: for a tenant without configuration, a positive amount
  and a closed circuit, \<open>create_payment\<close> with the sandbox provider returns a payment of that
  tenant, amount and currency; it is failed exactly when a magic input asks for it, authorized
  with nothing captured under manual capture, and otherwise captured in full.\<close>

theorem sandbox_create_succeeds:
  assumes "is_positive amount" and "1 \<le> provider_max_retries (gm_settings gm)" and "pending w = []"
    and "cb_state (get_breaker gm MOCK w) \<noteq> OPEN"
    and "filter (\<lambda>c. cfg_owner_id c = usr_id owner \<and> cfg_provider c = MOCK \<and> cfg_is_active c) (provider_configs (objs w)) = []"
    and "uuid4 P (env w) = (i, e)"
    and "db_accepts P ((objs w)\<lparr>payments := payments (objs w) @
           [new_payment owner MOCK amount cm mt descr cust metadata i (db_now P e)]\<rparr>)"
    and fails: "fails = (token = Some ''pm_fail'' \<or> (\<exists>x. map_of metadata ''force_failure'' = Some x \<and> truthy x))"
  shows "\<exists>p v. create_payment P gm owner MOCK amount cm mt token descr cust metadata key w = (Inr p, v) \<and>
    pay_id p = i \<and> pay_owner_id p = usr_id owner \<and> pay_amount p = minor_units amount \<and> pay_currency p = currency amount \<and>
    pay_status p = (if fails then FAILED else if cm = MANUAL then AUTHORIZED else CAPTURED) \<and>
    pay_amount_captured p = (if pay_status p = CAPTURED then minor_units amount else 0) \<and> pay_amount_refunded p = 0"
  using assms by (rule mock_create_runs)

theorem sandbox_create_succeeds_witness:
  "\<exists>p v. create_payment sandbox sandbox_gateway demo_user MOCK demo_amount AUTOMATIC PaymentMethodType.CARD
       None None None [] None (sandbox_world Map.empty) = (Inr p, v) \<and>
     pay_status p = CAPTURED \<and> pay_amount_captured p = 1000"
  using sandbox_create_succeeds [OF sandbox_facts refl] by (force simp: demo_amount_def)


end
