(* ===== verification/Refunds.thy ===== *)
theory Refunds
  imports Payments
begin

text \<open>
  The refund service, \<^verbatim>\<open>app/services/refunds.py\<close>: full and partial refunds against a captured
  payment.
\<close>

section \<open>Operations\<close>

definition REFUNDABLE_STATES :: "PaymentStatus list" where
  "REFUNDABLE_STATES = [CAPTURED, PARTIALLY_REFUNDED]"

definition create_refund ::
  "'e platform \<Rightarrow> GatewayManager \<Rightarrow> User \<Rightarrow> uuid \<Rightarrow> int option \<Rightarrow> string option \<Rightarrow> ('e world, exc, Refund) op" where
  "create_refund P gm owner payment_id amount_minor reason =
     andThen (get_for_owner payment_id (usr_id owner)) (\<lambda>found.
     case found of
       None \<Rightarrow> throw (err NotFoundError ''payment not found'')
     | Some payment \<Rightarrow>
     andThen (ensure (pay_status payment \<in> set REFUNDABLE_STATES)
                (err_with InvalidStateError ''only captured payments can be refunded''
                   [(''status'', JStr (PaymentStatus_value (pay_status payment)))])) (\<lambda>_.
     let refundable = amount_refundable payment
     in
     andThen (lift_result (Money (case amount_minor of Some a \<Rightarrow> a | None \<Rightarrow> refundable) (pay_currency payment))) (\<lambda>refund_amount.
     andThen (ensure (is_positive refund_amount)
                (err ValidationError ''refund amount must be greater than zero'')) (\<lambda>_.
     andThen (ensure (\<not> minor_units refund_amount > refundable)
                (err_with ValidationError ''refund amount exceeds refundable balance''
                   [(''refundable_minor_units'', JInt refundable)])) (\<lambda>_.
     andThen (get_provider P gm (usr_id owner) (pay_provider payment)) (\<lambda>adapter.
     andThen (execute P gm (pay_provider payment)
                (ad_refund adapter (case pay_provider_reference payment of None \<Rightarrow> [] | Some r \<Rightarrow> r)
                   refund_amount reason)) (\<lambda>result.
     andThen (add_row P RefundRow (\<lambda>i now.
                \<lparr> rfd_id = i, rfd_payment_id = pay_id payment, rfd_amount = minor_units refund_amount,
                  rfd_currency = pay_currency payment,
                  rfd_status = (if prf_status result = ''succeeded'' then REFUND_SUCCEEDED else REFUND_PENDING),
                  rfd_reason = reason, rfd_provider_reference = Some (prf_reference result),
                  rfd_created_at = now \<rparr>)) (\<lambda>refund.
     let payment = payment\<lparr>pay_amount_refunded := pay_amount_refunded payment + minor_units refund_amount\<rparr>;
         target = (if pay_amount_refunded payment \<ge> pay_amount_captured payment then REFUNDED
                   else PARTIALLY_REFUNDED)
     in andThen (put_payment payment) (\<lambda>_.
        andThen (lift_result (assert_transition (pay_status payment) target)) (\<lambda>_.
        andThen (put_payment (payment\<lparr>pay_status := target\<rparr>)) (\<lambda>_.
        andThen (flush P) (\<lambda>_.
        andThen (payment_metric ''refund'' (pay_provider payment) ''succeeded'') (\<lambda>_.
        andThen (audit_record P REFUND_CREATED (Some (usr_id owner)) (Some ''refund'')
                   (Some (uuid_str (rfd_id refund))) []) (\<lambda>_.
        return refund))))))))))))))"

section \<open>Unit of work\<close>

interpretation refund_body: unit_of_work_body "create_refund P gm owner i amount reason"
    for P gm owner i amount reason
  by unfold_locales
    (auto simp: create_refund_def Let_def payment_adapter.refund_env
      intro!: keeps_intros keeps_provider_call keeps_committed_execute)

end
