(* ===== verification/Session.thy ===== *)
theory Session
  imports Refunds "HOL-Library.Sublist"
begin

text \<open>
  What a session would commit, and the tables that only grow.  The view of a session is what a
  flush of its pending rows would leave in it; on success \<open>session_scope\<close> commits exactly that.
  A table that no operation updates in place is append-only: whatever a request does, its rows
  of before stay, in order, at the front.
\<close>

section \<open>The view of a session\<close>

definition view :: "'e world \<Rightarrow> tables" where
  "view w = fold insert_row (pending w) (objs w)"

lemma view_fresh [simp]: "view (w\<lparr>objs := t, pending := []\<rparr>) = t"
  by (simp add: view_def)

lemma view_env [simp]: "view (w\<lparr>env := e\<rparr>) = view w"
  by (simp add: view_def)

lemma view_metrics [simp]: "view (w\<lparr>metrics := ms\<rparr>) = view w"
  by (simp add: view_def)

lemma view_breakers [simp]: "view (w\<lparr>breakers := bs\<rparr>) = view w"
  by (simp add: view_def)

lemma same_session_view: "same_session w v \<Longrightarrow> view v = view w"
  by (simp add: same_session_def view_def)

lemma view_flush: "flush P w = (Inr u, v) \<Longrightarrow> view v = view w \<and> objs v = view w \<and> pending v = []"
  by (auto simp: op_splits view_def)

lemma session_scope_cases:
  assumes "session_scope P body w = (r, v)"
  obtains (raised) e where "r = Inl e"
    | (returned) a u where "r = Inr a" and "body (w\<lparr>objs := committed w, pending := []\<rparr>) = (Inr a, u)"
      and "committed v = view u" and "db_accepts P (view u)" and "env v = env u"
  using assms by (auto simp: unit_of_work Let_def view_def split: prod.splits sum.splits if_splits)

lemma session_scope_Inr:
  assumes "session_scope P body w = (Inr a, v)"
  obtains u where "body (w\<lparr>objs := committed w, pending := []\<rparr>) = (Inr a, u)"
    and "committed v = view u" and "db_accepts P (view u)" and "env v = env u"
  using assms by (rule session_scope_cases) simp_all

text \<open>A property of the committed rows that the body carries to its view is kept by the request.\<close>

context unit_of_work_body
begin

lemma keeps_view:
  assumes "session_scope P body w = (r, v)" and "I (committed w)" and "keeps (\<lambda>u. I (view u)) body"
  shows "I (committed v)"
  using assms(1,2)
proof (rule preserves)
  fix a u assume "body (w\<lparr>objs := committed w, pending := []\<rparr>) = (Inr a, u)"
  then show "I (fold insert_row (pending u) (objs u))"
    using keepsD [OF assms(3)] assms(2) by (fastforce simp: view_def)
qed

end

section \<open>Append-only tables\<close>

locale append_only =
  fixes table :: "tables \<Rightarrow> 'r list" and row_of :: "row \<Rightarrow> 'r option"
  assumes insert: "table (insert_row r t) = table t @ (case row_of r of None \<Rightarrow> [] | Some x \<Rightarrow> [x])"
    and updates: "table (t\<lparr>payments := ps\<rparr>) = table t" "table (t\<lparr>users := us\<rparr>) = table t"
      "table (t\<lparr>api_keys := ks\<rparr>) = table t"
begin

lemma inserted: "table (fold insert_row rs t) = table t @ List.map_filter row_of rs"
  by (induction rs arbitrary: t) (auto simp: insert List.map_filter_simps split: option.splits)

lemma view_table: "table (view w) = table (objs w) @ List.map_filter row_of (pending w)"
  by (simp add: view_def inserted)

lemma map_filter_append: "List.map_filter f (xs @ ys) = List.map_filter f xs @ List.map_filter f ys"
  by (induction xs) (auto simp: List.map_filter_simps split: option.splits)

lemma view_add:
  "table (view (w\<lparr>env := e, pending := pending w @ [r]\<rparr>)) = table (view w) @ List.map_filter row_of [r]"
  by (simp add: view_table map_filter_append)

lemma grows_add_row [keeps_intros]: "keeps (\<lambda>v. prefix A (table (view v))) (add_row P mk row)"
  by (auto simp: keeps_def add_row_def Let_def view_add intro: prefix_prefix split: prod.splits)

lemma grows_flush [keeps_intros]: "keeps (\<lambda>v. prefix A (table (view v))) (flush P)"
  by (auto simp: keeps_def flush_def Let_def view_def)

lemma grows_put [keeps_intros]:
  "keeps (\<lambda>v. prefix A (table (view v))) (put_payment p)"
  "keeps (\<lambda>v. prefix A (table (view v))) (put_user u)"
  "keeps (\<lambda>v. prefix A (table (view v))) (put_api_key k)"
  by (auto simp: keeps_def put_payment_def put_user_def put_api_key_def op_simps view_table updates)

lemma grows_metric [keeps_intros]:
  "keeps (\<lambda>v. prefix A (table (view v))) (inc name labels)"
  "keeps (\<lambda>v. prefix A (table (view v))) (observe name labels x)"
  by (auto simp: keeps_def inc_def observe_def op_simps)

lemma grows_select [keeps_intros]:
  "keeps (\<lambda>v. prefix A (table (view v))) (select_one rows cond)"
  "keeps (\<lambda>v. prefix A (table (view v))) (get_by_id rows key i)"
  "keeps (\<lambda>v. prefix A (table (view v))) (get_for_owner i own)"
  by (auto simp: keeps_def select_one_eq get_by_id_def get_for_owner_def op_simps)

lemma grows_audit [keeps_intros]:
  "keeps (\<lambda>v. prefix A (table (view v))) (audit_record P action actor rt ri ctx)"
  by (auto simp: audit_record_def intro!: keeps_intros grows_add_row)

lemmas grows = grows_add_row grows_flush grows_put grows_metric grows_select grows_audit

end

text \<open>The tables no operation of the program updates: audit log, refunds, idempotency records, webhook events.\<close>

fun audit_row :: "row \<Rightarrow> AuditLog option" where
  "audit_row (AuditLogRow r) = Some r" | "audit_row _ = None"

fun refund_row :: "row \<Rightarrow> Refund option" where
  "refund_row (RefundRow r) = Some r" | "refund_row _ = None"

fun idempotency_row :: "row \<Rightarrow> IdempotencyKey option" where
  "idempotency_row (IdempotencyKeyRow r) = Some r" | "idempotency_row _ = None"

fun webhook_row :: "row \<Rightarrow> WebhookEvent option" where
  "webhook_row (WebhookEventRow r) = Some r" | "webhook_row _ = None"

lemma insert_row_tables:
  "audit_logs (insert_row r t) = audit_logs t @ (case audit_row r of None \<Rightarrow> [] | Some x \<Rightarrow> [x])"
  "refunds (insert_row r t) = refunds t @ (case refund_row r of None \<Rightarrow> [] | Some x \<Rightarrow> [x])"
  "idempotency_keys (insert_row r t) = idempotency_keys t @ (case idempotency_row r of None \<Rightarrow> [] | Some x \<Rightarrow> [x])"
  "webhook_events (insert_row r t) = webhook_events t @ (case webhook_row r of None \<Rightarrow> [] | Some x \<Rightarrow> [x])"
  by (cases r; simp)+

interpretation audit_log: append_only audit_logs audit_row
  by unfold_locales (simp_all add: insert_row_tables)

interpretation refund_log: append_only refunds refund_row
  by unfold_locales (simp_all add: insert_row_tables)

interpretation idempotency_log: append_only idempotency_keys idempotency_row
  by unfold_locales (simp_all add: insert_row_tables)

interpretation event_log: append_only webhook_events webhook_row
  by unfold_locales (simp_all add: insert_row_tables)

end
