(* ===== verification/Idempotency.thy ===== *)
theory Idempotency
  imports Session
begin

text \<open>
  Idempotent requests: the record keeping of \<^verbatim>\<open>app/services/idempotency.py\<close> and the way the two
  endpoints that move money use it (\<^verbatim>\<open>app/api/v1/payments.py\<close>, \<^verbatim>\<open>app/api/v1/refunds.py\<close>): look the
  key up, answer a repetition with the stored response, otherwise run the service and store what
  it answered in the same unit of work.
\<close>

section \<open>The service\<close>

record StoredResponse =
  sr_status :: int
  sr_body :: json

definition hash_body :: "json \<Rightarrow> string" where
  "hash_body body = hexdigest (sha256 (utf8 (json_dumps body)))"

definition key_conflict :: "string \<Rightarrow> exc" where
  "key_conflict key =
     err_with IdempotencyConflictError ''idempotency key reused with a different request body''
       [(''key'', JStr key)]"

definition lookup ::
  "uuid \<Rightarrow> string \<Rightarrow> string \<Rightarrow> json \<Rightarrow> ('e world, exc, StoredResponse option) op" where
  "lookup owner_id endpoint key request_body =
     andThen (idempotency_get owner_id endpoint key) (\<lambda>record.
     case record of
       None \<Rightarrow> return None
     | Some r \<Rightarrow>
         andThen (ensure (idk_request_hash r = hash_body request_body) (key_conflict key)) (\<lambda>_.
         return (Some \<lparr>sr_status = idk_response_status r, sr_body = idk_response_body r\<rparr>)))"

definition new_record :: "uuid \<Rightarrow> string \<Rightarrow> string \<Rightarrow> json \<Rightarrow> int \<Rightarrow> json \<Rightarrow> uuid \<Rightarrow> IdempotencyKey" where
  "new_record owner_id endpoint key request_body status response_body i =
     \<lparr> idk_id = i, idk_owner_id = owner_id, idk_endpoint = endpoint, idk_key = key,
       idk_request_hash = hash_body request_body, idk_response_status = status,
       idk_response_body = response_body \<rparr>"

definition store ::
  "'e platform \<Rightarrow> uuid \<Rightarrow> string \<Rightarrow> string \<Rightarrow> json \<Rightarrow> int \<Rightarrow> json \<Rightarrow> ('e world, exc, unit) op" where
  "store P owner_id endpoint key request_body status response_body =
     andThen (add_row P IdempotencyKeyRow (\<lambda>i now.
        new_record owner_id endpoint key request_body status response_body i)) (\<lambda>_.
     flush P)"

section \<open>Its use by an endpoint\<close>

text \<open>
  \<open>if idempotency_key: cached = lookup(...)\<close>; the service call; \<open>if idempotency_key: store(...)\<close>.
  A missing key and an empty one are alike.
\<close>

definition with_idempotency ::
  "'e platform \<Rightarrow> uuid \<Rightarrow> string \<Rightarrow> string option \<Rightarrow> json \<Rightarrow> ('e world, exc, json) op
   \<Rightarrow> ('e world, exc, StoredResponse) op" where
  "with_idempotency P owner_id endpoint key body action =
     andThen (case key of
                None \<Rightarrow> return None
              | Some k \<Rightarrow> if k = [] then return None else lookup owner_id endpoint k body) (\<lambda>cached.
     case cached of
       Some r \<Rightarrow> return r
     | None \<Rightarrow>
         andThen action (\<lambda>response_body.
         andThen (case key of
                    None \<Rightarrow> return ()
                  | Some k \<Rightarrow> if k = [] then return ()
                              else store P owner_id endpoint k body 201 response_body) (\<lambda>_.
         return \<lparr>sr_status = 201, sr_body = response_body\<rparr>)))"

section \<open>Lemmas\<close>

lemma lookup_eq:
  "lookup owner_id endpoint key body w =
     (case scalar_one_or_none (filter (\<lambda>k. idk_owner_id k = owner_id \<and> idk_endpoint k = endpoint \<and> idk_key k = key)
             (idempotency_keys (objs w))) of
        Inl e \<Rightarrow> (Inl e, w)
      | Inr None \<Rightarrow> (Inr None, w)
      | Inr (Some r) \<Rightarrow>
          if idk_request_hash r = hash_body body
          then (Inr (Some \<lparr>sr_status = idk_response_status r, sr_body = idk_response_body r\<rparr>), w)
          else (Inl (key_conflict key), w))"
  by (auto simp: lookup_def idempotency_get_def select_one_eq op_simps split: sum.splits option.splits)

lemma lookup_reads [op_splits]: "lookup owner_id endpoint key body w = (r, v) \<Longrightarrow> v = w"
  by (auto simp: lookup_eq split: sum.splits option.splits if_splits)

lemma keeps_lookup [keeps_intros]: "keeps I (lookup owner_id endpoint key body)"
  by (rule keepsI) (auto dest: lookup_reads)

lemma keeps_committed_store [keeps_intros]:
  "keeps (\<lambda>v. committed v = c) (store P owner_id endpoint key body status resp)"
  by (auto simp: store_def intro!: keeps_intros)

lemma keeps_with_idempotency:
  assumes "keeps I action" and "\<And>k b. keeps I (store P owner_id endpoint k body 201 b)"
  shows "keeps I (with_idempotency P owner_id endpoint key body action)"
  using assms by (auto simp: with_idempotency_def intro!: keeps_intros)

text \<open>A record that answers a request: the only one for its owner, endpoint and key, with the request's hash.\<close>

definition answers :: "IdempotencyKey \<Rightarrow> uuid \<Rightarrow> string \<Rightarrow> string \<Rightarrow> json \<Rightarrow> bool" where
  "answers r owner_id endpoint key body \<longleftrightarrow>
     idk_owner_id r = owner_id \<and> idk_endpoint r = endpoint \<and> idk_key r = key \<and> idk_request_hash r = hash_body body"

definition unique_records :: "tables \<Rightarrow> bool" where
  "unique_records t \<longleftrightarrow> distinct (map (\<lambda>k. (idk_owner_id k, idk_endpoint k, idk_key k)) (idempotency_keys t))"

lemma distinct_filter_one:
  "distinct (map f xs) \<Longrightarrow> x \<in> set xs \<Longrightarrow> filter (\<lambda>y. f y = f x) xs = [x]"
proof (induction xs)
  case (Cons y ys)
  then show ?case by (auto simp: filter_empty_conv) (metis image_eqI)+
qed simp

lemma record_found:
  assumes "r \<in> set (idempotency_keys t)" and "unique_records t" and "answers r owner_id endpoint key body"
  shows "filter (\<lambda>k. idk_owner_id k = owner_id \<and> idk_endpoint k = endpoint \<and> idk_key k = key) (idempotency_keys t) = [r]"
  using distinct_filter_one [of "\<lambda>k. (idk_owner_id k, idk_endpoint k, idk_key k)" "idempotency_keys t" r] assms
  by (simp add: unique_records_def answers_def)

text \<open>Replaying: whatever the action, it is not run.\<close>

lemma replayed:
  assumes "r \<in> set (idempotency_keys (objs w))" and "unique_records (objs w)"
    and "answers r owner_id endpoint key body" and "key \<noteq> []"
  shows "with_idempotency P owner_id endpoint (Some key) body action w =
    (Inr \<lparr>sr_status = idk_response_status r, sr_body = idk_response_body r\<rparr>, w)"
  using assms record_found [OF assms(1-3)]
  by (simp add: with_idempotency_def lookup_eq op_simps scalar_one_or_none_def answers_def)

lemma lookup_Inr:
  assumes "lookup owner_id endpoint key body w = (Inr found, v)"
  shows "case found of
      None \<Rightarrow> \<forall>r \<in> set (idempotency_keys (objs w)). \<not> (idk_owner_id r = owner_id \<and> idk_endpoint r = endpoint \<and> idk_key r = key)
    | Some s \<Rightarrow> \<exists>r \<in> set (idempotency_keys (objs w)). answers r owner_id endpoint key body \<and>
        s = \<lparr>sr_status = idk_response_status r, sr_body = idk_response_body r\<rparr>"
proof -
  let ?rs = "filter (\<lambda>k. idk_owner_id k = owner_id \<and> idk_endpoint k = endpoint \<and> idk_key k = key) (idempotency_keys (objs w))"
  obtain q where q: "scalar_one_or_none ?rs = Inr q"
    using assms by (auto simp: lookup_eq split: sum.splits)
  show ?thesis
  proof (cases q)
    case None
    then have "?rs = []" using q by (simp add: scalar_one_or_none_None)
    then show ?thesis using assms q None by (auto simp: lookup_eq filter_empty_conv)
  next
    case (Some r)
    then have "?rs = [r]" using q by (simp add: scalar_one_or_none_Some)
    then have "r \<in> set ?rs" by simp
    then show ?thesis
      using assms q Some by (auto simp: lookup_eq answers_def split: if_splits)
  qed
qed

text \<open>A request that returned was answered from a record or was run and recorded.\<close>

lemma with_idempotency_cases:
  assumes "with_idempotency P owner_id endpoint (Some key) body action w = (Inr s, v)" and "key \<noteq> []"
  obtains (replay) r where "r \<in> set (idempotency_keys (objs w))" and "answers r owner_id endpoint key body"
      and "s = \<lparr>sr_status = idk_response_status r, sr_body = idk_response_body r\<rparr>" and "v = w"
    | (first) "\<forall>r \<in> set (idempotency_keys (objs w)). \<not> (idk_owner_id r = owner_id \<and> idk_endpoint r = endpoint \<and> idk_key r = key)"
proof -
  obtain found u where l: "lookup owner_id endpoint key body w = (Inr found, u)"
    using assms by (auto simp: with_idempotency_def op_splits)
  show thesis
  proof (cases found)
    case None
    then show thesis using lookup_Inr [OF l] first by simp
  next
    case (Some t)
    then have "s = t" "v = w"
      using assms l lookup_reads [OF l] by (auto simp: with_idempotency_def op_splits op_simps)
    then show thesis using lookup_Inr [OF l] replay Some by auto
  qed
qed

text \<open>Running for the first time: the response is stored under the key in the same session.\<close>

lemma first_run:
  assumes "with_idempotency P owner_id endpoint (Some key) body action w = (Inr resp, v)" and "key \<noteq> []"
    and "\<And>r. r \<in> set (idempotency_keys (objs w)) \<Longrightarrow>
           \<not> (idk_owner_id r = owner_id \<and> idk_endpoint r = endpoint \<and> idk_key r = key)"
  obtains u i where "action w = (Inr (sr_body resp), u)" and "sr_status resp = 201"
    and "db_accepts P (view v)" and "pending v = []"
    and "objs v = insert_row (IdempotencyKeyRow (new_record owner_id endpoint key body 201 (sr_body resp) i)) (view u)"
proof -
  have none: "lookup owner_id endpoint key body w = (Inr None, w)"
    using assms(3) by (auto simp: lookup_eq scalar_one_or_none_def filter_empty_conv)
  obtain u where act: "action w = (Inr (sr_body resp), u)" and "sr_status resp = 201"
    and st: "store P owner_id endpoint key body 201 (sr_body resp) u = (Inr (), v)"
    using assms(1,2) none by (auto simp: with_idempotency_def op_splits op_simps split: prod.splits sum.splits)
  moreover obtain i where
    "objs v = insert_row (IdempotencyKeyRow (new_record owner_id endpoint key body 201 (sr_body resp) i)) (view u)"
    "pending v = []" "db_accepts P (objs v)"
    using st by (auto simp: store_def op_splits view_def)
  ultimately show thesis using that by (simp add: view_def)
qed

end
