(* ===== verification/Ledger.thy ===== *)
theory Ledger
  imports Refunds
begin

text \<open>
  The money invariant of the payment and refund services: what a payment records as captured and
  refunded is consistent with its amount, its status and the refund rows of the database, in
  every database that the services can produce, as long as the database enforces its unique
  constraints and providers do not report more captured than was asked for.
\<close>

section \<open>The invariant\<close>

definition payment_ok :: "Payment \<Rightarrow> bool" where
  "payment_ok p \<longleftrightarrow>
     0 < pay_amount p \<and> 0 \<le> pay_amount_refunded p \<and> pay_amount_refunded p \<le> pay_amount_captured p \<and>
     pay_amount_captured p \<le> pay_amount p \<and>
     (case pay_status p of
        CAPTURED \<Rightarrow> pay_amount_refunded p = 0
      | PARTIALLY_REFUNDED \<Rightarrow> 0 < pay_amount_refunded p \<and> pay_amount_refunded p < pay_amount_captured p
      | REFUNDED \<Rightarrow> 0 < pay_amount_refunded p \<and> pay_amount_refunded p = pay_amount_captured p
      | _ \<Rightarrow> pay_amount_captured p = 0)"

definition refund_total :: "uuid \<Rightarrow> Refund list \<Rightarrow> int" where
  "refund_total i rs = sum_list (map rfd_amount (filter (\<lambda>r. rfd_payment_id r = i) rs))"

definition ledger_ok :: "tables \<Rightarrow> bool" where
  "ledger_ok t \<longleftrightarrow>
     distinct (map pay_id (payments t)) \<and>
     (\<forall>p \<in> set (payments t). payment_ok p \<and> pay_amount_refunded p = refund_total (pay_id p) (refunds t)) \<and>
     (\<forall>r \<in> set (refunds t). 0 < rfd_amount r \<and> rfd_payment_id r \<in> pay_id ` set (payments t))"

definition enforces_unique :: "'e platform \<Rightarrow> bool" where
  "enforces_unique P \<longleftrightarrow> (\<forall>t. db_accepts P t \<longrightarrow> unique_ok t)"

lemma refund_total_append [simp]:
  "refund_total i (rs @ [r]) = refund_total i rs + (if rfd_payment_id r = i then rfd_amount r else 0)"
  by (simp add: refund_total_def)

lemma ledger_ok_audit [simp]: "ledger_ok (t\<lparr>audit_logs := a\<rparr>) = ledger_ok t"
  by (simp add: ledger_ok_def)

lemma unique_payment_ids: "unique_ok t \<Longrightarrow> distinct (map pay_id (payments t))"
  by (simp add: unique_ok_def unique_by_def map_filter_Some)

lemma replace_by_twice [simp]: "key p = key q \<Longrightarrow> replace_by key q (replace_by key p xs) = replace_by key q xs"
  by (simp add: replace_by_def)

lemma replace_by_ids: "key ` set (replace_by key p xs) = key ` set xs"
  by (metis replace_by_id set_map)

lemma replace_by_fresh: "key p \<notin> key ` set xs \<Longrightarrow> replace_by key p xs = xs"
  by (induction xs) (auto simp: replace_by_def)

lemma replace_by_append: "replace_by key p (xs @ ys) = replace_by key p xs @ replace_by key p ys"
  by (simp add: replace_by_def)

lemma replace_by_new: "key p \<notin> key ` set xs \<Longrightarrow> key q = key p \<Longrightarrow> replace_by key p (xs @ [q]) = xs @ [p]"
  by (simp add: replace_by_append replace_by_fresh) (simp add: replace_by_def)

section \<open>Every step of the ledger\<close>

text \<open>A new payment, not refunded yet.\<close>

lemma ledger_ok_create:
  assumes "ledger_ok t" and "payment_ok p" and "pay_amount_refunded p = 0" and "pay_id p \<notin> pay_id ` set (payments t)"
  shows "ledger_ok (t\<lparr>payments := payments t @ [p]\<rparr>)"
proof -
  have "filter (\<lambda>r. rfd_payment_id r = pay_id p) (refunds t) = []"
    using assms(1,4) unfolding ledger_ok_def filter_empty_conv by metis
  then have "refund_total (pay_id p) (refunds t) = 0" by (simp add: refund_total_def)
  then show ?thesis using assms by (auto simp: ledger_ok_def)
qed

text \<open>A payment whose refunds do not change.\<close>

lemma ledger_ok_update:
  assumes "ledger_ok t" and "q \<in> set (payments t)" and "payment_ok p" and "pay_id p = pay_id q"
    and "pay_amount_refunded p = pay_amount_refunded q"
  shows "ledger_ok (t\<lparr>payments := replace_by pay_id p (payments t)\<rparr>)"
proof -
  have "payment_ok x \<and> pay_amount_refunded x = refund_total (pay_id x) (refunds t)"
    if "x \<in> set (replace_by pay_id p (payments t))" for x
    using that assms by (auto simp: replace_by_mem ledger_ok_def)
  then show ?thesis using assms(1) by (simp add: ledger_ok_def replace_by_ids)
qed

text \<open>A refund: the row and the payment's total move together.\<close>

lemma ledger_ok_refund:
  assumes "ledger_ok t" and "q \<in> set (payments t)" and "payment_ok p" and "pay_id p = pay_id q"
    and "0 < rfd_amount r" and "rfd_payment_id r = pay_id q"
    and "pay_amount_refunded p = pay_amount_refunded q + rfd_amount r"
  shows "ledger_ok (t\<lparr>payments := replace_by pay_id p (payments t), refunds := refunds t @ [r]\<rparr>)"
proof -
  have "payment_ok x \<and> pay_amount_refunded x = refund_total (pay_id x) (refunds t @ [r])"
    if "x \<in> set (replace_by pay_id p (payments t))" for x
    using that assms by (auto simp: replace_by_mem ledger_ok_def)
  moreover have "0 < rfd_amount x \<and> rfd_payment_id x \<in> pay_id ` set (payments t)"
    if "x \<in> set (refunds t @ [r])" for x
    using that assms by (auto simp: ledger_ok_def)
  ultimately show ?thesis using assms(1) by (simp add: ledger_ok_def replace_by_ids)
qed

section \<open>What a successful operation leaves in the session\<close>

lemma audit_record_Inr [op_splits]:
  "audit_record P action actor rt ri ctx w = (Inr a, v) \<longleftrightarrow>
     (\<exists>i e. uuid4 P (env w) = (i, e) \<and>
        a = \<lparr> aud_id = i, aud_actor_id = actor, aud_action = action, aud_resource_type = rt, aud_resource_id = ri,
              aud_correlation_id = (if correlation_id w = [] then None else Some (correlation_id w)), aud_context = ctx \<rparr> \<and>
        v = w\<lparr>env := e, pending := pending w @ [AuditLogRow a]\<rparr>)"
  by (auto simp: audit_record_def op_splits)

lemma put_payment_Inr [op_splits]:
  "put_payment p w = (Inr u, v) \<longleftrightarrow>
     v = w\<lparr>objs := (objs w)\<lparr>payments := replace_by pay_id p (payments (objs w))\<rparr>\<rparr>"
  by (auto simp: put_payment_def op_splits)

lemma payment_metric_Inr [op_splits]:
  "payment_metric operation provider outcome w = (Inr u, v) \<longleftrightarrow>
     v = w\<lparr>metrics := metrics w @ [Inc ''upgi_payment_operations_total'' [operation, ProviderName_value provider, outcome]]\<rparr>"
  by (auto simp: payment_metric_def inc_def op_splits)

lemma select_found: "scalar_one_or_none (filter c xs) = Inr (Some p) \<Longrightarrow> p \<in> set xs \<and> c p"
proof -
  assume "scalar_one_or_none (filter c xs) = Inr (Some p)"
  then have "filter c xs = [p]" by (rule scalar_one_or_none_Some)
  then have "p \<in> set (filter c xs)" by simp
  then show ?thesis by simp
qed

lemma require_payment_Inr:
  "require_payment owner i w = (Inr p, v) \<Longrightarrow>
     v = w \<and> p \<in> set (payments (objs w)) \<and> pay_id p = i \<and> pay_owner_id p = usr_id owner"
  by (auto simp: require_payment_def get_for_owner_def op_splits dest: select_found split: option.splits)

lemma create_payment_Inr:
  assumes run: "create_payment P gm owner provider amount cm mt token descr cust metadata key w = (Inr p, v)"
    and "pending w = []"
  obtains p0 i now charge adapter rq u u' u'' a where
    "is_positive amount" and "p0 = new_payment owner provider amount cm mt descr cust metadata i now"
    and "db_accepts P ((objs w)\<lparr>payments := payments (objs w) @ [p0]\<rparr>)"
    and "get_provider P gm (usr_id owner) provider u = (Inr adapter, u)"
    and "cr_amount rq = amount" and "ad_create_payment adapter rq u' = (Inr charge, u'')"
    and "can_transition REQUIRES_CONFIRMATION (chg_status charge)"
    and "p = fst (apply_charge charge (p0\<lparr>pay_provider_reference := Some (chg_reference charge)\<rparr>))"
    and "objs v = (objs w)\<lparr>payments := replace_by pay_id p (payments (objs w) @ [p0])\<rparr>"
    and "pending v = [AuditLogRow a]"
proof -
  let ?rq = "\<lparr> cr_amount = amount, cr_capture_method = cm, cr_method_type = mt,
      cr_payment_method_token = token, cr_description = descr,
      cr_customer_reference = cust, cr_idempotency_key = key, cr_metadata = metadata \<rparr>"
  from run obtain p0 w1 x w2 adapter w3 charge w4 where pos: "is_positive amount"
    and add: "add_row P PaymentRow (new_payment owner provider amount cm mt descr cust metadata) w = (Inr p0, w1)"
    and flush: "flush P w1 = (Inr x, w2)" and get: "get_provider P gm (usr_id owner) provider w2 = (Inr adapter, w3)"
    and exec: "execute P gm provider (ad_create_payment adapter ?rq) w3 = (Inr charge, w4)"
    and rest: "(let payment = p0\<lparr>pay_provider_reference := Some (chg_reference charge)\<rparr>
     in andThen (put_payment payment) (\<lambda>_.
        andThen (lift_result (assert_transition (pay_status payment) (chg_status charge))) (\<lambda>_.
        case apply_charge charge payment of (payment, action, outcome) \<Rightarrow>
          andThen (put_payment payment) (\<lambda>_.
          andThen (payment_metric ''create'' provider outcome) (\<lambda>_.
          andThen (audit_record P action (Some (usr_id owner)) (Some ''payment'')
                     (Some (uuid_str (pay_id payment))) []) (\<lambda>_.
          return payment)))))) w4 = (Inr p, v)"
    unfolding create_payment_def by (auto simp only: andThen_Inr ensure_Inr)
  from add obtain i e where p0: "p0 = new_payment owner provider amount cm mt descr cust metadata i (db_now P e)"
    and w1: "w1 = w\<lparr>env := e, pending := [PaymentRow p0]\<rparr>"
    using assms(2) by (auto simp: op_splits)
  have ok: "db_accepts P ((objs w)\<lparr>payments := payments (objs w) @ [p0]\<rparr>)"
    and w2: "objs w2 = (objs w)\<lparr>payments := payments (objs w) @ [p0]\<rparr>" "pending w2 = []"
    using flush w1 by (auto simp: op_splits)
  have w3: "w3 = w2" using get by (rule get_provider_reads)
  have env: "env_only (ad_create_payment adapter ?rq)"
    using get_provider_adapter [OF get] by (rule payment_adapter.create_env)
  from execute_Inr [OF env exec] obtain u u' where call: "ad_create_payment adapter ?rq u = (Inr charge, u')"
    and w4: "same_session w3 w4" by blast
  have tr: "can_transition REQUIRES_CONFIRMATION (chg_status charge)"
    and p: "p = fst (apply_charge charge (p0\<lparr>pay_provider_reference := Some (chg_reference charge)\<rparr>))"
    and v: "\<exists>a. objs v = (objs w4)\<lparr>payments := replace_by pay_id p (replace_by pay_id
          (p0\<lparr>pay_provider_reference := Some (chg_reference charge)\<rparr>) (payments (objs w4)))\<rparr> \<and>
        pending v = pending w4 @ [AuditLogRow a]"
    using rest p0 by (auto simp: Let_def op_splits new_payment_def split: prod.splits)
  have "pay_id p = pay_id p0" by (auto simp: p apply_charge_def Let_def)
  then show thesis
    using that [OF pos p0 ok get [unfolded w3] _ call tr p] v w2 w3 w4 by (auto simp: same_session_def)
qed

lemma capture_payment_Inr:
  assumes run: "capture_payment P gm owner i amount w = (Inr p, v)"
  obtains q m adapter charge ref u u' where
    "q \<in> set (payments (objs w))" and "pay_id q = i" and "pay_owner_id q = usr_id owner" and "pay_status q = AUTHORIZED"
    and "case amount of Some x \<Rightarrow> m = x | None \<Rightarrow> Money (pay_amount q) (pay_currency q) = Inr m"
    and "currency m = pay_currency q" and "minor_units m \<le> pay_amount q"
    and "get_provider P gm (usr_id owner) (pay_provider q) w = (Inr adapter, w)"
    and "ad_capture adapter ref m u = (Inr charge, u')"
    and "p = q\<lparr>pay_status := CAPTURED,
           pay_amount_captured := (if chg_amount_captured charge \<noteq> 0 then chg_amount_captured charge
                                   else minor_units m)\<rparr>"
    and "objs v = (objs w)\<lparr>payments := replace_by pay_id p (payments (objs w))\<rparr>"
    and "\<exists>a. pending v = pending w @ [AuditLogRow a]"
proof -
  from run obtain q w1 m w2 adapter w3 charge w4 where req: "require_payment owner i w = (Inr q, w1)"
    and st: "pay_status q = AUTHORIZED"
    and m: "(case amount of Some m \<Rightarrow> return m
              | None \<Rightarrow> lift_result (Money (pay_amount q) (pay_currency q))) w1 = (Inr m, w2)"
    and cur: "currency m = pay_currency q" and le: "\<not> minor_units m > pay_amount q"
    and get: "get_provider P gm (usr_id owner) (pay_provider q) w2 = (Inr adapter, w3)"
    and exec: "execute P gm (pay_provider q)
                (ad_capture adapter (case pay_provider_reference q of None \<Rightarrow> [] | Some r \<Rightarrow> r) m) w3 = (Inr charge, w4)"
    and rest: "(let payment = q\<lparr>pay_status := CAPTURED,
           pay_amount_captured := (if chg_amount_captured charge \<noteq> 0 then chg_amount_captured charge
                                   else minor_units m)\<rparr>
     in andThen (put_payment payment) (\<lambda>_.
        andThen (payment_metric ''capture'' (pay_provider payment) ''captured'') (\<lambda>_.
        andThen (audit_record P PAYMENT_CAPTURED (Some (usr_id owner)) (Some ''payment'')
                   (Some (uuid_str (pay_id payment))) []) (\<lambda>_.
        return payment)))) w4 = (Inr p, v)"
    unfolding capture_payment_def by (simp only: andThen_Inr ensure_Inr lift_result_iff) blast
  have q: "w1 = w" "q \<in> set (payments (objs w))" "pay_id q = i" "pay_owner_id q = usr_id owner"
    using require_payment_Inr [OF req] by auto
  have w2: "w2 = w" and m': "case amount of Some x \<Rightarrow> m = x | None \<Rightarrow> Money (pay_amount q) (pay_currency q) = Inr m"
    using m q(1) by (auto simp: op_splits split: option.splits)
  have w3: "w3 = w2" using get by (rule get_provider_reads)
  have env: "env_only (ad_capture adapter (case pay_provider_reference q of None \<Rightarrow> [] | Some r \<Rightarrow> r) m)"
    using get_provider_adapter [OF get] by (rule payment_adapter.capture_env)
  from execute_Inr [OF env exec] obtain u u' where
    call: "ad_capture adapter (case pay_provider_reference q of None \<Rightarrow> [] | Some r \<Rightarrow> r) m u = (Inr charge, u')"
    and w4: "same_session w w4" using w2 w3 by blast
  show thesis
    by (rule that [OF q(2-4) st m' cur _ _ call])
      (use rest le w4 get w2 w3 in \<open>auto simp: Let_def op_splits same_session_def\<close>)
qed

lemma cancel_payment_Inr:
  assumes run: "cancel_payment P gm owner i w = (Inr p, v)"
  obtains q where "q \<in> set (payments (objs w))" and "pay_id q = i" and "pay_owner_id q = usr_id owner"
    and "can_transition (pay_status q) CANCELED" and "p = q\<lparr>pay_status := CANCELED\<rparr>"
    and "objs v = (objs w)\<lparr>payments := replace_by pay_id p (payments (objs w))\<rparr>"
    and "\<exists>a. pending v = pending w @ [AuditLogRow a]"
proof -
  from run obtain q w1 adapter w3 charge w4 where req: "require_payment owner i w = (Inr q, w1)"
    and tr: "can_transition (pay_status q) CANCELED"
    and get: "get_provider P gm (usr_id owner) (pay_provider q) w1 = (Inr adapter, w3)"
    and exec: "execute P gm (pay_provider q)
                (ad_cancel adapter (case pay_provider_reference q of None \<Rightarrow> [] | Some r \<Rightarrow> r)) w3 = (Inr charge, w4)"
    and rest: "(let payment = q\<lparr>pay_status := CANCELED\<rparr>
     in andThen (put_payment payment) (\<lambda>_.
        andThen (payment_metric ''cancel'' (pay_provider payment) ''canceled'') (\<lambda>_.
        andThen (audit_record P PAYMENT_CANCELED (Some (usr_id owner)) (Some ''payment'')
                   (Some (uuid_str (pay_id payment))) []) (\<lambda>_.
        return payment)))) w4 = (Inr p, v)"
    unfolding cancel_payment_def by (auto simp only: andThen_Inr ensure_Inr lift_result_iff assert_transition_Inr)
  have q: "w1 = w" "q \<in> set (payments (objs w))" "pay_id q = i" "pay_owner_id q = usr_id owner"
    using require_payment_Inr [OF req] by auto
  have w3: "w3 = w1" using get by (rule get_provider_reads)
  have env: "env_only (ad_cancel adapter (case pay_provider_reference q of None \<Rightarrow> [] | Some r \<Rightarrow> r))"
    using get_provider_adapter [OF get] by (rule payment_adapter.cancel_env)
  have "same_session w w4" using execute_env_only [OF env exec] q(1) w3 by simp
  then show thesis
    by (intro that [OF q(2-4) tr]) (use rest in \<open>auto simp: Let_def op_splits same_session_def\<close>)
qed

lemma create_refund_Inr:
  assumes run: "create_refund P gm owner i amount reason w = (Inr r, v)" and "pending w = []"
  obtains q p a where "q \<in> set (payments (objs w))" and "pay_id q = i" and "pay_owner_id q = usr_id owner"
    and "pay_status q = CAPTURED \<or> pay_status q = PARTIALLY_REFUNDED"
    and "rfd_amount r = (case amount of Some x \<Rightarrow> x | None \<Rightarrow> amount_refundable q)"
    and "0 < rfd_amount r" and "rfd_amount r \<le> amount_refundable q"
    and "rfd_payment_id r = i" and "rfd_currency r = pay_currency q"
    and "p = q\<lparr>pay_amount_refunded := pay_amount_refunded q + rfd_amount r,
               pay_status := (if pay_amount_refunded q + rfd_amount r \<ge> pay_amount_captured q then REFUNDED
                              else PARTIALLY_REFUNDED)\<rparr>"
    and "objs v = (objs w)\<lparr>payments := replace_by pay_id p (payments (objs w)), refunds := refunds (objs w) @ [r]\<rparr>"
    and "pending v = [AuditLogRow a]"
proof -
  obtain found w1 where sel: "get_for_owner i (usr_id owner) w = (Inr found, w1)"
    using run by (cases "get_for_owner i (usr_id owner) w"; cases "fst (get_for_owner i (usr_id owner) w)")
      (auto simp: create_refund_def andThen_eval)
  have "found \<noteq> None"
  proof
    assume "found = None"
    with run sel show False by (simp add: create_refund_def andThen_eval throw_eval)
  qed
  then obtain q where "found = Some q" by blast
  with sel have sel: "get_for_owner i (usr_id owner) w = (Inr (Some q), w)"
    and req: "scalar_one_or_none (filter (\<lambda>p. pay_id p = i \<and> pay_owner_id p = usr_id owner) (payments (objs w))) = Inr (Some q)"
    by (auto simp: get_for_owner_def op_splits)
  from run obtain m adapter w3 res w4 where st: "pay_status q \<in> set REFUNDABLE_STATES"
    and m: "Money (case amount of Some a \<Rightarrow> a | None \<Rightarrow> amount_refundable q) (pay_currency q) = Inr m"
    and pos: "is_positive m" and le: "\<not> minor_units m > amount_refundable q"
    and get: "get_provider P gm (usr_id owner) (pay_provider q) w = (Inr adapter, w3)"
    and exec: "execute P gm (pay_provider q)
                (ad_refund adapter (case pay_provider_reference q of None \<Rightarrow> [] | Some r \<Rightarrow> r) m reason) w3 = (Inr res, w4)"
    and rest: "andThen (add_row P RefundRow (\<lambda>i now.
                \<lparr> rfd_id = i, rfd_payment_id = pay_id q, rfd_amount = minor_units m,
                  rfd_currency = pay_currency q,
                  rfd_status = (if prf_status res = ''succeeded'' then REFUND_SUCCEEDED else REFUND_PENDING),
                  rfd_reason = reason, rfd_provider_reference = Some (prf_reference res),
                  rfd_created_at = now \<rparr>)) (\<lambda>refund.
     let payment = q\<lparr>pay_amount_refunded := pay_amount_refunded q + minor_units m\<rparr>;
         target = (if pay_amount_refunded payment \<ge> pay_amount_captured payment then REFUNDED
                   else PARTIALLY_REFUNDED)
     in andThen (put_payment payment) (\<lambda>_.
        andThen (lift_result (assert_transition (pay_status payment) target)) (\<lambda>_.
        andThen (put_payment (payment\<lparr>pay_status := target\<rparr>)) (\<lambda>_.
        andThen (flush P) (\<lambda>_.
        andThen (payment_metric ''refund'' (pay_provider payment) ''succeeded'') (\<lambda>_.
        andThen (audit_record P REFUND_CREATED (Some (usr_id owner)) (Some ''refund'')
                   (Some (uuid_str (rfd_id refund))) []) (\<lambda>_.
        return refund))))))) w4 = (Inr r, v)"
    unfolding create_refund_def andThen_step [of "get_for_owner i (usr_id owner)" w, OF sel] option.case Let_def [of "amount_refundable q"]
    by (simp only: andThen_Inr ensure_Inr lift_result_iff) blast
  have q: "q \<in> set (payments (objs w))" "pay_id q = i" "pay_owner_id q = usr_id owner"
    using select_found [OF req] by auto
  have m': "minor_units m = (case amount of Some x \<Rightarrow> x | None \<Rightarrow> amount_refundable q)"
    using Money_wf [OF m] by simp
  have w3: "w3 = w" using get by (rule get_provider_reads)
  have env: "env_only (ad_refund adapter (case pay_provider_reference q of None \<Rightarrow> [] | Some r \<Rightarrow> r) m reason)"
    using get_provider_adapter [OF get] by (rule payment_adapter.refund_env)
  have "same_session w w4" using execute_env_only [OF env exec] w3 by simp
  then have w4: "objs w4 = objs w" "pending w4 = []" using assms(2) by (simp_all add: same_session_def)
  have r: "rfd_amount r = minor_units m" "rfd_payment_id r = i" "rfd_currency r = pay_currency q"
    using rest q(2) by (auto simp: Let_def op_splits)
  have "\<exists>a. objs v = (objs w)\<lparr>payments := replace_by pay_id
        (q\<lparr>pay_amount_refunded := pay_amount_refunded q + rfd_amount r,
           pay_status := (if pay_amount_refunded q + rfd_amount r \<ge> pay_amount_captured q then REFUNDED
                          else PARTIALLY_REFUNDED)\<rparr>) (payments (objs w)), refunds := refunds (objs w) @ [r]\<rparr> \<and>
      pending v = [AuditLogRow a]"
    using rest w4 by (auto simp: Let_def op_splits)
  then obtain a where "objs v = (objs w)\<lparr>payments := replace_by pay_id
        (q\<lparr>pay_amount_refunded := pay_amount_refunded q + rfd_amount r,
           pay_status := (if pay_amount_refunded q + rfd_amount r \<ge> pay_amount_captured q then REFUNDED
                          else PARTIALLY_REFUNDED)\<rparr>) (payments (objs w)), refunds := refunds (objs w) @ [r]\<rparr>"
      "pending v = [AuditLogRow a]" by blast
  moreover have "pay_status q = CAPTURED \<or> pay_status q = PARTIALLY_REFUNDED"
    using st by (simp add: REFUNDABLE_STATES_def)
  ultimately show thesis
    using that [OF q _ _ _ _ r(2,3) refl] r(1) m' pos le by (simp add: is_positive_def)
qed

section \<open>Every operation keeps the ledger\<close>

lemma new_payment_fields [simp]:
  "pay_id (new_payment owner provider amount cm mt descr cust metadata i now) = i"
  "pay_amount (new_payment owner provider amount cm mt descr cust metadata i now) = minor_units amount"
  "pay_owner_id (new_payment owner provider amount cm mt descr cust metadata i now) = usr_id owner"
  "pay_currency (new_payment owner provider amount cm mt descr cust metadata i now) = currency amount"
  "pay_provider (new_payment owner provider amount cm mt descr cust metadata i now) = provider"
  "pay_status (new_payment owner provider amount cm mt descr cust metadata i now) = REQUIRES_CONFIRMATION"
  "pay_amount_captured (new_payment owner provider amount cm mt descr cust metadata i now) = 0"
  "pay_amount_refunded (new_payment owner provider amount cm mt descr cust metadata i now) = 0"
  by (simp_all add: new_payment_def)

lemma apply_charge_fields [simp]:
  "pay_id (fst (apply_charge c p)) = pay_id p" "pay_amount (fst (apply_charge c p)) = pay_amount p"
  "pay_amount_refunded (fst (apply_charge c p)) = pay_amount_refunded p"
  "pay_owner_id (fst (apply_charge c p)) = pay_owner_id p" "pay_status (fst (apply_charge c p)) = chg_status c"
  "pay_amount_captured (fst (apply_charge c p)) =
     (if chg_status c = CAPTURED then chg_amount_captured c else pay_amount_captured p)"
  by (simp_all add: apply_charge_def Let_def)

lemma created_row:
  assumes "create_payment P gm owner provider amount cm mt token descr cust metadata key w = (Inr p, v)"
    and "pending w = []" and "enforces_unique P"
  shows "pay_id p \<notin> pay_id ` set (payments (objs w)) \<and> objs v = (objs w)\<lparr>payments := payments (objs w) @ [p]\<rparr>"
  using assms(1,2)
proof (rule create_payment_Inr)
  fix p0 i now charge and adapter :: "'a BasePaymentProvider" and rq u u' u'' a
  assume p0: "p0 = new_payment owner provider amount cm mt descr cust metadata i now"
    and ok: "db_accepts P ((objs w)\<lparr>payments := payments (objs w) @ [p0]\<rparr>)"
    and p: "p = fst (apply_charge charge (p0\<lparr>pay_provider_reference := Some (chg_reference charge)\<rparr>))"
    and v: "objs v = (objs w)\<lparr>payments := replace_by pay_id p (payments (objs w) @ [p0])\<rparr>"
  have "distinct (map pay_id (payments (objs w) @ [p0]))"
    using ok assms(3) unique_payment_ids by (force simp: enforces_unique_def)
  moreover have "pay_id p = pay_id p0" using p by simp
  ultimately have "pay_id p \<notin> pay_id ` set (payments (objs w))" by simp
  then show ?thesis using v \<open>pay_id p = pay_id p0\<close> by (simp add: replace_by_new)
qed

lemma create_keeps_ledger:
  assumes run: "create_payment P gm owner provider amount cm mt token descr cust metadata key w = (Inr p, v)"
    and "pending w = []" and "ledger_ok (objs w)" and "enforces_unique P" and "honest_stripe P"
  shows "ledger_ok (fold insert_row (pending v) (objs v))"
  using run assms(2)
proof (rule create_payment_Inr)
  fix p0 i now charge and adapter :: "'a BasePaymentProvider" and rq u u' u'' a
  assume pos: "is_positive amount" and p0: "p0 = new_payment owner provider amount cm mt descr cust metadata i now"
    and get: "get_provider P gm (usr_id owner) provider u = (Inr adapter, u)"
    and rq: "cr_amount rq = amount" and call: "ad_create_payment adapter rq u' = (Inr charge, u'')"
    and tr: "can_transition REQUIRES_CONFIRMATION (chg_status charge)"
    and p: "p = fst (apply_charge charge (p0\<lparr>pay_provider_reference := Some (chg_reference charge)\<rparr>))"
    and pend: "pending v = [AuditLogRow a]"
  have "sound_adapter adapter" using assms(5) get by (rule get_provider_sound)
  then have "0 \<le> chg_amount_captured charge \<and> chg_amount_captured charge \<le> minor_units amount"
    using sound_adapter.create_bounds [OF _ call] rq pos by (simp add: is_positive_def)
  then have "payment_ok p" using p p0 pos tr by (auto simp: payment_ok_def is_positive_def)
  moreover have "pay_amount_refunded p = 0" using p p0 by simp
  ultimately show ?thesis
    using created_row [OF run assms(2,4)] pend assms(3) by (simp add: ledger_ok_create)
qed

lemma capture_keeps_ledger:
  assumes "capture_payment P gm owner i amount w = (Inr p, v)" and "pending w = []" and "ledger_ok (objs w)"
    and "honest_stripe P" and "\<And>m. amount = Some m \<Longrightarrow> 0 < minor_units m"
  shows "ledger_ok (fold insert_row (pending v) (objs v))"
  using assms(1)
proof (rule capture_payment_Inr)
  fix q m and adapter :: "'a BasePaymentProvider" and charge ref u u'
  assume q: "q \<in> set (payments (objs w))" and st: "pay_status q = AUTHORIZED"
    and m: "case amount of Some x \<Rightarrow> m = x | None \<Rightarrow> Money (pay_amount q) (pay_currency q) = Inr m"
    and le: "minor_units m \<le> pay_amount q"
    and get: "get_provider P gm (usr_id owner) (pay_provider q) w = (Inr adapter, w)"
    and call: "ad_capture adapter ref m u = (Inr charge, u')"
    and p: "p = q\<lparr>pay_status := CAPTURED,
           pay_amount_captured := (if chg_amount_captured charge \<noteq> 0 then chg_amount_captured charge
                                   else minor_units m)\<rparr>"
    and v: "objs v = (objs w)\<lparr>payments := replace_by pay_id p (payments (objs w))\<rparr>"
    and pend: "\<exists>a. pending v = pending w @ [AuditLogRow a]"
  have okq: "payment_ok q" using q assms(3) by (simp add: ledger_ok_def)
  have "0 < minor_units m"
    using m assms(5) okq by (auto simp: payment_ok_def dest: Money_wf split: option.splits)
  moreover have "sound_adapter adapter" using assms(4) get by (rule get_provider_sound)
  ultimately have "0 \<le> chg_amount_captured charge \<and> chg_amount_captured charge \<le> minor_units m"
    using sound_adapter.capture_bounds [OF _ call] by simp
  then have "payment_ok p" using okq st p le \<open>0 < minor_units m\<close> by (auto simp: payment_ok_def)
  then have "ledger_ok (objs v)" unfolding v using p by (intro ledger_ok_update [OF assms(3) q]) simp_all
  then show ?thesis using pend assms(2) by auto
qed

lemma cancel_keeps_ledger:
  assumes "cancel_payment P gm owner i w = (Inr p, v)" and "pending w = []" and "ledger_ok (objs w)"
  shows "ledger_ok (fold insert_row (pending v) (objs v))"
  using assms(1)
proof (rule cancel_payment_Inr)
  fix q
  assume q: "q \<in> set (payments (objs w))" and tr: "can_transition (pay_status q) CANCELED"
    and p: "p = q\<lparr>pay_status := CANCELED\<rparr>"
    and v: "objs v = (objs w)\<lparr>payments := replace_by pay_id p (payments (objs w))\<rparr>"
    and pend: "\<exists>a. pending v = pending w @ [AuditLogRow a]"
  have "payment_ok q" using q assms(3) by (simp add: ledger_ok_def)
  then have "payment_ok p" using tr p by (cases "pay_status q") (auto simp: payment_ok_def)
  then have "ledger_ok (objs v)" unfolding v using p by (intro ledger_ok_update [OF assms(3) q]) simp_all
  then show ?thesis using pend assms(2) by auto
qed

lemma refund_keeps_ledger:
  assumes "create_refund P gm owner i amount reason w = (Inr r, v)" and "pending w = []" and "ledger_ok (objs w)"
  shows "ledger_ok (fold insert_row (pending v) (objs v))"
  using assms(1,2)
proof (rule create_refund_Inr)
  fix q p a
  assume q: "q \<in> set (payments (objs w))" and i: "pay_id q = i"
    and st: "pay_status q = CAPTURED \<or> pay_status q = PARTIALLY_REFUNDED"
    and pos: "0 < rfd_amount r" and le: "rfd_amount r \<le> amount_refundable q" and r: "rfd_payment_id r = i"
    and p: "p = q\<lparr>pay_amount_refunded := pay_amount_refunded q + rfd_amount r,
               pay_status := (if pay_amount_refunded q + rfd_amount r \<ge> pay_amount_captured q then REFUNDED
                              else PARTIALLY_REFUNDED)\<rparr>"
    and v: "objs v = (objs w)\<lparr>payments := replace_by pay_id p (payments (objs w)), refunds := refunds (objs w) @ [r]\<rparr>"
    and pend: "pending v = [AuditLogRow a]"
  have "payment_ok q" using q assms(3) by (simp add: ledger_ok_def)
  then have "payment_ok p" using st p le pos by (auto simp: payment_ok_def amount_refundable_def)
  then have "ledger_ok (objs v)"
    unfolding v using p pos r i by (intro ledger_ok_refund [OF assms(3) q]) simp_all
  then show ?thesis using pend by simp
qed

section \<open>Runs of the services\<close>

text \<open>
  The requests that move money, each in its own unit of work, and the passage of time: between
  two requests anything but the database may change.  A capture with an explicit amount has a
  positive one, as the request schema demands.
\<close>

inductive service_step :: "'e platform \<Rightarrow> GatewayManager \<Rightarrow> 'e world \<Rightarrow> 'e world \<Rightarrow> bool" for P gm where
  create: "session_scope P (create_payment P gm owner provider amount cm mt token descr cust metadata key) w = (r, v)
    \<Longrightarrow> service_step P gm w v"
| capture: "session_scope P (capture_payment P gm owner i amount) w = (r, v) \<Longrightarrow>
    (\<And>m. amount = Some m \<Longrightarrow> 0 < minor_units m) \<Longrightarrow> service_step P gm w v"
| cancel: "session_scope P (cancel_payment P gm owner i) w = (r, v) \<Longrightarrow> service_step P gm w v"
| refund: "session_scope P (create_refund P gm owner i minor reason) w = (r', v) \<Longrightarrow> service_step P gm w v"
| idle: "committed v = committed w \<Longrightarrow> service_step P gm w v"

inductive service_run :: "'e platform \<Rightarrow> GatewayManager \<Rightarrow> 'e world \<Rightarrow> 'e world \<Rightarrow> bool" for P gm where
  start: "service_run P gm w w"
| step: "service_run P gm w u \<Longrightarrow> service_step P gm u v \<Longrightarrow> service_run P gm w v"

lemma service_step_ledger:
  assumes "service_step P gm w v" and "ledger_ok (committed w)" and "enforces_unique P" and "honest_stripe P"
  shows "ledger_ok (committed v)"
  using assms(1)
proof cases
  case (create owner provider amount cm mt token descr cust metadata key r)
  show ?thesis
    by (rule create_body.preserves [where I = ledger_ok, OF create])
      (use assms(2-4) in \<open>auto intro!: create_keeps_ledger\<close>)
next
  case (capture owner i amount r)
  show ?thesis
    by (rule capture_body.preserves [where I = ledger_ok, OF capture(1)])
      (use assms(2-4) capture(2) in \<open>auto intro!: capture_keeps_ledger\<close>)
next
  case (cancel owner i r)
  show ?thesis
    by (rule cancel_body.preserves [where I = ledger_ok, OF cancel])
      (use assms(2-4) in \<open>auto intro!: cancel_keeps_ledger\<close>)
next
  case (refund owner i minor reason r)
  show ?thesis
    by (rule refund_body.preserves [where I = ledger_ok, OF refund])
      (use assms(2-4) in \<open>auto intro!: refund_keeps_ledger\<close>)
next
  case idle
  then show ?thesis using assms(2) by simp
qed

text \<open>How one row of a payment may differ from the next.\<close>

definition row_step :: "Payment \<Rightarrow> Payment \<Rightarrow> bool" where
  "row_step p q \<longleftrightarrow>
     pay_id q = pay_id p \<and> pay_owner_id q = pay_owner_id p \<and> pay_provider q = pay_provider p \<and>
     pay_amount q = pay_amount p \<and> pay_currency q = pay_currency p \<and> pay_created_at q = pay_created_at p \<and>
     pay_provider_reference q = pay_provider_reference p \<and>
     pay_amount_refunded p \<le> pay_amount_refunded q \<and>
     (q = p \<or> can_transition (pay_status p) (pay_status q))"

definition rows_step :: "tables \<Rightarrow> tables \<Rightarrow> bool" where
  "rows_step t t' \<longleftrightarrow> (\<forall>p \<in> set (payments t). \<exists>q \<in> set (payments t'). row_step p q)"

lemma row_step_refl [simp]: "row_step p p"
  by (simp add: row_step_def)

lemma rows_step_replace:
  assumes "q \<in> set (payments t)" and "row_step q p" and "distinct (map pay_id (payments t))"
    and "payments t' = replace_by pay_id p (payments t)"
  shows "rows_step t t'"
  unfolding rows_step_def
proof
  fix x assume x: "x \<in> set (payments t)"
  have pq: "pay_id p = pay_id q" using assms(2) by (simp add: row_step_def)
  show "\<exists>y \<in> set (payments t'). row_step x y"
  proof (cases "pay_id x = pay_id p")
    case True
    then have "x = q" using assms(1,3) x pq by (metis distinct_map inj_on_eq_iff)
    then show ?thesis using assms(1,2,4) pq by (auto simp: replace_by_mem)
  next
    case False
    then show ?thesis using x assms(4) by (auto simp: replace_by_mem intro!: bexI [of _ x])
  qed
qed

lemma rows_step_refl [simp]: "rows_step t t"
  by (auto simp: rows_step_def intro!: bexI)

lemma create_rows:
  assumes run: "create_payment P gm owner provider amount cm mt token descr cust metadata key w = (Inr p, v)"
    and "pending w = []" and "enforces_unique P"
  shows "rows_step (objs w) (fold insert_row (pending v) (objs v))"
proof -
  obtain b where "pending v = [AuditLogRow b]" using run assms(2) by (rule create_payment_Inr)
  then show ?thesis using created_row [OF assms] by (auto simp: rows_step_def intro!: bexI)
qed

lemma capture_rows:
  assumes "capture_payment P gm owner i amount w = (Inr p, v)" and "pending w = []"
    and ids: "distinct (map pay_id (payments (objs w)))"
  shows "rows_step (objs w) (fold insert_row (pending v) (objs v))"
  using assms(1)
proof (rule capture_payment_Inr)
  fix q m and adapter :: "'a BasePaymentProvider" and charge ref u u'
  assume q: "q \<in> set (payments (objs w))" and st: "pay_status q = AUTHORIZED"
    and p: "p = q\<lparr>pay_status := CAPTURED,
           pay_amount_captured := (if chg_amount_captured charge \<noteq> 0 then chg_amount_captured charge
                                   else minor_units m)\<rparr>"
    and v: "objs v = (objs w)\<lparr>payments := replace_by pay_id p (payments (objs w))\<rparr>"
    and "\<exists>a. pending v = pending w @ [AuditLogRow a]"
  then obtain a where "pending v = [AuditLogRow a]" using assms(2) by auto
  moreover have "row_step q p" using st p by (simp add: row_step_def)
  ultimately show ?thesis using v by (intro rows_step_replace [OF q _ ids]) simp_all
qed

lemma cancel_rows:
  assumes "cancel_payment P gm owner i w = (Inr p, v)" and "pending w = []"
    and ids: "distinct (map pay_id (payments (objs w)))"
  shows "rows_step (objs w) (fold insert_row (pending v) (objs v))"
  using assms(1)
proof (rule cancel_payment_Inr)
  fix q
  assume q: "q \<in> set (payments (objs w))" and tr: "can_transition (pay_status q) CANCELED"
    and p: "p = q\<lparr>pay_status := CANCELED\<rparr>"
    and v: "objs v = (objs w)\<lparr>payments := replace_by pay_id p (payments (objs w))\<rparr>"
    and "\<exists>a. pending v = pending w @ [AuditLogRow a]"
  then obtain a where "pending v = [AuditLogRow a]" using assms(2) by auto
  moreover have "row_step q p" using tr p by (simp add: row_step_def)
  ultimately show ?thesis using v by (intro rows_step_replace [OF q _ ids]) simp_all
qed

lemma refund_rows:
  assumes "create_refund P gm owner i amount reason w = (Inr r, v)" and "pending w = []"
    and ids: "distinct (map pay_id (payments (objs w)))"
  shows "rows_step (objs w) (fold insert_row (pending v) (objs v))"
  using assms(1,2)
proof (rule create_refund_Inr)
  fix q p a
  assume q: "q \<in> set (payments (objs w))" and st: "pay_status q = CAPTURED \<or> pay_status q = PARTIALLY_REFUNDED"
    and pos: "0 < rfd_amount r"
    and p: "p = q\<lparr>pay_amount_refunded := pay_amount_refunded q + rfd_amount r,
               pay_status := (if pay_amount_refunded q + rfd_amount r \<ge> pay_amount_captured q then REFUNDED
                              else PARTIALLY_REFUNDED)\<rparr>"
    and v: "objs v = (objs w)\<lparr>payments := replace_by pay_id p (payments (objs w)), refunds := refunds (objs w) @ [r]\<rparr>"
    and pend: "pending v = [AuditLogRow a]"
  have "row_step q p" using st pos p by (auto simp: row_step_def)
  then show ?thesis using v pend by (intro rows_step_replace [OF q _ ids]) simp_all
qed

lemma service_step_rows:
  assumes "service_step P gm w v" and "ledger_ok (committed w)" and "enforces_unique P"
  shows "rows_step (committed w) (committed v)"
proof -
  let ?w = "w\<lparr>objs := committed w, pending := []\<rparr>"
  have ids: "distinct (map pay_id (payments (objs ?w)))" using assms(2) by (simp add: ledger_ok_def)
  show ?thesis
    using assms(1)
  proof cases
    case create
    then show ?thesis
      by (rule create_body.preserves) (auto dest!: create_rows [OF _ _ assms(3)])
  next
    case capture
    from capture(1) show ?thesis
      by (rule capture_body.preserves) (auto dest!: capture_rows [OF _ _ ids])
  next
    case cancel
    then show ?thesis
      by (rule cancel_body.preserves) (auto dest!: cancel_rows [OF _ _ ids])
  next
    case refund
    then show ?thesis
      by (rule refund_body.preserves) (auto dest!: refund_rows [OF _ _ ids])
  next
    case idle
    then show ?thesis by simp
  qed
qed

lemma service_run_ledger:
  assumes "service_run P gm w v" and "ledger_ok (committed w)" and "enforces_unique P" and "honest_stripe P"
  shows "ledger_ok (committed v)"
  using assms(1,2)
  by (induction rule: service_run.induct) (auto intro: service_step_ledger [OF _ _ assms(3,4)])

definition row_history :: "Payment \<Rightarrow> Payment \<Rightarrow> bool" where
  "row_history p q \<longleftrightarrow>
     pay_id q = pay_id p \<and> pay_owner_id q = pay_owner_id p \<and> pay_provider q = pay_provider p \<and>
     pay_amount q = pay_amount p \<and> pay_currency q = pay_currency p \<and>
     pay_provider_reference q = pay_provider_reference p \<and>
     pay_amount_refunded p \<le> pay_amount_refunded q \<and>
     can_transition\<^sup>*\<^sup>* (pay_status p) (pay_status q) \<and>
     (pay_status p \<in> set TERMINAL_STATES \<longrightarrow> q = p)"

lemma row_history_refl [simp]: "row_history p p"
  by (simp add: row_history_def)

lemma terminal_no_transition: "s \<in> set TERMINAL_STATES \<Longrightarrow> \<not> can_transition s t"
  by (auto simp: TERMINAL_STATES_def)

lemma row_history_step: "row_history p q \<Longrightarrow> row_step q r \<Longrightarrow> row_history p r"
  by (auto simp: row_history_def row_step_def terminal_no_transition intro: rtranclp.rtrancl_into_rtrancl)

lemma service_run_rows:
  assumes "service_run P gm w v" and "ledger_ok (committed w)" and "enforces_unique P" and "honest_stripe P"
    and "p \<in> set (payments (committed w))"
  shows "\<exists>q \<in> set (payments (committed v)). row_history p q"
  using assms(1,2,5)
proof (induction rule: service_run.induct)
  case (start w)
  then show ?case by (auto intro!: bexI)
next
  case (step w u v)
  then obtain q where q: "q \<in> set (payments (committed u))" "row_history p q" by blast
  have "ledger_ok (committed u)" using service_run_ledger [OF step(1)] step.prems(1) assms(3,4) by blast
  then have "rows_step (committed u) (committed v)" using service_step_rows step(2) assms(3) by blast
  then obtain r where "r \<in> set (payments (committed v))" "row_step q r" using q(1) by (auto simp: rows_step_def)
  then show ?case using q(2) row_history_step by blast
qed

section \<open>An example run\<close>

text \<open>The sandbox platform meets the assumptions, and a payment created on it is committed.\<close>

lemma sandbox_assumptions: "enforces_unique sandbox" "honest_stripe sandbox"
  "ledger_ok (committed (sandbox_world Map.empty))"
  by (simp_all add: enforces_unique_def honest_stripe_def sandbox_def sandbox_world_def empty_tables_def ledger_ok_def)

lemma sandbox_run:
  "\<exists>v p. service_run sandbox sandbox_gateway (sandbox_world Map.empty) v \<and> payments (committed v) = [p] \<and>
     refunds (committed v) = [] \<and> pay_status p = CAPTURED \<and> pay_amount_captured p = 1000"
proof -
  let ?w = "sandbox_world Map.empty"
  let ?op = "create_payment sandbox sandbox_gateway demo_user MOCK demo_amount AUTOMATIC PaymentMethodType.CARD
       None None None [] None"
  have w: "?w\<lparr>objs := committed ?w, pending := []\<rparr> = ?w" "payments (objs ?w) = []" "pending ?w = []"
    by (simp_all add: sandbox_world_def empty_tables_def)
  from mock_create_runs [OF sandbox_facts refl] obtain p u where run: "?op ?w = (Inr p, u)"
    and p: "pay_status p = CAPTURED" "pay_amount_captured p = 1000" by (force simp: demo_amount_def)
  obtain a where a: "pending u = [AuditLogRow a]" using run w(3) by (rule create_payment_Inr)
  have "objs u = (objs ?w)\<lparr>payments := [p]\<rparr>"
    using created_row [OF run w(3) sandbox_assumptions(1)] w(2) by simp
  then have u: "fold insert_row (pending u) (objs u) = empty_tables\<lparr>payments := [p], audit_logs := [a]\<rparr>"
    using a by (simp add: sandbox_world_def empty_tables_def)
  have "db_accepts sandbox (empty_tables\<lparr>payments := [p], audit_logs := [a]\<rparr>)"
    by (cases "pay_provider_reference p")
      (simp_all add: sandbox_def empty_tables_def unique_ok_def unique_by_def List.map_filter_simps)
  then obtain v where "session_scope sandbox ?op ?w = (Inr p, v)"
    and v: "committed v = empty_tables\<lparr>payments := [p], audit_logs := [a]\<rparr>"
    using run u by (simp add: unit_of_work w(1) Let_def)
  then have "service_run sandbox sandbox_gateway ?w v"
    by (intro service_run.step [OF service_run.start] service_step.create)
  then show ?thesis using v p by (intro exI [of _ v] exI [of _ p]) (simp add: empty_tables_def)
qed

definition demo_payment :: Payment where
  "demo_payment = (new_payment demo_user MOCK demo_amount AUTOMATIC PaymentMethodType.CARD None None [] 3 0)
     \<lparr>pay_status := CAPTURED, pay_amount_captured := 10\<rparr>"

definition demo_world :: "nat world" where
  "demo_world = (sandbox_world Map.empty)\<lparr>objs := empty_tables\<lparr>payments := [demo_payment]\<rparr>,
     committed := empty_tables\<lparr>payments := [demo_payment]\<rparr>\<rparr>"

definition obliging :: "nat platform" where
  "obliging = sandbox\<lparr>db_accepts := (\<lambda>t. True)\<rparr>"

lemma mock_refund_returns: "\<exists>a u'. mock_refund P ref m reason u = (Inr a, u')"
  by (auto simp: mock_refund_def new_reference_def op_simps split: prod.splits)

lemma demo_refund_at:
  "\<exists>r v a. create_refund obliging sandbox_gateway demo_user 3 (Some 4) None (demo_world\<lparr>env := n\<rparr>) = (Inr r, v) \<and>
     rfd_id r = of_nat (n + 1) \<and> pending v = [AuditLogRow a] \<and> aud_id a = of_nat (n + 2)"
proof -
  let ?P = obliging and ?gm = sandbox_gateway and ?w = "demo_world\<lparr>env := n\<rparr>"
  let ?ctx = "\<lparr> ctx_secret = MOCK_SANDBOX_SECRET, ctx_sandbox = True, ctx_config = [], ctx_http = gm_http ?gm \<rparr>"
  let ?m = "\<lparr>minor_units = 4, currency = ''USD''\<rparr>"
  let ?op = "mock_refund ?P [] ?m None"
  have sel: "get_for_owner 3 (usr_id demo_user) ?w = (Inr (Some demo_payment), ?w)"
    by (simp add: get_for_owner_def select_one_eq demo_world_def demo_payment_def scalar_one_or_none_def empty_tables_def)
  have m: "Money 4 ''USD'' = Inr ?m"
    by (simp add: Money_def Money_init_def is_supported_currency_def CURRENCY_EXPONENTS_def upper_def upper_char_def)
  have get: "get_provider ?P ?gm (usr_id demo_user) MOCK ?w = (Inr (MockProvider ?P ?ctx), ?w)"
    by (rule mock_unconfigured) (simp add: demo_world_def empty_tables_def)
  have env: "env_only ?op" using mock.refund_env [of ?P ?ctx "[]" ?m None] by (simp add: MockProvider_def)
  have "cb_state (get_breaker ?gm MOCK ?w) \<noteq> OPEN" "1 \<le> provider_max_retries (gm_settings ?gm)"
    using sandbox_facts(2,4) by (simp_all add: get_breaker_def demo_world_def sandbox_world_def)
  from execute_returns [OF this env mock_refund_returns, of ?P] obtain a v x u
    where exec: "execute ?P ?gm MOCK ?op ?w = (Inr a, v)" and x: "env x = env ?w" "?op x = (Inr a, u)" "env v = env u" by blast
  have uuids: "uuid4 ?P k = (of_nat k, Suc k)" for k by (simp add: obliging_def sandbox_def)
  have v: "env v = Suc n" using x by (auto simp: mock_refund_def new_reference_def op_simps uuids)
  have "same_session ?w v" using env exec by (rule execute_env_only)
  then have p: "pending v = []" by (simp add: same_session_def demo_world_def sandbox_world_def)
  have acc: "db_accepts ?P t" for t by (simp add: obliging_def)
  have fields: "pay_status demo_payment = CAPTURED" "pay_currency demo_payment = ''USD''" "pay_provider demo_payment = MOCK"
    "pay_provider_reference demo_payment = None" "amount_refundable demo_payment = 10"
    by (simp_all add: demo_payment_def demo_amount_def amount_refundable_def new_payment_def)
  have checks: "CAPTURED \<in> set REFUNDABLE_STATES" "is_positive ?m" "\<not> minor_units ?m > 10"
    "ad_refund (MockProvider ?P ?ctx) = mock_refund ?P"
    by (simp_all add: REFUNDABLE_STATES_def is_positive_def MockProvider_def)
  show ?thesis
    by (simp only: create_refund_def andThen_step [of "get_for_owner 3 (usr_id demo_user)" ?w, OF sel] option.case
        fields Let_def [of 10] m andThen_lift_Inr andThen_ensure [OF checks(1)] andThen_ensure [OF checks(2)]
        andThen_ensure [OF checks(3)] checks(4) andThen_step [of "get_provider ?P ?gm (usr_id demo_user) MOCK" ?w, OF get]
        andThen_step [of "execute ?P ?gm MOCK ?op" ?w, OF exec])
      (simp add: op_simps add_row_def Let_def put_payment_def flush_def acc payment_metric_def inc_def audit_record_def
        assert_transition_def fields uuids v p)
qed

lemma demo_refund_runs:
  "\<exists>r v. create_refund obliging sandbox_gateway demo_user 3 (Some 4) None demo_world = (Inr r, v)"
proof -
  have "demo_world\<lparr>env := 0\<rparr> = demo_world" by (simp add: demo_world_def sandbox_world_def)
  then show ?thesis using demo_refund_at [of 0] by metis
qed

section \<open>Properties\<close>

text \<open>Money is conserved.  In every database that any sequence of create, capture, cancel and
  refund requests can produce, successful or not, from one that satisfies the invariant (the
  empty one does), every payment has refunded at most what it captured and captured at most its
  amount, the refunded total is exactly the sum of the payment's refund rows, and the payment is
  in the state \<open>refunded\<close> exactly when it has captured something and all of it was refunded.\<close>

theorem money_conserved:
  assumes "service_run P gm w v" and "ledger_ok (committed w)" and "enforces_unique P" and "honest_stripe P"
    and "p \<in> set (payments (committed v))"
  shows "0 \<le> pay_amount_refunded p \<and> pay_amount_refunded p \<le> pay_amount_captured p \<and>
    pay_amount_captured p \<le> pay_amount p \<and>
    pay_amount_refunded p = refund_total (pay_id p) (refunds (committed v)) \<and>
    (pay_status p = REFUNDED \<longleftrightarrow> 0 < pay_amount_captured p \<and> pay_amount_refunded p = pay_amount_captured p)"
proof -
  have "payment_ok p" "pay_amount_refunded p = refund_total (pay_id p) (refunds (committed v))"
    using service_run_ledger [OF assms(1-4)] assms(5) by (auto simp: ledger_ok_def)
  then show ?thesis by (cases "pay_status p") (auto simp: payment_ok_def)
qed

theorem money_conserved_witness:
  "\<exists>v p. service_run sandbox sandbox_gateway (sandbox_world Map.empty) v \<and> p \<in> set (payments (committed v)) \<and>
     pay_amount_captured p = 1000 \<and> pay_amount_refunded p = refund_total (pay_id p) (refunds (committed v))"
proof -
  obtain v p where run: "service_run sandbox sandbox_gateway (sandbox_world Map.empty) v"
    and p: "p \<in> set (payments (committed v))" "pay_amount_captured p = 1000"
    using sandbox_run by (metis list.set_intros(1))
  from money_conserved [OF run sandbox_assumptions(3,1,2) p(1)] show ?thesis using run p by blast
qed

text \<open>Payments evolve only along the state machine: over any run, a committed payment keeps its
  identifier, owner, provider, reference, amount and currency, its refunded total never
  shrinks, its status moves only by allowed transitions, and once in a terminal state the row
  never changes again.\<close>

theorem payments_follow_state_machine:
  assumes "service_run P gm w v" and "ledger_ok (committed w)" and "enforces_unique P" and "honest_stripe P"
    and "p \<in> set (payments (committed w))"
  shows "\<exists>q \<in> set (payments (committed v)).
    pay_id q = pay_id p \<and> pay_owner_id q = pay_owner_id p \<and> pay_provider q = pay_provider p \<and>
    pay_provider_reference q = pay_provider_reference p \<and>
    pay_amount q = pay_amount p \<and> pay_currency q = pay_currency p \<and>
    pay_amount_refunded p \<le> pay_amount_refunded q \<and>
    can_transition\<^sup>*\<^sup>* (pay_status p) (pay_status q) \<and>
    (pay_status p \<in> set TERMINAL_STATES \<longrightarrow> q = p)"
  using service_run_rows [OF assms] by (auto simp: row_history_def)

theorem payments_follow_state_machine_witness:
  "\<exists>v p. p \<in> set (payments (committed v)) \<and> pay_status p = CAPTURED \<and>
     (\<exists>q \<in> set (payments (committed (v :: nat world))). pay_id q = pay_id p \<and>
        can_transition\<^sup>*\<^sup>* (pay_status p) (pay_status q))"
proof -
  obtain v p where run: "service_run sandbox sandbox_gateway (sandbox_world Map.empty) v"
    and p: "p \<in> set (payments (committed v))" "pay_status p = CAPTURED"
    using sandbox_run by (metis list.set_intros(1))
  have "ledger_ok (committed v)" by (rule service_run_ledger [OF run sandbox_assumptions(3,1,2)])
  from payments_follow_state_machine [OF service_run.start this sandbox_assumptions(1,2) p(1)]
  show ?thesis using p by blast
qed



text \<open>C29. No refund beyond the balance: against a captured payment of the caller, an amount that is
  not positive or exceeds what is still refundable is refused with a validation error before
  the provider is contacted; nothing changes.\<close>

theorem over_refund_refused:
  assumes "filter (\<lambda>p. pay_id p = i \<and> pay_owner_id p = usr_id owner) (payments (objs w)) = [q]"
    and "pay_status q = CAPTURED \<or> pay_status q = PARTIALLY_REFUNDED" and "is_supported_currency (pay_currency q)"
    and "x \<le> 0 \<or> pay_amount_captured q - pay_amount_refunded q < x"
  shows "\<exists>e. create_refund P gm owner i (Some x) reason w = (Inl e, w) \<and> is_instance ValidationError e \<and>
    fst (handle_exception cid e) = 422"
proof -
  have "get_for_owner i (usr_id owner) w = (Inr (Some q), w)"
    using assms(1) by (simp add: get_for_owner_def select_one_eq scalar_one_or_none_def)
  moreover have "Money x (pay_currency q) = Inr \<lparr> minor_units = x, currency = upper (pay_currency q) \<rparr>"
    using assms(3) by (simp add: Money_def Money_init_def is_supported_currency_def Let_def)
  ultimately show ?thesis
    using assms(2,4)
    by (auto simp: create_refund_def op_simps Let_def REFUNDABLE_STATES_def is_positive_def amount_refundable_def
        is_subclass_def err_def err_with_def DomainError_init_def is_instance_def)
qed

theorem over_refund_refused_witness:
  "\<exists>e w v. create_refund sandbox sandbox_gateway demo_user 3 (Some 5) None (w :: nat world) = (Inl e, v) \<and>
     v = w \<and> is_instance ValidationError e"
proof -
  let ?q = "(new_payment demo_user MOCK demo_amount AUTOMATIC PaymentMethodType.CARD None None [] 3 0)
      \<lparr>pay_status := CAPTURED, pay_amount_captured := 4\<rparr>"
  let ?w = "(sandbox_world Map.empty)\<lparr>objs := empty_tables\<lparr>payments := [?q]\<rparr>\<rparr>"
  have "filter (\<lambda>p. pay_id p = 3 \<and> pay_owner_id p = usr_id demo_user) (payments (objs ?w)) = [?q]" by simp
  from over_refund_refused [OF this, of 5 sandbox sandbox_gateway None] show ?thesis
    by (force simp: demo_amount_def is_supported_currency_def CURRENCY_EXPONENTS_def upper_def upper_char_def)
qed

text \<open>What a refund does, exactly: a refund that succeeds appends one refund row for the asked
  amount (the whole balance by default) in the payment's currency, adds that amount to the
  payment's refunded total, moves it to \<open>refunded\<close> when the balance is used up and to
  \<open>partially_refunded\<close> otherwise, and touches no other payment.\<close>

theorem refund_effect:
  assumes "create_refund P gm owner i minor reason w = (Inr r, v)" and "pending w = []"
    and "distinct (map pay_id (payments (objs w)))"
  shows "\<exists>q \<in> set (payments (objs w)). \<exists>p \<in> set (payments (objs v)).
    pay_id q = i \<and> pay_id p = i \<and> pay_owner_id q = usr_id owner \<and>
    rfd_amount r = (case minor of Some x \<Rightarrow> x | None \<Rightarrow> pay_amount_captured q - pay_amount_refunded q) \<and>
    rfd_currency r = pay_currency q \<and> rfd_payment_id r = i \<and> refunds (objs v) = refunds (objs w) @ [r] \<and>
    pay_amount_refunded p = pay_amount_refunded q + rfd_amount r \<and>
    pay_status p = (if pay_amount_refunded p = pay_amount_captured q then REFUNDED else PARTIALLY_REFUNDED) \<and>
    (\<forall>x \<in> set (payments (objs w)). pay_id x \<noteq> i \<longrightarrow> x \<in> set (payments (objs v)))"
  using assms(1,2)
proof (rule create_refund_Inr)
  fix q p a
  assume q: "q \<in> set (payments (objs w))" "pay_id q = i" "pay_owner_id q = usr_id owner"
    and r: "rfd_amount r = (case minor of Some x \<Rightarrow> x | None \<Rightarrow> amount_refundable q)"
    "0 < rfd_amount r" "rfd_amount r \<le> amount_refundable q" "rfd_payment_id r = i" "rfd_currency r = pay_currency q"
    and p: "p = q\<lparr>pay_amount_refunded := pay_amount_refunded q + rfd_amount r,
               pay_status := (if pay_amount_refunded q + rfd_amount r \<ge> pay_amount_captured q then REFUNDED
                              else PARTIALLY_REFUNDED)\<rparr>"
    and v: "objs v = (objs w)\<lparr>payments := replace_by pay_id p (payments (objs w)), refunds := refunds (objs w) @ [r]\<rparr>"
  have bal: "amount_refundable q = pay_amount_captured q - pay_amount_refunded q"
    using r(2,3) by (auto simp: amount_refundable_def)
  have "p \<in> set (payments (objs v))" using q p v by (auto simp: replace_by_mem)
  moreover have "x \<in> set (payments (objs v))" if "x \<in> set (payments (objs w))" "pay_id x \<noteq> i" for x
    using that q p v by (auto simp: replace_by_mem)
  ultimately show ?thesis
    using q r p v bal by (intro bexI [of _ q] bexI [of _ p]) (auto split: option.splits)
qed

theorem refund_effect_witness:
  "\<exists>r v p. create_refund obliging sandbox_gateway demo_user 3 (Some 4) None demo_world = (Inr r, v) \<and>
     p \<in> set (payments (objs v)) \<and> pay_amount_refunded p = 4 \<and> pay_status p = PARTIALLY_REFUNDED"
proof -
  obtain r v where run: "create_refund obliging sandbox_gateway demo_user 3 (Some 4) None demo_world = (Inr r, v)"
    using demo_refund_runs by blast
  have "distinct (map pay_id (payments (objs demo_world)))" "pending demo_world = []"
    by (simp_all add: demo_world_def sandbox_world_def empty_tables_def)
  from refund_effect [OF run this(2,1)] show ?thesis
    using run by (auto simp: demo_world_def empty_tables_def demo_payment_def)
qed

text \<open>All or nothing: a create, capture, cancel or refund request that raises, at whatever point,
  leaves the database exactly as it was, with nothing pending in the session.\<close>

theorem failed_request_leaves_no_trace:
  assumes "session_scope P (create_payment P gm owner provider amount cm mt token descr cust metadata key) w = (Inl e, v) \<or>
    session_scope P (capture_payment P gm owner i capture_amount) w = (Inl e, v) \<or>
    session_scope P (cancel_payment P gm owner i) w = (Inl e, v) \<or>
    session_scope P (create_refund P gm owner i minor reason) w = (Inl e, v)"
  shows "committed v = committed w \<and> objs v = committed w \<and> pending v = []"
  using assms create_body.failure_leaves_no_trace capture_body.failure_leaves_no_trace
    cancel_body.failure_leaves_no_trace refund_body.failure_leaves_no_trace by metis

theorem failed_request_leaves_no_trace_witness:
  "\<exists>e v. session_scope sandbox (cancel_payment sandbox sandbox_gateway demo_user 5) (sandbox_world Map.empty) = (Inl e, v) \<and>
     committed v = empty_tables"
proof -
  let ?w = "sandbox_world Map.empty"
  have "session_scope sandbox (cancel_payment sandbox sandbox_gateway demo_user 5) ?w =
      (Inl (err NotFoundError ''payment not found''), ?w)"
    by (simp add: unit_of_work cancel_payment_def require_payment_def get_for_owner_def select_one_eq op_simps
        scalar_one_or_none_def sandbox_world_def empty_tables_def)
  from failed_request_leaves_no_trace [OF disjI2 [OF disjI2 [OF disjI1 [OF this]]]] this show ?thesis
    by (auto simp: sandbox_world_def)
qed

end
