(* ===== verification/Auth.thy ===== *)
theory Auth
  imports Credentials Idempotency Ledger
begin

text \<open>
  The authentication service, \<^verbatim>\<open>app/services/auth.py\<close>: registration, password login with its
  lockout counter, token issue and refresh, and the life cycle of API keys.
\<close>

section \<open>Registration and login\<close>

definition MAX_FAILED_LOGINS :: int where
  "MAX_FAILED_LOGINS = 10"

definition DUMMY_HASH :: string where
  "DUMMY_HASH = ''$argon2id$v=19$m=65536,t=3,p=2$'' @ replicate 22 (CHR ''A'') @ ''$'' @ replicate 43 (CHR ''A'')"

definition new_user :: "string \<Rightarrow> string \<Rightarrow> string option \<Rightarrow> UserRole \<Rightarrow> uuid \<Rightarrow> rat \<Rightarrow> User" where
  "new_user email hashed full_name role i now =
     \<lparr> usr_id = i, usr_email = email, usr_hashed_password = hashed, usr_full_name = full_name, usr_role = role,
       usr_is_active = True, usr_failed_login_attempts = 0, usr_created_at = now \<rparr>"

definition register ::
  "'e platform \<Rightarrow> string \<Rightarrow> string \<Rightarrow> string option \<Rightarrow> UserRole \<Rightarrow> ('e world, exc, User) op" where
  "register P email password full_name role =
     (let email = strip (lower email)
      in andThen (email_exists email) (\<lambda>exists.
         andThen (ensure (\<not> exists) (err ConflictError ''an account with this email already exists'')) (\<lambda>_.
         andThen (hash_password P password) (\<lambda>hashed.
         andThen (add_row P UserRow (new_user email hashed full_name role)) (\<lambda>user.
         andThen (flush P) (\<lambda>_.
         andThen (audit_record P USER_REGISTERED (Some (usr_id user)) (Some ''user'') (Some (uuid_str (usr_id user))) []) (\<lambda>_.
         return user)))))))"

definition bad_credentials :: exc where
  "bad_credentials = err AuthenticationError ''invalid email or password''"

definition account_locked :: exc where
  "account_locked = err AuthenticationError ''account is locked; contact support''"

definition authenticate :: "'e platform \<Rightarrow> string \<Rightarrow> string \<Rightarrow> ('e world, exc, User) op" where
  "authenticate P email password =
     andThen (get_by_email (strip (lower email))) (\<lambda>found.
     andThen (lift_result (verify_password P password
                (case found of Some u \<Rightarrow> usr_hashed_password u | None \<Rightarrow> DUMMY_HASH))) (\<lambda>password_ok.
     case found of
       None \<Rightarrow> throw bad_credentials
     | Some user \<Rightarrow>
         if \<not> password_ok
         then andThen (put_user (user\<lparr>usr_failed_login_attempts := usr_failed_login_attempts user + 1\<rparr>))
                (\<lambda>_. throw bad_credentials)
         else
           andThen (ensure (\<not> (\<not> usr_is_active user \<or> usr_failed_login_attempts user \<ge> MAX_FAILED_LOGINS))
                      account_locked) (\<lambda>_.
           let user = user\<lparr>usr_failed_login_attempts := 0\<rparr>
           in andThen (put_user user) (\<lambda>_.
              andThen (lift_result (needs_rehash P (usr_hashed_password user))) (\<lambda>stale.
              andThen (if stale
                       then andThen (hash_password P password) (\<lambda>h.
                              let user = user\<lparr>usr_hashed_password := h\<rparr>
                              in andThen (put_user user) (\<lambda>_. return user))
                       else return user) (\<lambda>user.
              andThen (audit_record P USER_LOGIN (Some (usr_id user)) (Some ''user'') (Some (uuid_str (usr_id user))) []) (\<lambda>_.
              return user)))))))"

section \<open>Tokens\<close>

record TokenPair =
  tp_access_token :: string
  tp_refresh_token :: string

definition issue_tokens :: "'e platform \<Rightarrow> Settings \<Rightarrow> User \<Rightarrow> ('e world, exc, TokenPair) op" where
  "issue_tokens P s user =
     andThen (create_access_token P s (uuid_str (usr_id user)) (scopes_for_role (usr_role user))) (\<lambda>access.
     andThen (create_refresh_token P s (uuid_str (usr_id user))) (\<lambda>refresh.
     return \<lparr>tp_access_token = access, tp_refresh_token = refresh\<rparr>))"

definition active_user :: "uuid \<Rightarrow> string \<Rightarrow> ('e world, exc, User) op" where
  \<comment> \<open>\<open>users.get(id)\<close> and the check that follows it\<close>
  "active_user i message =
     andThen (get_by_id users usr_id i) (\<lambda>found.
     case found of
       None \<Rightarrow> throw (err AuthenticationError message)
     | Some user \<Rightarrow>
         andThen (ensure (usr_is_active user) (err AuthenticationError message)) (\<lambda>_. return user))"

definition user_from_access_token :: "'e platform \<Rightarrow> Settings \<Rightarrow> string \<Rightarrow> ('e world, exc, User) op" where
  "user_from_access_token P s token =
     andThen (decode P s token ACCESS) (\<lambda>claims.
     andThen (lift_result (UUID (tkc_subject claims))) (\<lambda>i.
     active_user i ''user not found or inactive''))"

definition refresh :: "'e platform \<Rightarrow> Settings \<Rightarrow> string \<Rightarrow> ('e world, exc, TokenPair) op" where
  "refresh P s refresh_token =
     andThen (decode P s refresh_token REFRESH) (\<lambda>claims.
     andThen (lift_result (UUID (tkc_subject claims))) (\<lambda>i.
     andThen (active_user i ''user no longer active'') (issue_tokens P s)))"

section \<open>API keys\<close>

record IssuedApiKey =
  iak_api_key :: ApiKey
  iak_plaintext :: string

definition create_api_key :: "'e platform \<Rightarrow> Settings \<Rightarrow> User \<Rightarrow> string \<Rightarrow> ('e world, exc, IssuedApiKey) op" where
  "create_api_key P s user name =
     andThen (generate_api_key P (api_key_prefix s)) (\<lambda>generated.
     andThen (add_row P ApiKeyRow (\<lambda>i now.
                \<lparr> key_id = i, key_user_id = usr_id user, key_name = name, key_hashed_key = gen_lookup_hash generated,
                  key_display_prefix = gen_display_prefix generated, key_is_active = True, key_last_used_at = None,
                  key_revoked_at = None, key_created_at = now \<rparr>)) (\<lambda>record.
     andThen (flush P) (\<lambda>_.
     andThen (audit_record P API_KEY_CREATED (Some (usr_id user)) (Some ''api_key'') (Some (uuid_str (key_id record))) []) (\<lambda>_.
     return \<lparr>iak_api_key = record, iak_plaintext = gen_full_key generated\<rparr>))))"

definition authenticate_api_key :: "'e platform \<Rightarrow> string \<Rightarrow> ('e world, exc, User) op" where
  "authenticate_api_key P presented_key =
     andThen (get_by_hash (hash_for_lookup presented_key)) (\<lambda>found.
     case found of
       None \<Rightarrow> throw (err AuthenticationError ''invalid API key'')
     | Some record \<Rightarrow>
         andThen (ensure (key_is_active record \<and> key_revoked_at record = None)
                    (err AuthenticationError ''invalid API key'')) (\<lambda>_.
         andThen (active_user (key_user_id record) ''API key owner is inactive'') (\<lambda>user.
         andThen (gets (\<lambda>w. time_time P (env w))) (\<lambda>now.
         andThen (put_api_key (record\<lparr>key_last_used_at := Some now\<rparr>)) (\<lambda>_.
         return user)))))"

definition list_api_keys :: "User \<Rightarrow> ('e world, exc, ApiKey list) op" where
  "list_api_keys user = api_keys_for_owner (usr_id user)"

definition revoke_api_key :: "'e platform \<Rightarrow> User \<Rightarrow> string \<Rightarrow> ('e world, exc, unit) op" where
  "revoke_api_key P user key_id_text =
     andThen (lift_result (UUID key_id_text)) (\<lambda>i.
     andThen (get_by_id api_keys key_id i) (\<lambda>found.
     case found of
       None \<Rightarrow> throw (err NotFoundError ''API key not found'')
     | Some record \<Rightarrow>
         andThen (ensure (key_user_id record = usr_id user) (err NotFoundError ''API key not found'')) (\<lambda>_.
         andThen (gets (\<lambda>w. time_time P (env w))) (\<lambda>now.
         andThen (put_api_key (record\<lparr>key_is_active := False, key_revoked_at := Some now\<rparr>)) (\<lambda>_.
         andThen (audit_record P API_KEY_REVOKED (Some (usr_id user)) (Some ''api_key'') (Some key_id_text) []) (\<lambda>_.
         return ()))))))"

section \<open>Steps that only draw on the environment\<close>

lemma keeps_env_steps [keeps_intros]:
  assumes "\<And>s e. I s \<Longrightarrow> I (s\<lparr>env := e\<rparr>)"
  shows "keeps I (hash_password P plain)" "keeps I (token_urlsafe P n)" "keeps I (generate_api_key P pre)"
    "keeps I (issue P s subject ty ttl scopes)" "keeps I (issue_tokens P s user)"
proof -
  show "keeps I (token_urlsafe P n)" "keeps I (issue P s subject ty ttl scopes)" for n subject ty ttl scopes
    using assms by (auto simp: keeps_def token_urlsafe_def issue_def split: prod.splits)
  then show "keeps I (generate_api_key P pre)" "keeps I (issue_tokens P s user)"
    by (auto simp: generate_api_key_def issue_tokens_def create_access_token_def create_refresh_token_def Let_def
        intro!: keeps_intros)
  have "keeps I (\<lambda>w. case argon2_hash P plain (env w) of (h, e) \<Rightarrow> (Inr h, w\<lparr>env := e\<rparr>))"
    using assms by (auto simp: keeps_def split: prod.splits)
  then show "keeps I (hash_password P plain)" by (auto simp: hash_password_def intro!: keeps_intros)
qed

lemma keeps_read_steps [keeps_intros]:
  "keeps I (decode P s token ty)" "keeps I (active_user i message)" "keeps I (user_from_access_token P s token)"
  "keeps I (get_by_email email)" "keeps I (email_exists email)" "keeps I (get_by_hash h)" "keeps I (api_keys_for_owner i)"
proof -
  show dec: "keeps I (decode P s token ty)" for ty by (rule keepsI) (auto dest: decode_reads)
  show "keeps I (active_user i message)" for i message
    by (auto simp: active_user_def get_by_id_def intro!: keeps_intros)
  then show "keeps I (user_from_access_token P s token)"
    by (auto simp: user_from_access_token_def intro!: keeps_intros dec)
  show "keeps I (get_by_email email)" "keeps I (get_by_hash h)"
    by (auto simp: keeps_def get_by_email_def get_by_hash_def select_one_eq)
  show "keeps I (email_exists email)" "keeps I (api_keys_for_owner i)"
    by (auto simp: email_exists_def api_keys_for_owner_def intro!: keeps_intros)
qed

section \<open>Unit of work\<close>

interpretation register_body: unit_of_work_body "register P email password full_name role"
    for P email password full_name role
  by unfold_locales (auto simp: register_def Let_def intro!: keeps_intros)

interpretation login_body: unit_of_work_body "authenticate P email password" for P email password
  by unfold_locales (auto simp: authenticate_def Let_def intro!: keeps_intros)

interpretation create_key_body: unit_of_work_body "create_api_key P s user name" for P s user name
  by unfold_locales (auto simp: create_api_key_def intro!: keeps_intros)

interpretation revoke_body: unit_of_work_body "revoke_api_key P user i" for P user i
  by unfold_locales (auto simp: revoke_api_key_def get_by_id_def intro!: keeps_intros)

interpretation use_key_body: unit_of_work_body "authenticate_api_key P presented" for P presented
  by unfold_locales (auto simp: authenticate_api_key_def intro!: keeps_intros)

section \<open>Lemmas on login\<close>

lemma authenticate_cases:
  assumes "filter (\<lambda>u. usr_email u = lower (strip (lower email))) (users (objs w)) = [u]"
    and "verify_password P password (usr_hashed_password u) = Inr ok"
  shows "\<not> ok \<Longrightarrow> fst (authenticate P email password w) = Inl bad_credentials"
    and "ok \<Longrightarrow> \<not> usr_is_active u \<or> usr_failed_login_attempts u \<ge> MAX_FAILED_LOGINS \<Longrightarrow>
      authenticate P email password w = (Inl account_locked, w)"
    and "ok \<Longrightarrow> usr_is_active u \<Longrightarrow> usr_failed_login_attempts u < MAX_FAILED_LOGINS \<Longrightarrow>
      needs_rehash P (usr_hashed_password u) = Inr False \<Longrightarrow>
      fst (authenticate P email password w) = Inr (u\<lparr>usr_failed_login_attempts := 0\<rparr>)"
  using assms
  by (simp_all add: authenticate_def get_by_email_def select_one_eq scalar_one_or_none_def op_simps Let_def
      put_user_def audit_record_def add_row_def split: prod.splits)

text \<open>A login request that fails is rolled back, its counter increment included.\<close>

lemma failed_login_rolled_back:
  assumes "fst (authenticate P email password (w\<lparr>objs := committed w, pending := []\<rparr>)) = Inl e"
  shows "committed (snd (session_scope P (authenticate P email password) w)) = committed w"
proof -
  obtain r v where run: "session_scope P (authenticate P email password) w = (r, v)" by fastforce
  moreover have "r = Inl e" using assms run by (auto simp: unit_of_work Let_def split: prod.splits sum.splits)
  ultimately show ?thesis using login_body.failure_leaves_no_trace by fastforce
qed

definition login_attempts :: "'e platform \<Rightarrow> string \<Rightarrow> string list \<Rightarrow> 'e world \<Rightarrow> 'e world" where
  "login_attempts P email passwords w =
     fold (\<lambda>password w. snd (session_scope P (authenticate P email password) w)) passwords w"

lemma login_attempts_committed:
  assumes "filter (\<lambda>u. usr_email u = lower (strip (lower email))) (users (committed w)) = [u]"
    and "\<forall>pw \<in> set passwords. verify_password P pw (usr_hashed_password u) = Inr False"
  shows "committed (login_attempts P email passwords w) = committed w"
  using assms
proof (induction passwords arbitrary: w)
  case Nil
  then show ?case by (simp add: login_attempts_def)
next
  case (Cons pw pws)
  let ?v = "snd (session_scope P (authenticate P email pw) w)"
  have "fst (authenticate P email pw (w\<lparr>objs := committed w, pending := []\<rparr>)) = Inl bad_credentials"
    by (rule authenticate_cases(1)) (use Cons.prems in auto)
  then have "committed ?v = committed w" by (rule failed_login_rolled_back)
  with Cons.IH [of ?v] Cons.prems show ?case by (simp add: login_attempts_def)
qed

lemma strip_mem: "c \<in> set (strip s) \<Longrightarrow> c \<in> set s"
  by (auto simp: strip_def dest!: set_dropWhileD)

lemma lower_strip [simp]: "lower (strip (lower s)) = strip (lower s)"
proof -
  have "lower_char c = c" if "c \<in> set (strip (lower s))" for c
    using strip_mem [OF that] by (auto simp: lower_def)
  then show ?thesis unfolding lower_def [of "strip (lower s)"] by (simp add: map_idI)
qed

section \<open>Lemmas on registration and API keys\<close>

text \<open>The documented behaviour of the password hasher: a hash verifies its password and is up to date.\<close>

definition argon2_faithful :: "'e platform \<Rightarrow> bool" where
  "argon2_faithful P \<longleftrightarrow>
     (\<forall>plain e. argon2_verify P (fst (argon2_hash P plain e)) plain = Inr True \<and>
        argon2_needs_rehash P (fst (argon2_hash P plain e)) = Inr False)"

lemma register_Inr:
  assumes "register P email password full_name role w = (Inr user, v)" and "pending w = []"
  obtains e i now a where
    "user = new_user (strip (lower email)) (fst (argon2_hash P password e)) full_name role i now"
    "\<forall>u \<in> set (users (objs w)). usr_email u \<noteq> strip (lower email)"
    "view v = insert_row (AuditLogRow a) (insert_row (UserRow user) (objs w))"
proof -
  have "\<exists>e i now a. user = new_user (strip (lower email)) (fst (argon2_hash P password e)) full_name role i now \<and>
    (\<forall>u \<in> set (users (objs w)). usr_email u \<noteq> strip (lower email)) \<and>
    view v = insert_row (AuditLogRow a) (insert_row (UserRow user) (objs w))"
    using assms
    by (auto simp: register_def Let_def email_exists_def hash_password_def audit_record_def op_splits view_def
        split: prod.splits) (metis fst_conv)+
  then show thesis using that by blast
qed

lemma create_api_key_Inr:
  assumes "create_api_key P s user name w = (Inr issued, v)" and "pending w = []"
  obtains a where "key_hashed_key (iak_api_key issued) = hash_key (iak_plaintext issued)"
    "key_user_id (iak_api_key issued) = usr_id user" "key_is_active (iak_api_key issued)"
    "key_revoked_at (iak_api_key issued) = None"
    "view v = insert_row (AuditLogRow a) (insert_row (ApiKeyRow (iak_api_key issued)) (objs w))"
proof -
  have "\<exists>a. key_hashed_key (iak_api_key issued) = hash_key (iak_plaintext issued) \<and>
    key_user_id (iak_api_key issued) = usr_id user \<and> key_is_active (iak_api_key issued) \<and>
    key_revoked_at (iak_api_key issued) = None \<and>
    view v = insert_row (AuditLogRow a) (insert_row (ApiKeyRow (iak_api_key issued)) (objs w))"
    using assms
    by (auto simp: create_api_key_def generate_api_key_def token_urlsafe_def Let_def audit_record_def op_splits view_def
        split: prod.splits)
  then show thesis using that by blast
qed

lemma authenticate_api_key_eq:
  assumes "filter (\<lambda>k. key_hashed_key k = hash_for_lookup presented) (api_keys (objs w)) = [r]"
  shows "fst (authenticate_api_key P presented w) =
    (if key_is_active r \<and> key_revoked_at r = None
     then (case find (\<lambda>u. usr_id u = key_user_id r) (users (objs w)) of
             Some u \<Rightarrow> if usr_is_active u then Inr u else Inl (err AuthenticationError ''API key owner is inactive'')
           | None \<Rightarrow> Inl (err AuthenticationError ''API key owner is inactive''))
     else Inl (err AuthenticationError ''invalid API key''))"
  using assms
  by (auto simp: authenticate_api_key_def get_by_hash_def select_one_eq scalar_one_or_none_def active_user_def get_by_id_def
      op_simps put_api_key_def split: option.splits)

lemma revoke_api_key_Inr:
  assumes "revoke_api_key P user (uuid_str i) w = (Inr x, v)" and "pending w = []"
  obtains r t a where "find (\<lambda>k. key_id k = i) (api_keys (objs w)) = Some r" "key_user_id r = usr_id user"
    "view v = insert_row (AuditLogRow a) ((objs w)\<lparr>api_keys :=
       replace_by key_id (r\<lparr>key_is_active := False, key_revoked_at := Some t\<rparr>) (api_keys (objs w))\<rparr>)"
proof -
  have "\<exists>r t a. find (\<lambda>k. key_id k = i) (api_keys (objs w)) = Some r \<and> key_user_id r = usr_id user \<and>
    view v = insert_row (AuditLogRow a) ((objs w)\<lparr>api_keys :=
       replace_by key_id (r\<lparr>key_is_active := False, key_revoked_at := Some t\<rparr>) (api_keys (objs w))\<rparr>)"
    using assms
    by (auto simp: revoke_api_key_def get_by_id_def audit_record_def put_api_key_def op_splits view_def
        split: option.splits) blast+
  then show thesis using that by blast
qed

lemma filter_replace_by:
  assumes "distinct (map key rs)" and "r \<in> set rs" and "key r' = key r" and "f r' = f r"
    and "filter (\<lambda>x. f x = f r) rs = [r]"
  shows "filter (\<lambda>x. f x = f r) (replace_by key r' rs) = [r']"
proof -
  have "filter (\<lambda>x. f x = f r) (replace_by key r' rs) = replace_by key r' (filter (\<lambda>x. f x = f r) rs)"
    unfolding replace_by_def filter_map
    by (rule arg_cong [where f = "map _"], rule filter_cong [OF refl])
      (use assms in \<open>auto simp: distinct_map inj_on_def\<close>)
  then show ?thesis using assms(3,5) by (simp add: replace_by_def)
qed

section \<open>Properties\<close>


text \<open>An account on the sandbox: twelve wrong guesses, then the right password.\<close>

definition login_user :: User where
  "login_user = demo_user\<lparr>usr_hashed_password := ''right''\<rparr>"

definition login_world :: "nat world" where
  "login_world = (sandbox_world Map.empty)\<lparr>committed := empty_tables\<lparr>users := [login_user]\<rparr>\<rparr>"

lemma login_world_facts:
  "filter (\<lambda>u. usr_email u = strip (lower ''merchant@example.com'')) (users (committed login_world)) = [login_user]"
  "usr_is_active login_user" "usr_failed_login_attempts login_user < MAX_FAILED_LOGINS"
  "verify_password sandbox ''right'' (usr_hashed_password login_user) = Inr True"
  "verify_password sandbox ''wrong'' (usr_hashed_password login_user) = Inr False"
proof -
  have "strip (lower ''merchant@example.com'') = ''merchant@example.com''" by code_simp
  then show "filter (\<lambda>u. usr_email u = strip (lower ''merchant@example.com'')) (users (committed login_world)) = [login_user]"
    by (simp add: login_world_def login_user_def demo_user_def)
qed (simp_all add: login_user_def demo_user_def MAX_FAILED_LOGINS_def verify_password_def sandbox_def)


text \<open>C26. Register, then log in: the account that a registration request commits is found again by
  any spelling of its address that agrees up to case and surrounding white space, and the
  password it was registered with logs it in.  It has the given role and a fresh counter.\<close>

theorem register_then_login:
  assumes "session_scope P (register P email password full_name role) w = (Inr user, v)" and "argon2_faithful P"
    and "strip (lower typed) = strip (lower email)" and "committed u = committed v"
  shows "fst (authenticate P typed password (u\<lparr>objs := committed u, pending := []\<rparr>)) = Inr user \<and>
    usr_email user = strip (lower email) \<and> usr_role user = role \<and> usr_is_active user"
proof -
  let ?w = "w\<lparr>objs := committed w, pending := []\<rparr>" and ?u = "u\<lparr>objs := committed u, pending := []\<rparr>"
  obtain x where run: "register P email password full_name role ?w = (Inr user, x)" and c: "committed v = view x"
    using assms(1) by (rule session_scope_Inr)
  obtain e i now a where user: "user = new_user (strip (lower email)) (fst (argon2_hash P password e)) full_name role i now"
    and new: "\<forall>u \<in> set (users (objs ?w)). usr_email u \<noteq> strip (lower email)"
    and v: "view x = insert_row (AuditLogRow a) (insert_row (UserRow user) (objs ?w))"
    using run by (rule register_Inr) simp
  have one: "filter (\<lambda>u. usr_email u = lower (strip (lower typed))) (users (objs ?u)) = [user]"
    using assms(3,4) c v new user by (auto simp: new_user_def filter_empty_conv)
  have ok: "verify_password P password (usr_hashed_password user) = Inr True"
    "needs_rehash P (usr_hashed_password user) = Inr False"
    using assms(2) user by (simp_all add: verify_password_def needs_rehash_def argon2_faithful_def new_user_def)
  have "usr_is_active user" "usr_failed_login_attempts user < MAX_FAILED_LOGINS"
    "user\<lparr>usr_failed_login_attempts := 0\<rparr> = user"
    using user by (simp_all add: new_user_def MAX_FAILED_LOGINS_def)
  then show ?thesis
    using authenticate_cases(3) [OF one ok(1)] ok(2) user by (simp add: new_user_def)
qed

lemma sandbox_steps:
  "uuid4 sandbox n = (of_nat n, Suc n)" "db_accepts sandbox t = unique_ok t" "argon2_hash sandbox plain n = (plain, n)"
  "urandom sandbox k n = (replicate k (CHR 0x00), Suc n)" "time_time sandbox n = 1700000000 + of_nat n"
  by (simp_all add: sandbox_def)

theorem register_then_login_witness:
  "\<exists>user v. session_scope sandbox (register sandbox ''Bob@example.com '' ''pass-word-1'' None MERCHANT)
       (sandbox_world Map.empty) = (Inr user, v) \<and>
     fst (authenticate sandbox '' bob@EXAMPLE.com'' ''pass-word-1'' (v\<lparr>objs := committed v, pending := []\<rparr>)) = Inr user"
proof -
  have ok: "unique_ok (empty_tables\<lparr>users := [u], audit_logs := [a]\<rparr>)" "unique_ok (empty_tables\<lparr>users := [u]\<rparr>)" for u a
    by (simp_all add: unique_ok_def unique_by_def map_filter_Some empty_tables_def List.map_filter_simps)
  have "\<exists>user v. session_scope sandbox (register sandbox email ''pass-word-1'' None MERCHANT)
      (sandbox_world Map.empty) = (Inr user, v)" for email
    using ok by (simp add: unit_of_work register_def Let_def email_exists_def hash_password_def audit_record_def add_row_def
        flush_def op_simps sandbox_steps sandbox_world_def empty_tables_def)
  then obtain user v where run: "session_scope sandbox (register sandbox ''Bob@example.com '' ''pass-word-1'' None MERCHANT)
      (sandbox_world Map.empty) = (Inr user, v)" by blast
  have "argon2_faithful sandbox" by (simp add: argon2_faithful_def sandbox_def)
  moreover have "strip (lower '' bob@EXAMPLE.com'') = strip (lower ''Bob@example.com '')" by code_simp
  ultimately have "fst (authenticate sandbox '' bob@EXAMPLE.com'' ''pass-word-1'' (v\<lparr>objs := committed v, pending := []\<rparr>)) = Inr user"
    by (rule conjunct1 [OF register_then_login [OF run _ _ refl]])
  with run show ?thesis by (intro exI conjI)
qed

text \<open>C27. An API key works until it is revoked.  The key a creation request hands out authenticates its
  owner in every later session on the committed rows; what is stored is the SHA-256 digest of the
  key.  Once its owner's revocation is committed, the same key is refused.\<close>

theorem api_key_lifecycle:
  assumes "session_scope P (create_api_key P s user name) w = (Inr issued, v)" and "enforces_unique P"
    and "find (\<lambda>u. usr_id u = usr_id user) (users (committed v)) = Some owner" and "usr_is_active owner"
    and "committed u = committed v"
    and "session_scope P (revoke_api_key P user (uuid_str (key_id (iak_api_key issued)))) u = (Inr (), x)"
    and "committed y = committed x"
  shows "fst (authenticate_api_key P (iak_plaintext issued) (u\<lparr>objs := committed u, pending := []\<rparr>)) = Inr owner \<and>
    key_hashed_key (iak_api_key issued) = hexdigest (sha256 (utf8 (iak_plaintext issued))) \<and>
    fst (authenticate_api_key P (iak_plaintext issued) (y\<lparr>objs := committed y, pending := []\<rparr>)) =
      Inl (err AuthenticationError ''invalid API key'')"
proof -
  let ?w = "w\<lparr>objs := committed w, pending := []\<rparr>" and ?u = "u\<lparr>objs := committed u, pending := []\<rparr>"
  let ?y = "y\<lparr>objs := committed y, pending := []\<rparr>" and ?k = "iak_api_key issued"
  obtain z where run: "create_api_key P s user name ?w = (Inr issued, z)" and c: "committed v = view z"
    and acc: "db_accepts P (view z)" using assms(1) by (rule session_scope_Inr)
  obtain a where k: "key_hashed_key ?k = hash_key (iak_plaintext issued)" "key_user_id ?k = usr_id user"
    "key_is_active ?k" "key_revoked_at ?k = None"
    and z: "view z = insert_row (AuditLogRow a) (insert_row (ApiKeyRow ?k) (objs ?w))"
    using run by (rule create_api_key_Inr) simp
  have dist: "distinct (map key_hashed_key (api_keys (committed v)))" "distinct (map key_id (api_keys (committed v)))"
    using acc assms(2) c by (auto simp: enforces_unique_def unique_ok_def unique_by_def map_filter_Some)
  have mem: "?k \<in> set (api_keys (committed v))" using c z by simp
  have one: "filter (\<lambda>r. key_hashed_key r = hash_for_lookup (iak_plaintext issued)) (api_keys (committed v)) = [?k]"
    using distinct_filter_one [OF dist(1) mem] k(1) by (simp add: hash_for_lookup_def)
  obtain q where run': "revoke_api_key P user (uuid_str (key_id ?k)) ?u = (Inr (), q)" and c': "committed x = view q"
    using assms(6) by (rule session_scope_Inr)
  obtain r t b where r: "find (\<lambda>r. key_id r = key_id ?k) (api_keys (objs ?u)) = Some r" "key_user_id r = usr_id user"
    and q: "view q = insert_row (AuditLogRow b) ((objs ?u)\<lparr>api_keys :=
       replace_by key_id (r\<lparr>key_is_active := False, key_revoked_at := Some t\<rparr>) (api_keys (objs ?u))\<rparr>)"
    using run' by (rule revoke_api_key_Inr) simp
  have "r = ?k" using r(1) mem dist(2) assms(5)
    by (auto simp: find_Some_iff distinct_map inj_on_def dest!: nth_mem)
  then have "filter (\<lambda>r. key_hashed_key r = hash_for_lookup (iak_plaintext issued)) (api_keys (objs ?y)) =
      [?k\<lparr>key_is_active := False, key_revoked_at := Some t\<rparr>]"
    using filter_replace_by [OF dist(2) mem, of "?k\<lparr>key_is_active := False, key_revoked_at := Some t\<rparr>" key_hashed_key]
      one k(1) assms(5,7) c' q by (simp add: hash_for_lookup_def)
  from authenticate_api_key_eq [OF this] have
    "fst (authenticate_api_key P (iak_plaintext issued) ?y) = Inl (err AuthenticationError ''invalid API key'')" by simp
  moreover have "fst (authenticate_api_key P (iak_plaintext issued) ?u) = Inr owner"
    using authenticate_api_key_eq [of "iak_plaintext issued" ?u ?k P] one assms(3-5) k by simp
  ultimately show ?thesis using k(1) by (simp add: hash_key_def)
qed

lemma demo_key_runs:
  "\<exists>issued v. session_scope sandbox (create_api_key sandbox default_settings demo_user ''server'') login_world = (Inr issued, v) \<and>
     users (committed v) = [login_user] \<and>
     (\<exists>x. session_scope sandbox (revoke_api_key sandbox demo_user (uuid_str (key_id (iak_api_key issued)))) v = (Inr (), x))"
proof -
  have ok: "unique_ok (empty_tables\<lparr>users := [u], api_keys := [k]\<rparr>)"
    "unique_ok (empty_tables\<lparr>users := [u], api_keys := [k], audit_logs := [a]\<rparr>)"
    "aud_id a \<noteq> aud_id b \<Longrightarrow> unique_ok (empty_tables\<lparr>users := [u], api_keys := [k], audit_logs := [a, b]\<rparr>)" for u k a b
    by (simp_all add: unique_ok_def unique_by_def map_filter_Some empty_tables_def List.map_filter_simps)
  have "usr_id demo_user = 7" by (simp add: demo_user_def)
  then show ?thesis
    using ok [unfolded empty_tables_def]
    by (simp add: unit_of_work create_api_key_def generate_api_key_def token_urlsafe_def Let_def audit_record_def
        add_row_def flush_def op_simps sandbox_steps login_world_def sandbox_world_def empty_tables_def
        revoke_api_key_def get_by_id_def put_api_key_def replace_by_def)
qed

theorem api_key_lifecycle_witness:
  "\<exists>presented u y. fst (authenticate_api_key sandbox presented (u :: nat world)) = Inr login_user \<and>
     fst (authenticate_api_key sandbox presented y) = Inl (err AuthenticationError ''invalid API key'')"
proof -
  obtain issued v x where run:
    "session_scope sandbox (create_api_key sandbox default_settings demo_user ''server'') login_world = (Inr issued, v)"
    "session_scope sandbox (revoke_api_key sandbox demo_user (uuid_str (key_id (iak_api_key issued)))) v = (Inr (), x)"
    and v: "users (committed v) = [login_user]" using demo_key_runs by blast
  have "enforces_unique sandbox" by (simp add: enforces_unique_def sandbox_steps)
  moreover have "find (\<lambda>u. usr_id u = usr_id demo_user) (users (committed v)) = Some login_user" "usr_is_active login_user"
    by (simp_all add: v login_user_def demo_user_def)
  ultimately show ?thesis using api_key_lifecycle [OF run(1) _ _ _ refl run(2) refl] by blast
qed

text \<open>C28. Access and refresh tokens are not interchangeable.  An access token of an active user
  authenticates that user until it expires and not after; presented for a refresh it is refused,
  and a refresh token presented for authentication is refused, in both cases with an
  \<open>AuthenticationError\<close>.\<close>

theorem tokens_not_interchangeable:
  assumes "create_access_token P s (uuid_str (usr_id user)) scopes w1 = (Inr access, v1)"
    and "create_refresh_token P s (uuid_str (usr_id user)) w2 = (Inr refresh_token, v2)" and "jwt_faithful P"
    and "of_int (unix_now P w1) \<le> time_time P (env w)" and "of_int (unix_now P w2) \<le> time_time P (env w)"
    and "0 \<le> unix_now P w1 + access_token_ttl_seconds s" and "unix_now P w1 + access_token_ttl_seconds s \<le> 253402300799"
    and "0 \<le> unix_now P w2 + refresh_token_ttl_seconds s" and "unix_now P w2 + refresh_token_ttl_seconds s \<le> 253402300799"
    and "find (\<lambda>u. usr_id u = usr_id user) (users (objs w)) = Some user" and "usr_is_active user"
  shows "user_from_access_token P s access w =
      (if time_time P (env w) < of_int (unix_now P w1 + access_token_ttl_seconds s) then (Inr user, w)
       else (Inl (err AuthenticationError ''Token has expired''), w)) \<and>
    (\<exists>e. refresh P s access w = (Inl e, w) \<and> is_instance AuthenticationError e) \<and>
    (\<exists>e. user_from_access_token P s refresh_token w = (Inl e, w) \<and> is_instance AuthenticationError e)"
proof -
  note acc = token_read_back [OF assms(1) [unfolded create_access_token_def] assms(3,4,6,7)]
  note ref = token_read_back [OF assms(2) [unfolded create_refresh_token_def] assms(3,5,8,9)]
  have auth: "is_instance AuthenticationError (err AuthenticationError m)"
    "is_instance AuthenticationError (wrong_type t j)" for m t j
    by (simp_all add: wrong_type_def is_subclass_def)
  have "user_from_access_token P s access w =
      (if time_time P (env w) < of_int (unix_now P w1 + access_token_ttl_seconds s) then (Inr user, w)
       else (Inl (err AuthenticationError ''Token has expired''), w))"
    using acc [of ACCESS] assms(10,11)
    by (auto simp: user_from_access_token_def active_user_def get_by_id_def op_simps)
  moreover have "\<exists>e. refresh P s access w = (Inl e, w) \<and> is_instance AuthenticationError e"
    using acc [of REFRESH] auth by (auto simp: refresh_def op_simps split: if_splits)
  moreover have "\<exists>e. user_from_access_token P s refresh_token w = (Inl e, w) \<and> is_instance AuthenticationError e"
    using ref [of ACCESS] auth by (auto simp: user_from_access_token_def op_simps split: if_splits)
  ultimately show ?thesis by blast
qed

lemma issue_returns:
  obtains token v where "issue P s subject ty ttl scopes w = (Inr token, v)"
  by (cases "uuid4 P (env w)") (simp add: issue_def)

theorem tokens_not_interchangeable_witness:
  "\<exists>access refresh_token.
     user_from_access_token token_sandbox default_settings access (login_world\<lparr>objs := committed login_world\<rparr>) =
       (Inr login_user, login_world\<lparr>objs := committed login_world\<rparr>) \<and>
     fst (user_from_access_token token_sandbox default_settings refresh_token (login_world\<lparr>objs := committed login_world\<rparr>))
       \<noteq> Inr login_user"
proof -
  let ?w = "login_world\<lparr>objs := committed login_world\<rparr>" and ?P = token_sandbox and ?s = default_settings
  have now: "unix_now ?P ?w = 1700000000" "time_time ?P (env ?w) = 1700000000"
    by (simp_all add: unix_now_def token_sandbox_def sandbox_steps login_world_def sandbox_world_def)
  obtain a v where a: "create_access_token ?P ?s (uuid_str (usr_id login_user)) [] ?w = (Inr a, v)"
    unfolding create_access_token_def by (rule issue_returns)
  obtain r v' where r: "create_refresh_token ?P ?s (uuid_str (usr_id login_user)) ?w = (Inr r, v')"
    unfolding create_refresh_token_def by (rule issue_returns)
  have ttl: "access_token_ttl_seconds ?s = 900" "refresh_token_ttl_seconds ?s = 604800"
    by (simp_all add: default_settings_def)
  have found: "find (\<lambda>u. usr_id u = usr_id login_user) (users (objs ?w)) = Some login_user" "usr_is_active login_user"
    by (simp_all add: login_world_def login_user_def demo_user_def)
  have "user_from_access_token ?P ?s a ?w = (Inr login_user, ?w) \<and>
    (\<exists>e. user_from_access_token ?P ?s r ?w = (Inl e, ?w))"
    using tokens_not_interchangeable [OF a r token_sandbox_faithful _ _ _ _ _ _ found] by (auto simp only: now ttl) auto
  then show ?thesis by (metis fst_conv sum.distinct(1))
qed

end
