(* ===== verification/Webhooks.thy ===== *)
theory Webhooks
  imports Session
begin

text \<open>
  The webhook service, \<^verbatim>\<open>app/services/webhooks.py\<close>: verify, deduplicate, persist.
\<close>

section \<open>The service\<close>

definition webhook_metric :: "ProviderName \<Rightarrow> string \<Rightarrow> ('e world, exc, unit) op" where
  "webhook_metric provider outcome = inc ''upgi_webhook_events_total'' [ProviderName_value provider, outcome]"

definition new_event :: "ProviderName \<Rightarrow> ProviderWebhook \<Rightarrow> uuid \<Rightarrow> WebhookEvent" where
  "new_event provider verified i =
     \<lparr> evt_id = i, evt_provider = provider, evt_event_id = whk_event_id verified,
       evt_event_type = whk_event_type verified, evt_status = PROCESSED, evt_payload = whk_payload verified,
       evt_attempts = 1, evt_last_error = None \<rparr>"

definition handle ::
  "'e platform \<Rightarrow> 'e BasePaymentProvider \<Rightarrow> ProviderName \<Rightarrow> string \<Rightarrow> (string \<times> string) list
   \<Rightarrow> ('e world, exc, WebhookEvent \<times> bool) op" where
  "handle P adapter provider body headers =
     andThen (on_exit (ad_verify_webhook adapter body headers) (\<lambda>r. case r of
                  Inr verified \<Rightarrow> return verified
                | Inl e \<Rightarrow> andThen (webhook_metric provider ''rejected'') (\<lambda>_. throw e))) (\<lambda>verified.
     andThen (get_by_event provider (whk_event_id verified)) (\<lambda>existing.
     case existing of
       Some event \<Rightarrow>
         andThen (webhook_metric provider ''duplicate'') (\<lambda>_. return (event, True))
     | None \<Rightarrow>
         andThen (add_row P WebhookEventRow (\<lambda>i now. new_event provider verified i)) (\<lambda>event.
         andThen (flush P) (\<lambda>_.
         andThen (webhook_metric provider ''processed'') (\<lambda>_.
         andThen (audit_record P WEBHOOK_RECEIVED None (Some ''webhook'') (Some (whk_event_id verified))
                    [(''provider'', JStr (ProviderName_value provider)), (''type'', JStr (whk_event_type verified))]) (\<lambda>_.
         return (event, False)))))))"

section \<open>Lemmas\<close>

text \<open>The three outcomes of a delivery, for an adapter whose verification only reads.\<close>

lemma handle_rejected:
  assumes "ad_verify_webhook adapter body headers w = (Inl e, w)"
  shows "handle P adapter provider body headers w =
    (Inl e, w\<lparr>metrics := metrics w @ [Inc ''upgi_webhook_events_total'' [ProviderName_value provider, ''rejected'']]\<rparr>)"
  using assms by (simp add: handle_def webhook_metric_def inc_def op_simps)

lemma handle_duplicate:
  assumes "ad_verify_webhook adapter body headers w = (Inr verified, w)"
    and "filter (\<lambda>e. evt_provider e = provider \<and> evt_event_id e = whk_event_id verified) (webhook_events (objs w)) = [event]"
  shows "handle P adapter provider body headers w =
    (Inr (event, True),
     w\<lparr>metrics := metrics w @ [Inc ''upgi_webhook_events_total'' [ProviderName_value provider, ''duplicate'']]\<rparr>)"
  using assms by (simp add: handle_def webhook_metric_def inc_def op_simps get_by_event_def select_one_eq scalar_one_or_none_def)

lemma handle_new:
  assumes "ad_verify_webhook adapter body headers w = (Inr verified, w)"
    and "handle P adapter provider body headers w = (Inr (event, dup), v)"
    and "\<And>e. e \<in> set (webhook_events (objs w)) \<Longrightarrow> \<not> (evt_provider e = provider \<and> evt_event_id e = whk_event_id verified)"
    and "pending w = []"
  obtains i a where "event = new_event provider verified i" and "\<not> dup"
    and "view v = insert_row (AuditLogRow a) (insert_row (WebhookEventRow event) (objs w))"
proof -
  have "scalar_one_or_none (filter (\<lambda>e. evt_provider e = provider \<and> evt_event_id e = whk_event_id verified)
      (webhook_events (objs w))) = Inr None"
    using assms(3) by (simp add: scalar_one_or_none_None filter_empty_conv)
  then show thesis
    using assms(1,2,4) that
    by (auto simp: handle_def webhook_metric_def inc_def audit_record_def get_by_event_def on_exit_run op_splits view_def)
qed

lemma reads_only_keeps: "reads_only m \<Longrightarrow> keeps I m"
  unfolding reads_only_def keeps_def by metis

text \<open>An invariant of the elementary steps is one of the service.\<close>

lemma keeps_handle:
  assumes "payment_adapter adapter"
    and "\<And>outcome. keeps I (webhook_metric provider outcome)" and "\<And>mk. keeps I (add_row P WebhookEventRow mk)"
    and "keeps I (flush P)" and "\<And>i ctx. keeps I (audit_record P WEBHOOK_RECEIVED None (Some ''webhook'') i ctx)"
  shows "keeps I (handle P adapter provider body headers)"
proof -
  have "keeps I (ad_verify_webhook adapter body headers)"
    using payment_adapter.verify_reads [OF assms(1)] by (rule reads_only_keeps)
  moreover have "keeps I (get_by_event provider i)" for i
    by (auto simp: get_by_event_def keeps_def select_one_eq)
  ultimately show ?thesis
    using assms(2-5) by (auto simp: handle_def intro!: keeps_intros)
qed

lemma keeps_webhook_metric [keeps_intros]:
  "(\<And>s ms. I s \<Longrightarrow> I (s\<lparr>metrics := ms\<rparr>)) \<Longrightarrow> keeps I (webhook_metric provider outcome)"
  by (auto simp: keeps_def webhook_metric_def inc_def op_simps)

end
