(* ===== verification/Schemas.thy ===== *)
theory Schemas
  imports World Money
begin

text \<open>
  Request and response schemas of payments and refunds, \<^verbatim>\<open>app/schemas/payment.py\<close> and
  \<^verbatim>\<open>app/schemas/common.py\<close>: the constraints and validators declared on the requests, the JSON
  form of a request (\<open>model_dump(mode="json")\<close>) and the mappers from rows to responses.  Parsing
  a request body into typed fields is the schema library's.
\<close>

section \<open>Requests\<close>

record CreatePaymentRequest =
  cpr_currency :: string
  cpr_provider :: ProviderName
  cpr_amount_minor :: int
  cpr_capture_method :: CaptureMethod
  cpr_method_type :: PaymentMethodType
  cpr_payment_method_token :: "string option"
  cpr_description :: "string option"
  cpr_customer_reference :: "string option"
  cpr_metadata :: "(string \<times> json) list"

record CreateRefundRequest =
  crr_amount_minor :: "int option"
  crr_reason :: "string option"

definition known_currency :: "string \<Rightarrow> string option" where
  \<comment> \<open>\<open>_known_currency\<close>; \<open>None\<close> is its \<open>ValueError\<close>\<close>
  "known_currency value =
     (let code = upper value in if is_supported_currency code then Some code else None)"

definition max_length :: "nat \<Rightarrow> string option \<Rightarrow> bool" where
  "max_length n v = (case v of None \<Rightarrow> True | Some s \<Rightarrow> length s \<le> n)"

definition amount_in_range :: "int \<Rightarrow> bool" where
  "amount_in_range a \<longleftrightarrow> 0 < a \<and> a \<le> 10 ^ 12"

definition validate_create :: "CreatePaymentRequest \<Rightarrow> CreatePaymentRequest option" where
  \<comment> \<open>\<open>None\<close> is a validation error\<close>
  "validate_create r =
     (if 3 \<le> length (cpr_currency r) \<and> length (cpr_currency r) \<le> 8 \<and>
         amount_in_range (cpr_amount_minor r) \<and> max_length 255 (cpr_payment_method_token r) \<and>
         max_length 500 (cpr_description r) \<and> max_length 255 (cpr_customer_reference r)
      then map_option (\<lambda>code. r\<lparr>cpr_currency := code\<rparr>) (known_currency (cpr_currency r))
      else None)"

definition validate_capture :: "int option \<Rightarrow> bool" where
  "validate_capture amount_minor = (case amount_minor of None \<Rightarrow> True | Some a \<Rightarrow> amount_in_range a)"

definition validate_refund :: "CreateRefundRequest \<Rightarrow> bool" where
  "validate_refund r \<longleftrightarrow>
     (case crr_amount_minor r of None \<Rightarrow> True | Some a \<Rightarrow> amount_in_range a) \<and> max_length 500 (crr_reason r)"

definition dump_create :: "CreatePaymentRequest \<Rightarrow> json" where
  "dump_create r = JObj
     [(''currency'', JStr (cpr_currency r)),
      (''provider'', JStr (ProviderName_value (cpr_provider r))),
      (''amount_minor'', JInt (cpr_amount_minor r)),
      (''capture_method'', JStr (CaptureMethod_value (cpr_capture_method r))),
      (''method_type'', JStr (PaymentMethodType_value (cpr_method_type r))),
      (''payment_method_token'', opt_str (cpr_payment_method_token r)),
      (''description'', opt_str (cpr_description r)),
      (''customer_reference'', opt_str (cpr_customer_reference r)),
      (''metadata'', JObj (cpr_metadata r))]"

definition dump_refund :: "uuid \<Rightarrow> CreateRefundRequest \<Rightarrow> json" where
  \<comment> \<open>\<open>{"payment_id": str(payment_id), **payload.model_dump(mode="json")}\<close>\<close>
  "dump_refund payment_id r = JObj
     [(''payment_id'', JStr (uuid_str payment_id)),
      (''amount_minor'', case crr_amount_minor r of None \<Rightarrow> JNull | Some a \<Rightarrow> JInt a),
      (''reason'', opt_str (crr_reason r))]"

section \<open>Responses\<close>

definition money_out :: "int \<Rightarrow> string \<Rightarrow> json result" where
  "money_out units cur =
     (case Money units cur of
        Inl e \<Rightarrow> Inl e
      | Inr m \<Rightarrow>
          (case format m of
             Inl e \<Rightarrow> Inl e
           | Inr display \<Rightarrow>
               Inr (JObj [(''minor_units'', JInt units), (''currency'', JStr cur), (''display'', JStr display)])))"

definition payment_to_response :: "'e platform \<Rightarrow> Payment \<Rightarrow> json result" where
  "payment_to_response P p =
     (case money_out (pay_amount p) (pay_currency p) of Inl e \<Rightarrow> Inl e | Inr amount \<Rightarrow>
     (case money_out (pay_amount_captured p) (pay_currency p) of Inl e \<Rightarrow> Inl e | Inr captured \<Rightarrow>
     (case money_out (pay_amount_refunded p) (pay_currency p) of Inl e \<Rightarrow> Inl e | Inr refunded \<Rightarrow>
     Inr (JObj
       [(''id'', JStr (uuid_str (pay_id p))),
        (''provider'', JStr (ProviderName_value (pay_provider p))),
        (''provider_reference'', opt_str (pay_provider_reference p)),
        (''status'', JStr (PaymentStatus_value (pay_status p))),
        (''capture_method'', JStr (CaptureMethod_value (pay_capture_method p))),
        (''method_type'', JStr (PaymentMethodType_value (pay_method_type p))),
        (''amount'', amount), (''amount_captured'', captured), (''amount_refunded'', refunded),
        (''description'', opt_str (pay_description p)),
        (''customer_reference'', opt_str (pay_customer_reference p)),
        (''failure_reason'', opt_str (pay_failure_reason p)),
        (''metadata'', JObj (pay_metadata p)),
        (''created_at'', JStr (isoformat P (pay_created_at p))),
        (''updated_at'', JStr (isoformat P (pay_updated_at p)))]))))"

definition refund_to_response :: "'e platform \<Rightarrow> Refund \<Rightarrow> json result" where
  "refund_to_response P r =
     (case money_out (rfd_amount r) (rfd_currency r) of Inl e \<Rightarrow> Inl e | Inr amount \<Rightarrow>
     Inr (JObj
       [(''id'', JStr (uuid_str (rfd_id r))),
        (''payment_id'', JStr (uuid_str (rfd_payment_id r))),
        (''amount'', amount),
        (''status'', JStr (RefundStatus_value (rfd_status r))),
        (''reason'', opt_str (rfd_reason r)),
        (''provider_reference'', opt_str (rfd_provider_reference r)),
        (''created_at'', JStr (isoformat P (rfd_created_at r)))]))"

lemma validate_create_Some:
  "validate_create r = Some s \<Longrightarrow> 0 < cpr_amount_minor s \<and> cpr_amount_minor s \<le> 10 ^ 12 \<and>
     is_supported_currency (cpr_currency s) \<and> upper (cpr_currency s) = cpr_currency s"
  by (auto simp: validate_create_def known_currency_def amount_in_range_def Let_def split: if_splits)

text \<open>Amounts of up to 28 digits can be shown.\<close>

lemma money_out_returns:
  assumes "is_supported_currency c" and "upper c = c" and "\<bar>a\<bar> < 10 ^ 28"
  shows "\<exists>j. money_out a c = Inr j"
proof -
  obtain m where m: "Money a c = Inr m" using assms(1,2) by (auto simp: Money_def Money_init_def Let_def)
  then have wf: "wf_money m" "minor_units m = a" using Money_wf by auto
  then obtain k where "exponent_for (currency m) = Inr k" using wf_exponent by blast
  from to_decimal_exact [OF this] m wf(2) assms(3) show ?thesis by (simp add: money_out_def format_def)
qed

lemma payment_to_response_returns:
  assumes "is_supported_currency (pay_currency p)" and "upper (pay_currency p) = pay_currency p"
    and "\<bar>pay_amount p\<bar> < 10 ^ 28" and "\<bar>pay_amount_captured p\<bar> < 10 ^ 28" and "\<bar>pay_amount_refunded p\<bar> < 10 ^ 28"
  shows "\<exists>j. payment_to_response P p = Inr j"
  using money_out_returns [OF assms(1,2,3)] money_out_returns [OF assms(1,2,4)] money_out_returns [OF assms(1,2,5)]
  by (auto simp: payment_to_response_def)

text \<open>C37. A validated request always yields a positive, well-formed amount of money of at most
  \<open>10 ^ 12\<close> minor units, so that the endpoint's \<open>Money\<close> constructor cannot raise.\<close>

theorem validated_amount_is_money:
  assumes "validate_create r = Some s"
  shows "\<exists>m. Money (cpr_amount_minor s) (cpr_currency s) = Inr m \<and> wf_money m \<and> is_positive m \<and>
    minor_units m = cpr_amount_minor r \<and> minor_units m \<le> 10 ^ 12 \<and> currency m = upper (cpr_currency r)"
proof -
  have s: "cpr_amount_minor s = cpr_amount_minor r" "cpr_currency s = upper (cpr_currency r)"
    using assms by (auto simp: validate_create_def known_currency_def Let_def split: if_splits)
  obtain m where m: "Money (cpr_amount_minor s) (cpr_currency s) = Inr m"
    using validate_create_Some [OF assms] by (auto simp: Money_def Money_init_def Let_def)
  with Money_wf [OF m] validate_create_Some [OF assms] s show ?thesis by (auto simp: is_positive_def)
qed

theorem validated_amount_is_money_witness:
  "\<exists>s m. validate_create \<lparr> cpr_currency = ''usd'', cpr_provider = MOCK, cpr_amount_minor = 1999,
       cpr_capture_method = AUTOMATIC, cpr_method_type = WALLET, cpr_payment_method_token = None,
       cpr_description = None, cpr_customer_reference = None, cpr_metadata = [] \<rparr> = Some s \<and>
     Money (cpr_amount_minor s) (cpr_currency s) = Inr m \<and> currency m = ''USD''"
proof -
  let ?r = "\<lparr> cpr_currency = ''usd'', cpr_provider = MOCK, cpr_amount_minor = 1999,
       cpr_capture_method = AUTOMATIC, cpr_method_type = WALLET, cpr_payment_method_token = None,
       cpr_description = None, cpr_customer_reference = None, cpr_metadata = [] \<rparr>"
  have up: "upper ''usd'' = ''USD''" "upper ''USD'' = ''USD''" by code_simp+
  have "validate_create ?r = Some (?r\<lparr>cpr_currency := ''USD''\<rparr>)"
    by (simp add: validate_create_def known_currency_def max_length_def amount_in_range_def up
        is_supported_currency_def CURRENCY_EXPONENTS_def)
  from validated_amount_is_money [OF this] this up show ?thesis by auto
qed

end
