(* ===== verification/Api.thy ===== *)
theory Api
  imports Auth Webhooks Schemas
begin

text \<open>
  The HTTP interface: the dependencies that authenticate and authorise a request
  (\<^verbatim>\<open>app/api/deps.py\<close>), the endpoints (\<^verbatim>\<open>app/api/v1\<close>) and their dispatch inside the transactional
  session of the request.  An endpoint gets its parameters parsed and validated; header names are
  in lower case, as the server delivers them.
\<close>

section \<open>Dependencies\<close>

record App =
  app_settings :: Settings
  app_gateway :: GatewayManager

type_synonym headers = "(string \<times> string) list"
type_synonym 'e endpoint = "('e world, exc, int \<times> json) op"

definition get_current_user :: "'e platform \<Rightarrow> App \<Rightarrow> headers \<Rightarrow> ('e world, exc, User) op" where
  "get_current_user P app hs =
     (if nonempty (map_of hs ''x-api-key'')
      then authenticate_api_key P (header_get hs ''x-api-key'')
      else (case partition_on (CHR '' '') (header_get hs ''authorization'') of
              (scheme, _, token) \<Rightarrow>
                if lower scheme = ''bearer'' \<and> token \<noteq> []
                then user_from_access_token P (app_settings app) token
                else throw (err AuthenticationError ''missing authentication credentials'')))"

definition insufficient_scope :: "string \<Rightarrow> exc" where
  "insufficient_scope scope = err_with PermissionDeniedError ''insufficient scope'' [(''required_scope'', JStr scope)]"

definition require_scope :: "'e platform \<Rightarrow> App \<Rightarrow> headers \<Rightarrow> string \<Rightarrow> ('e world, exc, User) op" where
  "require_scope P app hs scope =
     andThen (get_current_user P app hs) (\<lambda>user.
     andThen (ensure (has_scope (scopes_for_role (usr_role user)) scope) (insufficient_scope scope)) (\<lambda>_.
     return user))"

section \<open>Payments and refunds\<close>

definition CREATE_ENDPOINT :: string where
  "CREATE_ENDPOINT = ''create_payment''"

definition REFUND_ENDPOINT :: string where
  "REFUND_ENDPOINT = ''create_refund''"

definition stored :: "StoredResponse \<Rightarrow> int \<times> json" where
  "stored r = (sr_status r, sr_body r)"

definition charge_action ::
  "'e platform \<Rightarrow> App \<Rightarrow> User \<Rightarrow> CreatePaymentRequest \<Rightarrow> string option \<Rightarrow> ('e world, exc, json) op" where
  "charge_action P app user payload idempotency_key =
     andThen (lift_result (Money (cpr_amount_minor payload) (cpr_currency payload))) (\<lambda>amount.
     andThen (create_payment P (app_gateway app) user (cpr_provider payload) amount (cpr_capture_method payload)
                (cpr_method_type payload) (cpr_payment_method_token payload) (cpr_description payload)
                (cpr_customer_reference payload) (cpr_metadata payload) idempotency_key) (\<lambda>payment.
     lift_result (payment_to_response P payment)))"

definition api_create_payment :: "'e platform \<Rightarrow> App \<Rightarrow> headers \<Rightarrow> CreatePaymentRequest \<Rightarrow> 'e endpoint" where
  "api_create_payment P app hs payload =
     andThen (require_scope P app hs SCOPE_PAYMENTS_WRITE) (\<lambda>user.
     let key = map_of hs ''idempotency-key''
     in andThen (with_idempotency P (usr_id user) CREATE_ENDPOINT key (dump_create payload)
                   (charge_action P app user payload key)) (\<lambda>r. return (stored r)))"

definition collect :: "('a \<Rightarrow> json result) \<Rightarrow> 'a list \<Rightarrow> json list result" where
  "collect f xs =
     foldr (\<lambda>x acc. case f x of Inl e \<Rightarrow> Inl e
              | Inr j \<Rightarrow> (case acc of Inl e \<Rightarrow> Inl e | Inr js \<Rightarrow> Inr (j # js))) xs (Inr [])"

definition api_list_payments ::
  "'e platform \<Rightarrow> App \<Rightarrow> headers \<Rightarrow> PaymentStatus option \<Rightarrow> nat \<Rightarrow> nat \<Rightarrow> 'e endpoint" where
  "api_list_payments P app hs status_filter limit offset =
     andThen (require_scope P app hs SCOPE_PAYMENTS_READ) (\<lambda>user.
     andThen (list_payments user status_filter limit offset) (\<lambda>(items, total).
     andThen (lift_result (collect (payment_to_response P) items)) (\<lambda>js.
     return (200, JObj [(''items'', JArr js),
       (''meta'', JObj [(''total'', JInt (int total)), (''limit'', JInt (int limit)), (''offset'', JInt (int offset))])]))))"

definition page_ok :: "int \<Rightarrow> int \<Rightarrow> bool" where
  \<comment> \<open>the declared bounds of \<open>limit\<close> and \<open>offset\<close>\<close>
  "page_ok limit offset \<longleftrightarrow> 1 \<le> limit \<and> limit \<le> 200 \<and> 0 \<le> offset"

definition api_get_payment :: "'e platform \<Rightarrow> App \<Rightarrow> headers \<Rightarrow> uuid \<Rightarrow> 'e endpoint" where
  "api_get_payment P app hs payment_id =
     andThen (require_scope P app hs SCOPE_PAYMENTS_READ) (\<lambda>user.
     andThen (get_payment user payment_id) (\<lambda>payment.
     andThen (lift_result (payment_to_response P payment)) (\<lambda>j. return (200, j))))"

definition api_capture_payment :: "'e platform \<Rightarrow> App \<Rightarrow> headers \<Rightarrow> uuid \<Rightarrow> int option \<Rightarrow> 'e endpoint" where
  "api_capture_payment P app hs payment_id amount_minor =
     andThen (require_scope P app hs SCOPE_PAYMENTS_WRITE) (\<lambda>user.
     andThen (get_payment user payment_id) (\<lambda>payment.
     andThen (case amount_minor of
                None \<Rightarrow> return None
              | Some a \<Rightarrow> andThen (lift_result (Money a (pay_currency payment))) (\<lambda>m. return (Some m))) (\<lambda>amount.
     andThen (capture_payment P (app_gateway app) user payment_id amount) (\<lambda>updated.
     andThen (lift_result (payment_to_response P updated)) (\<lambda>j. return (200, j))))))"

definition api_cancel_payment :: "'e platform \<Rightarrow> App \<Rightarrow> headers \<Rightarrow> uuid \<Rightarrow> 'e endpoint" where
  "api_cancel_payment P app hs payment_id =
     andThen (require_scope P app hs SCOPE_PAYMENTS_WRITE) (\<lambda>user.
     andThen (cancel_payment P (app_gateway app) user payment_id) (\<lambda>updated.
     andThen (lift_result (payment_to_response P updated)) (\<lambda>j. return (200, j))))"

definition refund_action ::
  "'e platform \<Rightarrow> App \<Rightarrow> User \<Rightarrow> uuid \<Rightarrow> CreateRefundRequest \<Rightarrow> ('e world, exc, json) op" where
  "refund_action P app user payment_id payload =
     andThen (create_refund P (app_gateway app) user payment_id (crr_amount_minor payload) (crr_reason payload)) (\<lambda>refund.
     lift_result (refund_to_response P refund))"

definition api_create_refund :: "'e platform \<Rightarrow> App \<Rightarrow> headers \<Rightarrow> uuid \<Rightarrow> CreateRefundRequest \<Rightarrow> 'e endpoint" where
  "api_create_refund P app hs payment_id payload =
     andThen (require_scope P app hs SCOPE_REFUNDS_WRITE) (\<lambda>user.
     andThen (with_idempotency P (usr_id user) REFUND_ENDPOINT (map_of hs ''idempotency-key'')
                (dump_refund payment_id payload) (refund_action P app user payment_id payload)) (\<lambda>r. return (stored r)))"

section \<open>Webhooks and administration\<close>

definition webhook_ack :: "WebhookEvent \<Rightarrow> bool \<Rightarrow> json" where
  "webhook_ack event duplicate = JObj
     [(''received'', JBool True), (''duplicate'', JBool duplicate),
      (''event_id'', JStr (evt_event_id event)), (''event_type'', JStr (evt_event_type event))]"

definition api_receive_webhook :: "'e platform \<Rightarrow> App \<Rightarrow> headers \<Rightarrow> ProviderName \<Rightarrow> string \<Rightarrow> 'e endpoint" where
  "api_receive_webhook P app hs provider raw_body =
     andThen (if nonempty (map_of hs ''x-upgi-account'') then lift_result (UUID (header_get hs ''x-upgi-account''))
              else (\<lambda>w. case uuid4 P (env w) of (i, e) \<Rightarrow> (Inr i, w\<lparr>env := e\<rparr>))) (\<lambda>owner_id.
     andThen (get_provider P (app_gateway app) owner_id provider) (\<lambda>adapter.
     andThen (handle P adapter provider raw_body hs) (\<lambda>(event, duplicate).
     return (200, webhook_ack event duplicate))))"

definition all_statuses :: "PaymentStatus list" where
  "all_statuses = [REQUIRES_CONFIRMATION, AUTHORIZED, CAPTURED, PARTIALLY_REFUNDED, REFUNDED, CANCELED, FAILED]"

definition count_by_status :: "Payment list \<Rightarrow> (PaymentStatus \<times> nat) list" where
  \<comment> \<open>\<open>select(Payment.status, func.count()).group_by(Payment.status)\<close>\<close>
  "count_by_status ps =
     filter (\<lambda>(s, n). 0 < n) (map (\<lambda>s. (s, length (filter (\<lambda>p. pay_status p = s) ps))) all_statuses)"

definition api_list_providers :: "'e platform \<Rightarrow> App \<Rightarrow> headers \<Rightarrow> 'e endpoint" where
  "api_list_providers P app hs =
     andThen (require_scope P app hs SCOPE_ADMIN) (\<lambda>_.
     return (200, JObj
       [(''registered_providers'', JArr (map (JStr \<circ> ProviderName_value) (available_providers registry_of))),
        (''supported_currencies'', JArr (map JStr (sort (map fst CURRENCY_EXPONENTS))))]))"

definition api_payment_stats :: "'e platform \<Rightarrow> App \<Rightarrow> headers \<Rightarrow> 'e endpoint" where
  "api_payment_stats P app hs =
     andThen (require_scope P app hs SCOPE_ADMIN) (\<lambda>_.
     andThen (gets (\<lambda>w. payments (objs w))) (\<lambda>ps.
     let by_status = count_by_status ps
     in return (200, JObj
       [(''total_payments'', JInt (sum_list (map (int \<circ> snd) by_status))),
        (''by_status'', JObj (map (\<lambda>(s, n). (PaymentStatus_value s, JInt (int n))) by_status)),
        (''captured_minor_units'', JInt (sum_list (map pay_amount_captured ps)))])))"

section \<open>Accounts\<close>

record RegisterRequest =
  reg_email :: string
  reg_password :: string
  reg_full_name :: "string option"

record LoginRequest =
  log_email :: string
  log_password :: string

definition validate_register :: "RegisterRequest \<Rightarrow> bool" where
  "validate_register r \<longleftrightarrow>
     10 \<le> length (reg_password r) \<and> length (reg_password r) \<le> 128 \<and> max_length 255 (reg_full_name r)"

definition validate_login :: "LoginRequest \<Rightarrow> bool" where
  "validate_login r \<longleftrightarrow> 1 \<le> length (log_password r) \<and> length (log_password r) \<le> 128"

definition validate_key_name :: "string \<Rightarrow> bool" where
  "validate_key_name name \<longleftrightarrow> 1 \<le> length name \<and> length name \<le> 120"

definition user_response :: "'e platform \<Rightarrow> User \<Rightarrow> json" where
  "user_response P u = JObj
     [(''id'', JStr (uuid_str (usr_id u))), (''email'', JStr (usr_email u)), (''full_name'', opt_str (usr_full_name u)),
      (''role'', JStr (UserRole_value (usr_role u))), (''is_active'', JBool (usr_is_active u)),
      (''created_at'', JStr (isoformat P (usr_created_at u)))]"

definition token_response :: "TokenPair \<Rightarrow> json" where
  "token_response t = JObj
     [(''access_token'', JStr (tp_access_token t)), (''refresh_token'', JStr (tp_refresh_token t)),
      (''token_type'', JStr ''bearer'')]"

definition key_fields :: "'e platform \<Rightarrow> ApiKey \<Rightarrow> (string \<times> json) list" where
  "key_fields P k =
     [(''id'', JStr (uuid_str (key_id k))), (''name'', JStr (key_name k)), (''display_prefix'', JStr (key_display_prefix k)),
      (''is_active'', JBool (key_is_active k)), (''created_at'', JStr (isoformat P (key_created_at k))),
      (''last_used_at'', case key_last_used_at k of None \<Rightarrow> JNull | Some t \<Rightarrow> JStr (isoformat P t))]"

definition api_register :: "'e platform \<Rightarrow> RegisterRequest \<Rightarrow> 'e endpoint" where
  "api_register P payload =
     andThen (register P (reg_email payload) (reg_password payload) (reg_full_name payload) MERCHANT) (\<lambda>user.
     return (201, user_response P user))"

definition api_login :: "'e platform \<Rightarrow> App \<Rightarrow> LoginRequest \<Rightarrow> 'e endpoint" where
  "api_login P app payload =
     andThen (authenticate P (log_email payload) (log_password payload)) (\<lambda>user.
     andThen (issue_tokens P (app_settings app) user) (\<lambda>tokens.
     return (200, token_response tokens)))"

definition api_refresh :: "'e platform \<Rightarrow> App \<Rightarrow> string \<Rightarrow> 'e endpoint" where
  "api_refresh P app refresh_token =
     andThen (refresh P (app_settings app) refresh_token) (\<lambda>tokens. return (200, token_response tokens))"

definition api_me :: "'e platform \<Rightarrow> App \<Rightarrow> headers \<Rightarrow> 'e endpoint" where
  "api_me P app hs = andThen (get_current_user P app hs) (\<lambda>user. return (200, user_response P user))"

definition api_create_api_key :: "'e platform \<Rightarrow> App \<Rightarrow> headers \<Rightarrow> string \<Rightarrow> 'e endpoint" where
  "api_create_api_key P app hs name =
     andThen (get_current_user P app hs) (\<lambda>user.
     andThen (create_api_key P (app_settings app) user name) (\<lambda>issued.
     return (201, JObj (key_fields P (iak_api_key issued) @ [(''api_key'', JStr (iak_plaintext issued))]))))"

definition api_list_api_keys :: "'e platform \<Rightarrow> App \<Rightarrow> headers \<Rightarrow> 'e endpoint" where
  "api_list_api_keys P app hs =
     andThen (get_current_user P app hs) (\<lambda>user.
     andThen (list_api_keys user) (\<lambda>keys.
     return (200, JArr (map (JObj \<circ> key_fields P) keys))))"

definition api_revoke_api_key :: "'e platform \<Rightarrow> App \<Rightarrow> headers \<Rightarrow> string \<Rightarrow> 'e endpoint" where
  "api_revoke_api_key P app hs key_id_text =
     andThen (get_current_user P app hs) (\<lambda>user.
     andThen (revoke_api_key P user key_id_text) (\<lambda>_. return (204, JNull)))"

section \<open>Requests\<close>

text \<open>A request, after routing, with its parameters; and the endpoint it reaches.\<close>

datatype call =
    Register RegisterRequest
  | Login LoginRequest
  | Refresh string
  | Me
  | CreateApiKey string
  | ListApiKeys
  | RevokeApiKey string
  | CreatePayment CreatePaymentRequest
  | ListPayments "PaymentStatus option" nat nat
  | GetPayment uuid
  | CapturePayment uuid "int option"
  | CancelPayment uuid
  | CreateRefund uuid CreateRefundRequest
  | ReceiveWebhook ProviderName string
  | ListProviders
  | GetPaymentStats

fun well_formed :: "call \<Rightarrow> bool" where
  \<comment> \<open>the request schemas' verdict; a payment request arrives as its validator returned it\<close>
  "well_formed (Register r) = validate_register r"
| "well_formed (Login r) = validate_login r"
| "well_formed (CreateApiKey name) = validate_key_name name"
| "well_formed (CreatePayment r) = (\<exists>raw. validate_create raw = Some r)"
| "well_formed (ListPayments status_filter limit offset) = page_ok (int limit) (int offset)"
| "well_formed (CapturePayment i amount) = validate_capture amount"
| "well_formed (CreateRefund i r) = validate_refund r"
| "well_formed _ = True"

fun endpoint_of :: "'e platform \<Rightarrow> App \<Rightarrow> headers \<Rightarrow> call \<Rightarrow> 'e endpoint" where
  "endpoint_of P app hs (Register r) = api_register P r"
| "endpoint_of P app hs (Login r) = api_login P app r"
| "endpoint_of P app hs (Refresh token) = api_refresh P app token"
| "endpoint_of P app hs Me = api_me P app hs"
| "endpoint_of P app hs (CreateApiKey name) = api_create_api_key P app hs name"
| "endpoint_of P app hs ListApiKeys = api_list_api_keys P app hs"
| "endpoint_of P app hs (RevokeApiKey i) = api_revoke_api_key P app hs i"
| "endpoint_of P app hs (CreatePayment r) = api_create_payment P app hs r"
| "endpoint_of P app hs (ListPayments status_filter limit offset) = api_list_payments P app hs status_filter limit offset"
| "endpoint_of P app hs (GetPayment i) = api_get_payment P app hs i"
| "endpoint_of P app hs (CapturePayment i amount) = api_capture_payment P app hs i amount"
| "endpoint_of P app hs (CancelPayment i) = api_cancel_payment P app hs i"
| "endpoint_of P app hs (CreateRefund i r) = api_create_refund P app hs i r"
| "endpoint_of P app hs (ReceiveWebhook provider body) = api_receive_webhook P app hs provider body"
| "endpoint_of P app hs ListProviders = api_list_providers P app hs"
| "endpoint_of P app hs GetPaymentStats = api_payment_stats P app hs"

text \<open>
  The endpoint runs inside the request's session; what it raises becomes a handler's answer.  The
  handlers of \<open>DomainError\<close>, \<open>RequestValidationError\<close> and \<open>HTTPException\<close> run inside the middleware,
  where the request's correlation identifier is set; the one for \<open>Exception\<close> runs outside of it,
  where the context variable has been reset.
\<close>

fun caught_inside :: "exc \<Rightarrow> bool" where
  "caught_inside (Py x) = False"
| "caught_inside _ = True"

definition error_answer :: "string \<Rightarrow> exc \<Rightarrow> int \<times> json" where
  "error_answer cid e = handle_exception (if caught_inside e then cid else []) e"

definition run_call :: "'e platform \<Rightarrow> App \<Rightarrow> headers \<Rightarrow> call \<Rightarrow> 'e world \<Rightarrow> (int \<times> json) \<times> 'e world" where
  "run_call P app hs c w =
     (case session_scope P (endpoint_of P app hs c) w of
        (Inr resp, v) \<Rightarrow> (resp, v)
      | (Inl e, v) \<Rightarrow> (error_answer (correlation_id v) e, v))"

end
