(* ===== verification/Requests.thy ===== *)
theory Requests
  imports Api
begin

text \<open>
  What any sequence of requests does to the database.  An invariant of the session that the
  elementary steps keep is kept by every endpoint (locales \<open>request_invariant\<close>, \<open>money_invariant\<close>); the audit log, the
  refunds, the idempotency records and the webhook events only grow, roles never change, and the
  ledger invariant carries over from the services to the interface.
\<close>

section \<open>Invariants of the session\<close>

text \<open>The requests that move money, and the invariants that only the others are asked to keep.\<close>

fun moves_money :: "call \<Rightarrow> bool" where
  "moves_money (CreatePayment r) = True"
| "moves_money (CapturePayment i amount) = True"
| "moves_money (CancelPayment i) = True"
| "moves_money (CreateRefund i r) = True"
| "moves_money _ = False"

locale row_invariant =
  fixes P :: "'e platform" and I :: "'e world \<Rightarrow> bool"
  assumes add_event: "keeps I (add_row P WebhookEventRow mkw)"
    and add_audit: "keeps I (add_row P AuditLogRow mka)"
    and add_key: "keeps I (add_row P ApiKeyRow mkk)"
    and flushed: "keeps I (flush P)"
    and api_key: "keeps I (put_api_key k)"
    and registers: "keeps I (register P email password full_name MERCHANT)"
    and logs_in: "keeps I (authenticate P email password)"
begin

lemma audits: "keeps I (audit_record P action actor rt ri ctx)"
  by (auto simp: audit_record_def intro!: keeps_intros add_audit)

lemma selects: "keeps I (select_one table cond)" "keeps I (get_for_owner i own)" "keeps I (get_by_id rows key i)"
  "keeps I (require_payment own' i)"
  by (auto simp: keeps_def select_one_eq get_for_owner_def get_by_id_def require_payment_def op_simps
      split: sum.splits option.splits)

lemmas row_steps = audits selects flushed api_key add_event add_key

end

locale request_invariant = row_invariant +
  assumes same_env: "I w \<Longrightarrow> I (w\<lparr>env := e\<rparr>)"
    and charge_counted: "keeps I (payment_metric operation provider outcome)"
    and webhook_counted: "keeps I (webhook_metric provider outcome)"
begin

lemmas steps = row_steps charge_counted webhook_counted

lemma handles: "payment_adapter adapter \<Longrightarrow> keeps I (handle P adapter provider body headers)"
  by (rule keeps_handle) (auto intro!: steps)

lemma authenticates:
  "keeps I (authenticate_api_key P presented)" "keeps I (get_current_user P app hs)" "keeps I (require_scope P app hs scope)"
proof -
  show "keeps I (authenticate_api_key P presented)" for presented
    by (auto simp: authenticate_api_key_def intro!: keeps_intros steps)
  then show "keeps I (get_current_user P app hs)"
    by (auto simp: get_current_user_def split: prod.splits intro!: keeps_intros)
  then show "keeps I (require_scope P app hs scope)"
    by (auto simp: require_scope_def intro!: keeps_intros)
qed

lemma drawn: "keeps I (\<lambda>w. case uuid4 P (env w) of (i, e) \<Rightarrow> (Inr i, w\<lparr>env := e\<rparr>))"
  by (auto simp: keeps_def same_env split: prod.splits)

lemma keeps_quiet_endpoint:
  assumes "\<not> moves_money c"
  shows "keeps I (endpoint_of P app hs c)"
proof (cases c)
  case (ReceiveWebhook provider body)
  then show ?thesis
    by (auto simp: api_receive_webhook_def intro!: keeps_intros keeps_provider_call handles drawn split: prod.splits)
next
  case (CreateApiKey name)
  then show ?thesis
    by (auto simp: api_create_api_key_def create_api_key_def same_env intro!: keeps_intros authenticates steps)
next
  case (RevokeApiKey i)
  then show ?thesis
    by (auto simp: api_revoke_api_key_def revoke_api_key_def intro!: keeps_intros authenticates steps)
qed (use assms in \<open>auto simp: api_register_def api_login_def api_refresh_def refresh_def api_me_def
    api_list_api_keys_def list_api_keys_def api_list_payments_def list_payments_def list_for_owner_def
    api_get_payment_def get_payment_def api_list_providers_def api_payment_stats_def Let_def same_env
    intro!: keeps_intros authenticates registers logs_in steps split: prod.splits\<close>)

end

locale money_row_invariant = row_invariant +
  assumes add_payment: "keeps I (add_row P PaymentRow mkp)"
    and add_refund: "keeps I (add_row P RefundRow mkr)"
    and add_record: "keeps I (add_row P IdempotencyKeyRow mki)"
    and payment: "keeps I (put_payment p)"

locale money_invariant = request_invariant + money_row_invariant +
  assumes charge_called: "env_only (m :: ('e world, exc, ProviderCharge) op) \<Longrightarrow> keeps I (execute P gm provider m)"
    and refund_called: "env_only (m' :: ('e world, exc, ProviderRefund) op) \<Longrightarrow> keeps I (execute P gm provider m')"
begin

lemmas money_steps = steps add_payment add_refund add_record payment

lemma charges: "keeps I (create_payment P gm owner provider amount cm mt token descr cust metadata key)"
  by (auto simp: create_payment_def Let_def payment_adapter.create_env split: prod.splits
      intro!: keeps_intros money_steps charge_called refund_called keeps_provider_call)

lemma captures: "keeps I (capture_payment P gm owner i amount)"
  by (auto simp: capture_payment_def Let_def payment_adapter.capture_env
      intro!: keeps_intros money_steps charge_called refund_called keeps_provider_call)

lemma cancels: "keeps I (cancel_payment P gm owner i)"
  by (auto simp: cancel_payment_def Let_def payment_adapter.cancel_env
      intro!: keeps_intros money_steps charge_called refund_called keeps_provider_call)

lemma pays_back: "keeps I (create_refund P gm owner i minor reason)"
  by (auto simp: create_refund_def Let_def payment_adapter.refund_env
      intro!: keeps_intros money_steps charge_called refund_called keeps_provider_call)

lemma stores: "keeps I (store P owner_id endpoint key body status resp)"
  by (auto simp: store_def intro!: keeps_intros money_steps)

lemma actions: "keeps I (charge_action P app user payload key)" "keeps I (refund_action P app user i request)"
  by (auto simp: charge_action_def refund_action_def intro!: keeps_intros charges pays_back)

lemma keeps_endpoint: "keeps I (endpoint_of P app hs c)"
proof (cases "moves_money c")
  case True
  then show ?thesis
    by (cases c)
      (auto simp: api_create_payment_def api_create_refund_def api_capture_payment_def api_cancel_payment_def get_payment_def
        Let_def intro!: keeps_intros keeps_with_idempotency authenticates actions stores captures cancels selects)
qed (rule keeps_quiet_endpoint)

end

text \<open>An invariant of the session proper holds whatever happens to environment, breakers and metrics.\<close>

locale account_invariant = row_invariant +
  assumes same: "I w \<Longrightarrow> same_session w v \<Longrightarrow> I v"
begin

lemma executes:
  assumes "env_only operation"
  shows "keeps I (execute P gm provider operation)"
  by (rule keepsI) (metis execute_env_only [OF assms] same)

lemma counted: "I s \<Longrightarrow> I (s\<lparr>metrics := ms\<rparr>)"
  by (rule same) (auto simp: same_session_def)

end

sublocale account_invariant \<subseteq> request_invariant
  by unfold_locales
    (auto simp: payment_metric_def webhook_metric_def inc_def same_session_def intro!: keeps_intros counted elim!: same)

locale session_invariant = account_invariant + money_row_invariant

sublocale session_invariant \<subseteq> money_invariant
  by unfold_locales (rule executes, assumption)+

section \<open>Instances\<close>

interpretation uncommitted: session_invariant P "\<lambda>v. committed v = c" for P c
  by unfold_locales
    (auto simp: same_session_def intro!: keeps_intros register_body.keeps_committed login_body.keeps_committed)

interpretation endpoint: unit_of_work_body "endpoint_of P app hs c" for P app hs c
  by unfold_locales (rule uncommitted.keeps_endpoint)

context append_only
begin

lemma growing: "session_invariant P (\<lambda>v. prefix A (table (view v)))"
proof unfold_locales
  fix w v :: "'e world"
  show "prefix A (table (view w)) \<Longrightarrow> same_session w v \<Longrightarrow> prefix A (table (view v))" by (simp add: same_session_view)
  have env: "prefix A (table (view s)) \<Longrightarrow> prefix A (table (view (s\<lparr>env := e\<rparr>)))" for s :: "'e world" and e by simp
  show "keeps (\<lambda>v. prefix A (table (view v))) (register P email password full_name MERCHANT)" for email password full_name
    by (auto simp: register_def Let_def env intro!: keeps_intros grows)
  show "keeps (\<lambda>v. prefix A (table (view v))) (authenticate P email password)" for email password
    by (auto simp: authenticate_def Let_def env intro!: keeps_intros grows)
qed (rule grows)+

end

interpretation audit_trail: session_invariant P "\<lambda>v. prefix A (audit_logs (view v))" for P A
  by (rule audit_log.growing)

interpretation record_keeping: session_invariant P "\<lambda>v. prefix A (idempotency_keys (view v))" for P A
  by (rule idempotency_log.growing)

interpretation event_trail: session_invariant P "\<lambda>v. prefix A (webhook_events (view v))" for P A
  by (rule event_log.growing)

interpretation refund_trail: session_invariant P "\<lambda>v. prefix A (refunds (view v))" for P A
  by (rule refund_log.growing)

section \<open>Runs of the interface\<close>

text \<open>Well-formed requests, each in a session of its own, from any clients; between two requests
  anything but the database may change.\<close>

inductive api_step :: "'e platform \<Rightarrow> App \<Rightarrow> 'e world \<Rightarrow> 'e world \<Rightarrow> bool" for P app where
  request: "well_formed c \<Longrightarrow> run_call P app hs c w = (resp, v) \<Longrightarrow> api_step P app w v"
| idle: "committed v = committed w \<Longrightarrow> api_step P app w v"

inductive api_run :: "'e platform \<Rightarrow> App \<Rightarrow> 'e world \<Rightarrow> 'e world \<Rightarrow> bool" for P app where
  start: "api_run P app w w"
| step: "api_run P app w u \<Longrightarrow> api_step P app u v \<Longrightarrow> api_run P app w v"

lemma run_call_session:
  assumes "run_call P app hs c w = (resp, v)"
  obtains r where "session_scope P (endpoint_of P app hs c) w = (r, v)"
    and "resp = (case r of Inr x \<Rightarrow> x | Inl e \<Rightarrow> error_answer (correlation_id v) e)"
  using assms by (auto simp: run_call_def split: prod.splits sum.splits)

text \<open>What every request keeps of the committed rows, every run keeps.\<close>

lemma api_run_committed:
  assumes "api_run P app w v" and "J (committed w)"
    and request: "\<And>hs c w r v. well_formed c \<Longrightarrow> session_scope P (endpoint_of P app hs c) w = (r, v) \<Longrightarrow>
           J (committed w) \<Longrightarrow> J (committed v)"
  shows "J (committed v)"
  using assms(1,2)
proof (induction rule: api_run.induct)
  case (step w u v)
  then have "J (committed u)" by blast
  from step(2) show ?case
  proof cases
    case (request c hs resp)
    then obtain r where "session_scope P (endpoint_of P app hs c) u = (r, v)" by (auto elim: run_call_session)
    then show ?thesis using assms(3) request(1) \<open>J (committed u)\<close> by blast
  next
    case idle
    then show ?thesis using \<open>J (committed u)\<close> by simp
  qed
qed simp

lemma api_run_grows:
  assumes "api_run P app w v"
  shows "prefix (audit_logs (committed w)) (audit_logs (committed v))"
    and "prefix (idempotency_keys (committed w)) (idempotency_keys (committed v))"
    and "prefix (webhook_events (committed w)) (webhook_events (committed v))"
    and "prefix (refunds (committed w)) (refunds (committed v))"
  using assms
proof -
  show "prefix (audit_logs (committed w)) (audit_logs (committed v))"
    by (rule api_run_committed [OF assms, where J = "\<lambda>t. prefix (audit_logs (committed w)) (audit_logs t)"])
      (auto intro: endpoint.keeps_view audit_trail.keeps_endpoint)
  show "prefix (idempotency_keys (committed w)) (idempotency_keys (committed v))"
    by (rule api_run_committed [OF assms, where J = "\<lambda>t. prefix (idempotency_keys (committed w)) (idempotency_keys t)"])
      (auto intro: endpoint.keeps_view record_keeping.keeps_endpoint)
  show "prefix (webhook_events (committed w)) (webhook_events (committed v))"
    by (rule api_run_committed [OF assms, where J = "\<lambda>t. prefix (webhook_events (committed w)) (webhook_events t)"])
      (auto intro: endpoint.keeps_view event_trail.keeps_endpoint)
  show "prefix (refunds (committed w)) (refunds (committed v))"
    by (rule api_run_committed [OF assms, where J = "\<lambda>t. prefix (refunds (committed w)) (refunds t)"])
      (auto intro: endpoint.keeps_view refund_trail.keeps_endpoint)
qed

lemma api_run_accepted:
  assumes "api_run P app w v" and "unique_ok (committed w)" and "enforces_unique P"
  shows "unique_ok (committed v)"
proof (rule api_run_committed [where J = unique_ok, OF assms(1,2)])
  fix hs c w r v
  assume run: "session_scope P (endpoint_of P app hs c) w = (r, v)" and "unique_ok (committed w)"
  then show "unique_ok (committed v)"
  proof (cases r)
    case (Inl e)
    then show ?thesis using endpoint.failure_leaves_no_trace run \<open>unique_ok (committed w)\<close> by metis
  next
    case (Inr a)
    with run have "session_scope P (endpoint_of P app hs c) w = (Inr a, v)" by simp
    then have "db_accepts P (committed v)" by (rule session_scope_Inr) simp
    then show ?thesis using assms(3) by (simp add: enforces_unique_def)
  qed
qed

section \<open>Roles\<close>

definition role_known :: "User list \<Rightarrow> User \<Rightarrow> bool" where
  "role_known us u \<longleftrightarrow> usr_role u = MERCHANT \<or> (\<exists>k \<in> set us. usr_id k = usr_id u \<and> usr_role k = usr_role u)"

definition roles_known :: "User list \<Rightarrow> tables \<Rightarrow> bool" where
  "roles_known us t \<longleftrightarrow> (\<forall>u \<in> set (users t). role_known us u)"

fun user_row :: "row \<Rightarrow> User option" where
  "user_row (UserRow r) = Some r" | "user_row _ = None"

lemma users_fold: "users (fold insert_row rs t) = users t @ List.map_filter user_row rs"
proof (induction rs arbitrary: t)
  case (Cons r rs)
  then show ?case by (cases r) (auto simp: List.map_filter_simps)
qed (simp add: List.map_filter_simps)

lemma users_view: "users (view w) = users (objs w) @ List.map_filter user_row (pending w)"
  by (simp add: view_def users_fold)

lemma roles_view_update:
  "roles_known us (view (s\<lparr>objs := (objs s)\<lparr>payments := ps\<rparr>\<rparr>)) = roles_known us (view s)"
  "roles_known us (view (s\<lparr>objs := (objs s)\<lparr>api_keys := ks\<rparr>\<rparr>)) = roles_known us (view s)"
  "user_row r = None \<Longrightarrow> roles_known us (view (s\<lparr>env := e, pending := pending s @ [r]\<rparr>)) = roles_known us (view s)"
  by (simp_all add: roles_known_def users_view audit_log.map_filter_append List.map_filter_simps)

lemma roles_put_user: "role_known us u \<Longrightarrow> keeps (\<lambda>v. roles_known us (view v)) (put_user u)"
  by (auto simp: keeps_def put_user_def op_simps roles_known_def users_view replace_by_mem)

lemma roles_add_row:
  "(\<And>i now. user_row (row_of (mk i now)) = None) \<Longrightarrow> keeps (\<lambda>v. roles_known us (view v)) (add_row P row_of mk)"
  by (auto simp: keeps_def add_row_def Let_def roles_view_update split: prod.splits)

lemma roles_add_user: "keeps (\<lambda>v. roles_known us (view v)) (add_row P UserRow (new_user email hashed full_name MERCHANT))"
  by (auto simp: keeps_def add_row_def Let_def roles_known_def users_view audit_log.map_filter_append List.map_filter_simps
      role_known_def new_user_def split: prod.splits)

lemma roles_flush: "keeps (\<lambda>v. roles_known us (view v)) (flush P)"
  by (auto simp: keeps_def flush_def Let_def view_def)

lemma roles_audit: "keeps (\<lambda>v. roles_known us (view v)) (audit_record P action actor rt ri ctx)"
  by (auto simp: audit_record_def intro!: keeps_intros roles_add_row)

lemma keeps_andThen_with:
  assumes "keeps I m" and "\<And>s a t. I s \<Longrightarrow> m s = (Inr a, t) \<Longrightarrow> Q a" and "\<And>a. Q a \<Longrightarrow> keeps I (f a)"
  shows "keeps I (andThen m f)"
proof (rule keepsI)
  fix s r t
  assume I: "I s" and run: "andThen m f s = (r, t)"
  obtain q u where m: "m s = (q, u)" by (cases "m s")
  from assms(1) m I have "I u" by (rule keepsD)
  with run m I assms(2) show "I t"
    by (cases q) (auto simp: op_simps dest: keepsD [OF assms(3)])
qed

lemma roles_login: "keeps (\<lambda>v. roles_known us (view v)) (authenticate P email password)"
  unfolding authenticate_def
  apply (rule keeps_andThen_with [where Q = "\<lambda>found. \<forall>u. found = Some u \<longrightarrow> role_known us u"])
  subgoal by (rule keeps_intros)
  subgoal
    by (auto simp: get_by_email_def op_splits roles_known_def users_view dest!: scalar_one_or_none_Some filter_eq_ConsD)
  subgoal for found
    by (cases found) (auto simp: Let_def role_known_def intro!: keeps_intros roles_audit roles_put_user)
  done

interpretation roles: session_invariant P "\<lambda>v. roles_known us (view v)" for P us
proof unfold_locales
  show "keeps (\<lambda>v. roles_known us (view v)) (register P email password full_name MERCHANT)" for email password full_name
    by (auto simp: register_def Let_def intro!: keeps_intros roles_add_user roles_flush roles_audit)
qed (auto simp: same_session_view put_payment_def put_api_key_def roles_view_update
    intro!: roles_add_row roles_flush roles_login keeps_modify)

section \<open>Authorisation\<close>

fun scope_of :: "call \<Rightarrow> string option" where
  "scope_of (CreatePayment r) = Some SCOPE_PAYMENTS_WRITE"
| "scope_of (ListPayments status_filter limit offset) = Some SCOPE_PAYMENTS_READ"
| "scope_of (GetPayment i) = Some SCOPE_PAYMENTS_READ"
| "scope_of (CapturePayment i amount) = Some SCOPE_PAYMENTS_WRITE"
| "scope_of (CancelPayment i) = Some SCOPE_PAYMENTS_WRITE"
| "scope_of (CreateRefund i r) = Some SCOPE_REFUNDS_WRITE"
| "scope_of ListProviders = Some SCOPE_ADMIN"
| "scope_of GetPaymentStats = Some SCOPE_ADMIN"
| "scope_of _ = None"

lemma scoped_endpoint:
  assumes "scope_of c = Some sc" and "require_scope P app hs sc w = (Inl e, v)"
  shows "endpoint_of P app hs c w = (Inl e, v)"
  using assms
  by (cases c) (auto simp: api_create_payment_def api_list_payments_def api_get_payment_def api_capture_payment_def
      api_cancel_payment_def api_create_refund_def api_list_providers_def api_payment_stats_def op_simps)

text \<open>A user who passed: an active row of the session; only the API key's last use was noted.\<close>

lemma active_user_Inr:
  assumes "active_user i message w = (Inr user, v)"
  shows "v = w \<and> user \<in> set (users (objs w)) \<and> usr_is_active user"
proof -
  obtain u where u: "find (\<lambda>r. usr_id r = i) (users (objs w)) = Some u" "u = user" "usr_is_active u" "v = w"
    using assms by (auto simp: active_user_def get_by_id_def op_splits split: option.splits)
  then show ?thesis by (auto simp: find_Some_iff)
qed

lemma authenticate_api_key_Inr:
  assumes "authenticate_api_key P presented w = (Inr user, v)"
  obtains ks where "user \<in> set (users (objs w))" and "usr_is_active user" and "v = w\<lparr>objs := (objs w)\<lparr>api_keys := ks\<rparr>\<rparr>"
proof -
  obtain i u ks where act: "active_user i ''API key owner is inactive'' w = (Inr user, u)"
    and v: "v = u\<lparr>objs := (objs u)\<lparr>api_keys := ks\<rparr>\<rparr>"
    using assms by (auto simp: authenticate_api_key_def get_by_hash_def put_api_key_def op_splits split: option.splits)
  then show thesis using that active_user_Inr [OF act] by simp
qed

lemma get_current_user_Inr:
  assumes "get_current_user P app hs w = (Inr user, v)"
  obtains ks where "user \<in> set (users (objs w))" and "usr_is_active user" and "v = w\<lparr>objs := (objs w)\<lparr>api_keys := ks\<rparr>\<rparr>"
proof (cases "nonempty (map_of hs ''x-api-key'')")
  case True
  then have "authenticate_api_key P (header_get hs ''x-api-key'') w = (Inr user, v)"
    using assms by (simp add: get_current_user_def)
  then show thesis using that by (rule authenticate_api_key_Inr)
next
  case False
  then have "user \<in> set (users (objs w)) \<and> usr_is_active user \<and> v = w"
    using assms
    by (auto simp: get_current_user_def user_from_access_token_def op_splits
        split: prod.splits if_splits dest!: decode_reads active_user_Inr)
  then show thesis using that [of "api_keys (objs w)"] by simp
qed

lemma require_scope_Inr:
  assumes "require_scope P app hs sc w = (Inr user, v)"
  obtains ks where "user \<in> set (users (objs w))" and "usr_is_active user" and "v = w\<lparr>objs := (objs w)\<lparr>api_keys := ks\<rparr>\<rparr>"
    and "has_scope (scopes_for_role (usr_role user)) sc"
proof -
  from assms have "get_current_user P app hs w = (Inr user, v)" "has_scope (scopes_for_role (usr_role user)) sc"
    by (auto simp: require_scope_def op_splits)
  then show thesis using that by (auto elim: get_current_user_Inr)
qed

lemma refused_request:
  assumes "endpoint_of P app hs c (w\<lparr>objs := committed w, pending := []\<rparr>) = (Inl e, v)"
  shows "fst (run_call P app hs c w) = error_answer (correlation_id v) e"
    and "committed (snd (run_call P app hs c w)) = committed w" and "env (snd (run_call P app hs c w)) = env v"
proof -
  have run: "session_scope P (endpoint_of P app hs c) w = (Inl e, v\<lparr>objs := committed v, pending := []\<rparr>)"
    using assms by (simp add: unit_of_work)
  then show "fst (run_call P app hs c w) = error_answer (correlation_id v) e"
    "committed (snd (run_call P app hs c w)) = committed w" "env (snd (run_call P app hs c w)) = env v"
    using endpoint.failure_leaves_no_trace [OF run] by (simp_all add: run_call_def)
qed

section \<open>Examples\<close>

text \<open>An installation with one administrator or one viewer, who has the API key \<open>k\<close>.\<close>

definition demo_app :: App where
  "demo_app = \<lparr>app_settings = default_settings, app_gateway = sandbox_gateway\<rparr>"

definition demo_key :: ApiKey where
  "demo_key = \<lparr> key_id = 9, key_user_id = 7, key_name = ''demo'', key_hashed_key = hash_key ''k'', key_display_prefix = [],
     key_is_active = True, key_last_used_at = None, key_revoked_at = None, key_created_at = 0 \<rparr>"

definition role_world :: "UserRole \<Rightarrow> nat world" where
  "role_world role = (sandbox_world Map.empty)
     \<lparr>committed := empty_tables\<lparr>users := [demo_user\<lparr>usr_role := role\<rparr>], api_keys := [demo_key]\<rparr>\<rparr>"

definition bob :: RegisterRequest where
  "bob = \<lparr>reg_email = ''bob@example.com'', reg_password = ''0123456789'', reg_full_name = None\<rparr>"

lemma demo_registration:
  "\<exists>v. api_run sandbox demo_app (role_world role) v \<and> length (users (committed v)) = 2 \<and>
     demo_user\<lparr>usr_role := role\<rparr> \<in> set (users (committed v)) \<and> audit_logs (committed v) \<noteq> []"
proof -
  let ?t = "committed (role_world role)"
  let ?w = "(role_world role)\<lparr>objs := ?t, pending := []\<rparr>"
  have ok: "usr_id u \<noteq> 7 \<Longrightarrow> usr_email u \<noteq> ''merchant@example.com'' \<Longrightarrow>
      unique_ok (insert_row (UserRow u) ?t) \<and> unique_ok (insert_row (AuditLogRow a) (insert_row (UserRow u) ?t))" for u a
    by (simp add: unique_ok_def unique_by_def map_filter_Some empty_tables_def List.map_filter_simps role_world_def
        demo_user_def)
  define u where "u = new_user ''bob@example.com'' ''0123456789'' None MERCHANT 0 (db_now sandbox (Suc 0))"
  then have u: "usr_id u = 0" "usr_email u = ''bob@example.com''" by (simp_all add: new_user_def)
  have mail: "strip ''bob@example.com'' = ''bob@example.com''" "lower ''bob@example.com'' = ''bob@example.com''"
    "''bob@example.com'' \<noteq> ''merchant@example.com''" by code_simp+
  have w: "env ?w = 0" "users (objs ?w) = [demo_user\<lparr>usr_role := role\<rparr>]" "usr_email demo_user = ''merchant@example.com''"
    by (simp_all add: role_world_def sandbox_world_def demo_user_def)
  have acc: "unique_ok (?t\<lparr>users := users ?t @ [u]\<rparr>)" using ok [of u] u mail(3) by simp
  have "\<exists>a v. endpoint_of sandbox demo_app [] (Register bob) ?w = (Inr (201, user_response sandbox u), v) \<and>
      objs v = insert_row (UserRow u) ?t \<and> pending v = [AuditLogRow a]"
    using acc mail(3) w
    by (simp add: api_register_def register_def Let_def email_exists_def hash_password_def audit_record_def add_row_def
        flush_def op_simps sandbox_steps bob_def mail(1,2) flip: u_def)
  then obtain a v where run: "endpoint_of sandbox demo_app [] (Register bob) ?w = (Inr (201, user_response sandbox u), v)"
    and v: "objs v = insert_row (UserRow u) ?t" "pending v = [AuditLogRow a]" by blast
  have "unique_ok (insert_row (AuditLogRow a) (insert_row (UserRow u) ?t))"
    using ok [of u a] u mail(3) by simp
  then obtain x where call: "run_call sandbox demo_app [] (Register bob) (role_world role) = ((201, user_response sandbox u), x)"
    and x: "committed x = insert_row (AuditLogRow a) (insert_row (UserRow u) ?t)"
    using run v by (simp add: run_call_def unit_of_work sandbox_steps Let_def)
  from call have "api_step sandbox demo_app (role_world role) x"
    by (rule api_step.request [rotated]) (simp add: validate_register_def bob_def max_length_def)
  then have "api_run sandbox demo_app (role_world role) x" by (rule api_run.step [OF api_run.start])
  then show ?thesis using x by (auto simp: role_world_def)
qed

section \<open>Properties\<close>

text \<open>C11. No privilege escalation through the interface: after any sequence of requests, a user whose
  role is not the merchant's has had that role from the start.  Registration makes merchants, and
  nothing else touches a role.\<close>

theorem no_privilege_escalation:
  assumes "api_run P app w v" and "u \<in> set (users (committed v))" and "usr_role u \<noteq> MERCHANT"
  shows "\<exists>k \<in> set (users (committed w)). usr_id k = usr_id u \<and> usr_role k = usr_role u"
proof -
  have "roles_known (users (committed w)) (committed v)"
  proof (rule api_run_committed [OF assms(1), where J = "roles_known (users (committed w))"])
    show "roles_known (users (committed w)) (committed w)" by (auto simp: roles_known_def role_known_def)
  qed (auto intro: endpoint.keeps_view roles.keeps_endpoint)
  then show ?thesis using assms(2,3) by (auto simp: roles_known_def role_known_def)
qed

theorem no_privilege_escalation_witness:
  "\<exists>v. length (users (committed (v :: nat world))) = 2 \<and>
     (\<exists>k \<in> set (users (committed (role_world ADMIN))). usr_id k = 7 \<and> usr_role k = ADMIN)"
proof -
  obtain v where run: "api_run sandbox demo_app (role_world ADMIN) v" and v: "length (users (committed v)) = 2"
    "demo_user\<lparr>usr_role := ADMIN\<rparr> \<in> set (users (committed v))" using demo_registration by blast
  from no_privilege_escalation [OF run v(2)] v(1) show ?thesis by (auto simp: demo_user_def)
qed

text \<open>C12. Journals are append-only: whatever requests are served, the audit log, the refunds, the
  idempotency records and the webhook events of before are still there, in order and unchanged,
  in front of those added since.\<close>

theorem journals_append_only:
  assumes "api_run P app w v"
  shows "prefix (audit_logs (committed w)) (audit_logs (committed v)) \<and>
    prefix (refunds (committed w)) (refunds (committed v)) \<and>
    prefix (idempotency_keys (committed w)) (idempotency_keys (committed v)) \<and>
    prefix (webhook_events (committed w)) (webhook_events (committed v))"
  using api_run_grows [OF assms] by blast

theorem journals_append_only_witness:
  "\<exists>v. audit_logs (committed v) \<noteq> [] \<and> prefix (audit_logs (committed (role_world VIEWER))) (audit_logs (committed (v :: nat world)))"
proof -
  obtain v where run: "api_run sandbox demo_app (role_world VIEWER) v" and v: "audit_logs (committed v) \<noteq> []"
    using demo_registration by blast
  from journals_append_only [OF run] v show ?thesis by blast
qed

text \<open>C10. Scopes are enforced: an endpoint that demands a scope answers a caller without it with 403,
  and one without valid credentials with the authentication error, before anything else runs;
  the database is as before and no provider was called.\<close>

theorem unauthorised_request_refused:
  assumes "scope_of c = Some sc" and "get_current_user P app hs (w\<lparr>objs := committed w, pending := []\<rparr>) = (r, v)"
    and "case r of Inr user \<Rightarrow> \<not> has_scope (scopes_for_role (usr_role user)) sc | Inl e \<Rightarrow> True"
  shows "fst (run_call P app hs c w) = error_answer (correlation_id v)
      (case r of Inl e \<Rightarrow> e | Inr user \<Rightarrow> insufficient_scope sc) \<and>
    (case r of Inl e \<Rightarrow> True | Inr user \<Rightarrow> fst (fst (run_call P app hs c w)) = 403) \<and>
    committed (snd (run_call P app hs c w)) = committed w \<and> env (snd (run_call P app hs c w)) = env v"
proof -
  let ?w = "w\<lparr>objs := committed w, pending := []\<rparr>"
  let ?e = "case r of Inl e \<Rightarrow> e | Inr user \<Rightarrow> insufficient_scope sc"
  have "require_scope P app hs sc ?w = (Inl ?e, v)"
    using assms(2,3) by (auto simp: require_scope_def op_simps split: sum.splits)
  then have run: "endpoint_of P app hs c ?w = (Inl ?e, v)" using assms(1) by (rule scoped_endpoint [rotated])
  show ?thesis
    using refused_request [OF run]
    by (auto simp: insufficient_scope_def err_with_def DomainError_init_def error_answer_def split: sum.splits)
qed

theorem unauthorised_request_refused_witness:
  "fst (fst (run_call sandbox demo_app [(''x-api-key'', ''k'')] (CancelPayment 3) (role_world VIEWER))) = 403 \<and>
   committed (snd (run_call sandbox demo_app [(''x-api-key'', ''k'')] (CancelPayment 3) (role_world VIEWER))) =
     committed (role_world VIEWER)"
proof -
  let ?hs = "[(''x-api-key'', ''k'')]" and ?u = "demo_user\<lparr>usr_role := VIEWER\<rparr>"
  let ?w = "(role_world VIEWER)\<lparr>objs := committed (role_world VIEWER), pending := []\<rparr>"
  have "fst (get_current_user sandbox demo_app ?hs ?w) = Inr ?u"
    by (simp add: get_current_user_def nonempty_def header_get_def
        authenticate_api_key_eq [where r = demo_key] role_world_def demo_key_def hash_for_lookup_def demo_user_def)
  then obtain v where cur: "get_current_user sandbox demo_app ?hs ?w = (Inr ?u, v)" by (metis prod.collapse)
  have "case Inr ?u of Inr user \<Rightarrow> \<not> has_scope (scopes_for_role (usr_role user)) SCOPE_PAYMENTS_WRITE | Inl e \<Rightarrow> True"
    by (simp add: has_scope_def SCOPE_ADMIN_def SCOPE_PAYMENTS_READ_def SCOPE_PAYMENTS_WRITE_def)
  from unauthorised_request_refused [OF _ cur this, of "CancelPayment 3", THEN conjunct2] show ?thesis by simp
qed

end
