(* ===== verification/Replay.thy ===== *)
theory Replay
  imports Requests
begin

text \<open>
  Retried requests.  The two endpoints that take an \<open>Idempotency-Key\<close> share one shape (locale
  \<open>idempotent_endpoint\<close>): a request that succeeded leaves a record of its answer, the records only
  grow, and a repetition is answered from the record.  Redelivered webhooks are recognised in the
  same way by their event identifier.
\<close>

section \<open>Endpoints that take an idempotency key\<close>

locale idempotent_endpoint =
  fixes P :: "'e platform" and app :: App and endpoint :: "headers \<Rightarrow> 'e endpoint"
    and scope name :: string and body :: json and action :: "headers \<Rightarrow> User \<Rightarrow> ('e world, exc, json) op"
  assumes shape: "endpoint hs =
      andThen (require_scope P app hs scope) (\<lambda>user.
      andThen (with_idempotency P (usr_id user) name (map_of hs ''idempotency-key'') body (action hs user)) (\<lambda>r.
      return (stored r)))"
begin

lemma ran:
  assumes "require_scope P app hs scope w = (Inr user, u)" and "map_of hs ''idempotency-key'' = Some key"
  shows "endpoint hs w =
    (case with_idempotency P (usr_id user) name (Some key) body (action hs user) u of
       (Inr r, v) \<Rightarrow> (Inr (stored r), v) | (Inl e, v) \<Rightarrow> (Inl e, v))"
  using assms by (simp add: shape op_simps split: prod.splits sum.splits)

lemma answer_recorded:
  assumes "require_scope P app hs scope w = (Inr user, u)" and "map_of hs ''idempotency-key'' = Some key" and "key \<noteq> []"
    and "endpoint hs w = (Inr resp, v)"
  shows "\<exists>r \<in> set (idempotency_keys (view v)). answers r (usr_id user) name key body \<and>
    resp = (idk_response_status r, idk_response_body r)"
proof -
  obtain s where run: "with_idempotency P (usr_id user) name (Some key) body (action hs user) u = (Inr s, v)"
    and resp: "resp = stored s"
    using assms(4) by (auto simp: ran [OF assms(1,2)] split: prod.splits sum.splits)
  from run assms(3) show ?thesis
  proof (cases rule: with_idempotency_cases)
    case (replay r)
    then show ?thesis using resp by (auto simp: stored_def idempotency_log.view_table intro!: bexI [of _ r])
  next
    case first
    then obtain x :: "'e world" and i where "sr_status s = 201" "pending v = []"
      "objs v = insert_row (IdempotencyKeyRow (new_record (usr_id user) name key body 201 (sr_body s) i)) (view x)"
      using run assms(3) by (auto elim!: first_run)
    then show ?thesis
      using resp by (auto simp: view_def answers_def stored_def new_record_def)
  qed
qed

lemma action_ran:
  assumes "require_scope P app hs scope w = (Inr user, u)" and "map_of hs ''idempotency-key'' = Some key" and "key \<noteq> []"
    and "endpoint hs w = (Inr resp, v)"
    and "\<forall>r \<in> set (idempotency_keys (objs w)). \<not> (idk_owner_id r = usr_id user \<and> idk_endpoint r = name \<and> idk_key r = key)"
  shows "\<exists>b x. action hs user u = (Inr b, x)"
proof -
  obtain s where run: "with_idempotency P (usr_id user) name (Some key) body (action hs user) u = (Inr s, v)"
    using assms(4) by (auto simp: ran [OF assms(1,2)] split: prod.splits sum.splits)
  have "idempotency_keys (objs u) = idempotency_keys (objs w)" using assms(1) by (auto elim: require_scope_Inr)
  then show ?thesis using run assms(3,5) by (auto elim!: first_run)
qed

lemma records_seen:
  "require_scope P app hs scope w = (Inr user, u) \<Longrightarrow> idempotency_keys (objs u) = idempotency_keys (objs w)"
  by (auto elim: require_scope_Inr)

lemma repetition_answered:
  assumes "require_scope P app hs scope w = (Inr user, u)" and "map_of hs ''idempotency-key'' = Some key" and "key \<noteq> []"
    and "r \<in> set (idempotency_keys (objs w))" and "unique_records (objs w)" and "answers r (usr_id user) name key body"
  shows "endpoint hs w = (Inr (idk_response_status r, idk_response_body r), u)"
  using replayed [of r u "usr_id user" name key body P "action hs user"] records_seen [OF assms(1)] assms(3-6)
  by (simp add: ran [OF assms(1,2)] stored_def unique_records_def)

lemma reuse_refused:
  assumes "require_scope P app hs scope w = (Inr user, u)" and "map_of hs ''idempotency-key'' = Some key" and "key \<noteq> []"
    and "r \<in> set (idempotency_keys (objs w))" and "unique_records (objs w)"
    and "answers r (usr_id user) name key other" and "hash_body other \<noteq> hash_body body"
  shows "endpoint hs w = (Inl (key_conflict key), u)"
proof -
  have "filter (\<lambda>k. idk_owner_id k = usr_id user \<and> idk_endpoint k = name \<and> idk_key k = key) (idempotency_keys (objs u)) = [r]"
    using record_found [OF assms(4-6)] records_seen [OF assms(1)] by simp
  moreover have "idk_request_hash r \<noteq> hash_body body" using assms(6,7) by (simp add: answers_def)
  ultimately show ?thesis
    using assms(3)
    by (simp add: ran [OF assms(1,2)] with_idempotency_def op_simps lookup_eq scalar_one_or_none_def)
qed

end

interpretation charge_endpoint: idempotent_endpoint P app "\<lambda>hs. api_create_payment P app hs payload"
    SCOPE_PAYMENTS_WRITE CREATE_ENDPOINT "dump_create payload"
    "\<lambda>hs user. charge_action P app user payload (map_of hs ''idempotency-key'')" for P app payload
  by unfold_locales (simp add: api_create_payment_def Let_def)

interpretation refund_endpoint: idempotent_endpoint P app "\<lambda>hs. api_create_refund P app hs i request"
    SCOPE_REFUNDS_WRITE REFUND_ENDPOINT "dump_refund i request" "\<lambda>hs user. refund_action P app user i request"
    for P app i request
  by unfold_locales (simp add: api_create_refund_def)

section \<open>Over runs\<close>

fun takes_key :: "call \<Rightarrow> bool" where
  "takes_key (CreatePayment r) = True"
| "takes_key (CreateRefund i r) = True"
| "takes_key _ = False"

fun body_of :: "call \<Rightarrow> json" where
  "body_of (CreatePayment r) = dump_create r"
| "body_of (CreateRefund i r) = dump_refund i r"
| "body_of _ = JNull"

fun endpoint_name :: "call \<Rightarrow> string" where
  "endpoint_name (CreatePayment r) = CREATE_ENDPOINT"
| "endpoint_name (CreateRefund i r) = REFUND_ENDPOINT"
| "endpoint_name _ = []"

lemma unique_ok_records: "unique_ok t \<Longrightarrow> unique_records t"
proof -
  have "List.map_filter (\<lambda>k. Some (f k)) xs = map f xs" for f :: "IdempotencyKey \<Rightarrow> uuid \<times> string \<times> string" and xs
    using map_filter_Some [of f xs] by (simp add: comp_def)
  then show "unique_ok t \<Longrightarrow> unique_records t" by (simp add: unique_ok_def unique_by_def unique_records_def)
qed

text \<open>The record of an answered request is still there, unique, after any run.\<close>

lemma record_survives:
  assumes "takes_key c" and "scope_of c = Some sc" and "session_scope P (endpoint_of P app hs c) w = (Inr resp, v)"
    and "map_of hs ''idempotency-key'' = Some key" and "key \<noteq> []"
    and "require_scope P app hs sc (w\<lparr>objs := committed w, pending := []\<rparr>) = (Inr user, u)"
    and "enforces_unique P" and "api_run P app v x"
  obtains r where "r \<in> set (idempotency_keys (committed x))" and "unique_records (committed x)"
    and "answers r (usr_id user) (endpoint_name c) key (body_of c)" and "resp = (idk_response_status r, idk_response_body r)"
proof -
  obtain y where run: "endpoint_of P app hs c (w\<lparr>objs := committed w, pending := []\<rparr>) = (Inr resp, y)"
    and v: "committed v = view y" and acc: "db_accepts P (view y)" using assms(3) by (rule session_scope_Inr)
  have "\<exists>r \<in> set (idempotency_keys (view y)). answers r (usr_id user) (endpoint_name c) key (body_of c) \<and>
      resp = (idk_response_status r, idk_response_body r)"
    using assms(1,2,4-6) run
    by (cases c) (auto intro: charge_endpoint.answer_recorded refund_endpoint.answer_recorded)
  moreover have "set (idempotency_keys (view y)) \<subseteq> set (idempotency_keys (committed x))"
    using api_run_grows(2) [OF assms(8)] v by (auto dest: set_mono_prefix)
  moreover have "unique_ok (committed v)" using acc v assms(7) by (simp add: enforces_unique_def)
  then have "unique_records (committed x)"
    using api_run_accepted [OF assms(8) _ assms(7)] unique_ok_records by blast
  ultimately show thesis using that by blast
qed

lemma only_key_use:
  assumes "require_scope P app hs sc (x\<lparr>objs := committed x, pending := []\<rparr>) = (Inr user, y)"
  shows "\<exists>ks. y = x\<lparr>objs := (committed x)\<lparr>api_keys := ks\<rparr>, pending := []\<rparr>"
proof -
  obtain ks where "y = x\<lparr>objs := committed x, pending := []\<rparr>
      \<lparr>objs := (objs (x\<lparr>objs := committed x, pending := []\<rparr>))\<lparr>api_keys := ks\<rparr>\<rparr>"
    using assms by (rule require_scope_Inr)
  then show ?thesis by (intro exI [of _ ks]) simp
qed

section \<open>Webhook deliveries\<close>

lemma unique_ok_events:
  assumes "unique_ok t" and "e \<in> set (webhook_events t)"
  shows "filter (\<lambda>x. evt_provider x = evt_provider e \<and> evt_event_id x = evt_event_id e) (webhook_events t) = [e]"
proof -
  let ?f = "\<lambda>e. (evt_provider e, evt_event_id e)"
  have "List.map_filter (\<lambda>e. Some (?f e)) (webhook_events t) = map ?f (webhook_events t)"
    using map_filter_Some [of ?f "webhook_events t"] by (simp add: comp_def)
  then have "distinct (map ?f (webhook_events t))" using assms(1) by (simp add: unique_ok_def unique_by_def)
  from distinct_filter_one [OF this assms(2)] show ?thesis by simp
qed

section \<open>Examples\<close>

text \<open>A merchant's first payment, sent with an idempotency key.\<close>

definition demo_payload :: CreatePaymentRequest where
  "demo_payload = \<lparr> cpr_currency = ''USD'', cpr_provider = MOCK, cpr_amount_minor = 1000,
     cpr_capture_method = AUTOMATIC, cpr_method_type = PaymentMethodType.CARD, cpr_payment_method_token = None,
     cpr_description = None, cpr_customer_reference = None, cpr_metadata = [] \<rparr>"

definition keyed :: headers where
  "keyed = [(''x-api-key'', ''k''), (''idempotency-key'', ''r1'')]"

lemma demo_scope:
  assumes "users (objs w) = [demo_user]" and "api_keys (objs w) = [demo_key\<lparr>key_last_used_at := t\<rparr>]"
  shows "require_scope sandbox demo_app keyed SCOPE_PAYMENTS_WRITE w =
    (Inr demo_user, w\<lparr>objs := (objs w)\<lparr>api_keys := [demo_key\<lparr>key_last_used_at := Some (time_time sandbox (env w))\<rparr>]\<rparr>\<rparr>)"
proof -
  have "has_scope (scopes_for_role MERCHANT) SCOPE_PAYMENTS_WRITE"
    by (simp add: has_scope_def)
  then show ?thesis
    using assms
    by (simp add: require_scope_def get_current_user_def nonempty_def header_get_def keyed_def
        authenticate_api_key_def get_by_hash_def select_one_eq scalar_one_or_none_def active_user_def get_by_id_def
        op_simps put_api_key_def replace_by_def demo_key_def demo_user_def hash_for_lookup_def)
qed

lemma demo_charge_at:
  fixes n :: nat
  defines "w \<equiv> (role_world MERCHANT)\<lparr>env := n\<rparr>"
  shows "\<exists>resp v a p r. endpoint_of sandbox demo_app keyed (CreatePayment demo_payload) (w\<lparr>objs := committed w, pending := []\<rparr>) = (Inr resp, v) \<and>
    pay_id p = of_nat n \<and> pay_status p = CAPTURED \<and> pay_amount_captured p = 1000 \<and> db_accepts sandbox (view v) \<and>
    view v = (committed w)\<lparr>api_keys := [demo_key\<lparr>key_last_used_at := Some (time_time sandbox n)\<rparr>],
      payments := [p], audit_logs := [a], idempotency_keys := [r]\<rparr>"
proof -
  let ?w = "w\<lparr>objs := committed w, pending := []\<rparr>"
  let ?k = "demo_key\<lparr>key_last_used_at := Some (time_time sandbox n)\<rparr>"
  let ?u = "?w\<lparr>objs := (objs ?w)\<lparr>api_keys := [?k]\<rparr>\<rparr>"
  have up: "upper ''USD'' = ''USD''" by code_simp
  have usd: "is_supported_currency ''USD''" by (simp add: is_supported_currency_def CURRENCY_EXPONENTS_def up)
  have w: "users (objs ?w) = [demo_user]" "api_keys (objs ?w) = [demo_key]" "env ?w = n" "payments (objs ?w) = []"
    "idempotency_keys (objs ?w) = []" "provider_configs (objs ?w) = []" "breakers ?w = Map.empty"
    by (simp_all add: w_def role_world_def sandbox_world_def demo_user_def empty_tables_def)
  have auth: "require_scope sandbox demo_app keyed SCOPE_PAYMENTS_WRITE ?w = (Inr demo_user, ?u)"
    using demo_scope [of ?w None] w by (simp add: demo_key_def)
  have m: "Money 1000 ''USD'' = Inr demo_amount"
    by (simp add: Money_def Money_init_def usd up demo_amount_def)
  have ok: "db_accepts sandbox ((committed w)\<lparr>api_keys := [k], payments := [p]\<rparr>)"
    "db_accepts sandbox ((committed w)\<lparr>api_keys := [k], payments := [p], audit_logs := [a], idempotency_keys := [r]\<rparr>)" for k p a r
    by (cases "pay_provider_reference p"; simp add: sandbox_steps w_def role_world_def empty_tables_def unique_ok_def
        unique_by_def List.map_filter_simps)+
  have shut: "cb_state (get_breaker sandbox_gateway MOCK ?u) \<noteq> OPEN"
    using w(7) by (simp add: get_breaker_def configured_breaker_def new_breaker_def)
  obtain p u where run: "create_payment sandbox sandbox_gateway demo_user MOCK demo_amount AUTOMATIC PaymentMethodType.CARD
      None None None [] (Some ''r1'') ?u = (Inr p, u)"
    and pid: "pay_id p = of_nat n" and p: "pay_amount p = 1000" "pay_currency p = ''USD''" "pay_status p = CAPTURED" "pay_amount_captured p = 1000"
      "pay_amount_refunded p = 0"
    using mock_create_runs [OF sandbox_facts(1,2) _ shut, where i = "of_nat n" and e = "Suc n" and owner = demo_user and P = sandbox
        and cm = AUTOMATIC and mt = PaymentMethodType.CARD and token = None and descr = None and cust = None
        and metadata = "[]" and key = "Some ''r1''" and fails = False] w ok(1)
    by (auto simp: sandbox_steps demo_amount_def)
  obtain a where a: "pending u = [AuditLogRow a]" using run by (rule create_payment_Inr) simp_all
  have u: "objs u = (committed w)\<lparr>api_keys := [?k], payments := [p]\<rparr>"
    using created_row [OF run _ sandbox_assumptions(1)] w(4) by simp
  obtain j where j: "payment_to_response sandbox p = Inr j"
    using payment_to_response_returns [of p sandbox] p usd up by auto
  have act: "charge_action sandbox demo_app demo_user demo_payload (Some ''r1'') ?u = (Inr j, u)"
    using run j by (simp add: charge_action_def demo_payload_def m op_simps demo_app_def)
  define r where "r = new_record (usr_id demo_user) CREATE_ENDPOINT ''r1'' (dump_create demo_payload) 201 j (of_nat (env u))"
  have st: "store sandbox (usr_id demo_user) CREATE_ENDPOINT ''r1'' (dump_create demo_payload) 201 j u =
      (Inr (), u\<lparr>env := Suc (env u), objs := (committed w)\<lparr>api_keys := [?k], payments := [p], audit_logs := [a],
         idempotency_keys := [r]\<rparr>, pending := []\<rparr>)" (is "_ = (_, ?v)")
    using a u ok(2) [where k = ?k and p = p and a = a and r = r] w(5)
    by (simp add: store_def op_simps add_row_def flush_def Let_def sandbox_steps(1) flip: r_def)
       (simp add: w_def role_world_def empty_tables_def)
  have "endpoint_of sandbox demo_app keyed (CreatePayment demo_payload) ?w = (Inr (201, j), ?v)"
    using charge_endpoint.ran [OF auth, of "''r1''" demo_payload] act st w(5)
    by (simp add: keyed_def with_idempotency_def lookup_eq scalar_one_or_none_def op_simps stored_def)
  then show ?thesis
    using ok(2) [where k = ?k and p = p and a = a and r = r] p(3,4) pid by (simp add: view_def) blast
qed

lemma demo_charge:
  defines "w \<equiv> role_world MERCHANT"
  shows "\<exists>resp v a p r. session_scope sandbox (endpoint_of sandbox demo_app keyed (CreatePayment demo_payload)) w = (Inr resp, v) \<and>
    pay_status p = CAPTURED \<and> pay_amount_captured p = 1000 \<and>
    committed v = (committed w)\<lparr>api_keys := [demo_key\<lparr>key_last_used_at := Some (time_time sandbox 0)\<rparr>],
      payments := [p], audit_logs := [a], idempotency_keys := [r]\<rparr>"
proof -
  have same: "(role_world MERCHANT)\<lparr>env := 0\<rparr> = role_world MERCHANT" by (simp add: role_world_def sandbox_world_def)
  obtain resp v a p r where "endpoint_of sandbox demo_app keyed (CreatePayment demo_payload) (w\<lparr>objs := committed w, pending := []\<rparr>) = (Inr resp, v)"
    "pay_status p = CAPTURED" "pay_amount_captured p = 1000" "db_accepts sandbox (view v)"
    "view v = (committed w)\<lparr>api_keys := [demo_key\<lparr>key_last_used_at := Some (time_time sandbox 0)\<rparr>],
      payments := [p], audit_logs := [a], idempotency_keys := [r]\<rparr>"
    using demo_charge_at [of 0] unfolding same w_def by auto
  then show ?thesis by (simp add: unit_of_work Let_def view_def) blast
qed

lemma demo_keyed_charge:
  obtains resp v u y where "session_scope sandbox (endpoint_of sandbox demo_app keyed (CreatePayment demo_payload))
      (role_world MERCHANT) = (Inr resp, v)" and "length (payments (committed v)) = 1"
    and "require_scope sandbox demo_app keyed SCOPE_PAYMENTS_WRITE
      ((role_world MERCHANT)\<lparr>objs := committed (role_world MERCHANT), pending := []\<rparr>) = (Inr demo_user, u)"
    and "require_scope sandbox demo_app keyed SCOPE_PAYMENTS_WRITE (v\<lparr>objs := committed v, pending := []\<rparr>) = (Inr demo_user, y)"
proof -
  obtain resp v a p r where run: "session_scope sandbox (endpoint_of sandbox demo_app keyed (CreatePayment demo_payload))
      (role_world MERCHANT) = (Inr resp, v)"
    and v: "committed v = (committed (role_world MERCHANT))\<lparr>api_keys := [demo_key\<lparr>key_last_used_at := Some (time_time sandbox 0)\<rparr>],
      payments := [p], audit_logs := [a], idempotency_keys := [r]\<rparr>"
    using demo_charge by blast
  have w: "users (committed (role_world MERCHANT)) = [demo_user]" "api_keys (committed (role_world MERCHANT)) = [demo_key]"
    "demo_key = demo_key\<lparr>key_last_used_at := None\<rparr>"
    by (simp_all add: role_world_def demo_user_def demo_key_def)
  show thesis
    by (rule that [OF run _ demo_scope [where t = None] demo_scope]) (use v w in simp_all)
qed

section \<open>Properties\<close>

text \<open>C6. A retried payment or refund request is answered, not executed.  Once a request with an
  idempotency key has succeeded, then after any number of other requests from anyone the same
  user's request with the same key and the same body gets the very same status and body.  After
  authentication nothing happens: no provider is called, no payment, refund or audit row changes.\<close>

theorem idempotent_replay:
  assumes "takes_key c" and "scope_of c = Some sc" and "session_scope P (endpoint_of P app hs c) w = (Inr resp, v)"
    and "map_of hs ''idempotency-key'' = Some key" and "key \<noteq> []"
    and "require_scope P app hs sc (w\<lparr>objs := committed w, pending := []\<rparr>) = (Inr user, u)"
    and "enforces_unique P" and "api_run P app v x"
    and "map_of hs' ''idempotency-key'' = Some key"
    and "require_scope P app hs' sc (x\<lparr>objs := committed x, pending := []\<rparr>) = (Inr user', y)"
    and "usr_id user' = usr_id user"
  shows "endpoint_of P app hs' c (x\<lparr>objs := committed x, pending := []\<rparr>) = (Inr resp, y) \<and>
    (\<exists>ks. y = x\<lparr>objs := (committed x)\<lparr>api_keys := ks\<rparr>, pending := []\<rparr>)"
proof -
  let ?x = "x\<lparr>objs := committed x, pending := []\<rparr>"
  obtain r where r: "r \<in> set (idempotency_keys (committed x))" "unique_records (committed x)"
    "answers r (usr_id user) (endpoint_name c) key (body_of c)" "resp = (idk_response_status r, idk_response_body r)"
    using assms(1-8) by (rule record_survives)
  have "endpoint_of P app hs' c ?x = (Inr resp, y)"
    using assms(1,2,5,9-11) r
    by (cases c) (auto intro!: charge_endpoint.repetition_answered refund_endpoint.repetition_answered)
  moreover have "\<exists>ks. y = x\<lparr>objs := (committed x)\<lparr>api_keys := ks\<rparr>, pending := []\<rparr>"
    using assms(10) by (rule only_key_use)
  ultimately show ?thesis by blast
qed

theorem idempotent_replay_witness:
  "\<exists>resp v y. session_scope sandbox (endpoint_of sandbox demo_app keyed (CreatePayment demo_payload)) (role_world MERCHANT) =
       (Inr resp, v) \<and> length (payments (committed v)) = 1 \<and>
     endpoint_of sandbox demo_app keyed (CreatePayment demo_payload) (v\<lparr>objs := committed v, pending := []\<rparr>) = (Inr resp, y) \<and>
     payments (objs y) = payments (committed v)"
proof -
  obtain resp v u y where run: "session_scope sandbox (endpoint_of sandbox demo_app keyed (CreatePayment demo_payload))
      (role_world MERCHANT) = (Inr resp, v)" and one: "length (payments (committed v)) = 1"
    and auth: "require_scope sandbox demo_app keyed SCOPE_PAYMENTS_WRITE
      ((role_world MERCHANT)\<lparr>objs := committed (role_world MERCHANT), pending := []\<rparr>) = (Inr demo_user, u)"
      "require_scope sandbox demo_app keyed SCOPE_PAYMENTS_WRITE (v\<lparr>objs := committed v, pending := []\<rparr>) = (Inr demo_user, y)"
    by (rule demo_keyed_charge)
  from idempotent_replay [OF _ _ run _ _ auth(1) sandbox_assumptions(1) api_run.start _ auth(2)] run one show ?thesis
    by (auto simp: keyed_def)
qed

text \<open>C7. What a key stands for is settled once.  Any later request of the same user to the same endpoint
  with that key is decided by the digest of its canonical body alone: the same digest gets the
  recorded answer, another is refused with \<open>IdempotencyConflictError\<close> (status 409); in both cases
  before anything is executed.\<close>

theorem idempotency_key_settled:
  assumes "takes_key c" and "scope_of c = Some sc" and "session_scope P (endpoint_of P app hs c) w = (Inr resp, v)"
    and "map_of hs ''idempotency-key'' = Some key" and "key \<noteq> []"
    and "require_scope P app hs sc (w\<lparr>objs := committed w, pending := []\<rparr>) = (Inr user, u)"
    and "enforces_unique P" and "api_run P app v x"
    and "map_of hs' ''idempotency-key'' = Some key"
    and "require_scope P app hs' sc (x\<lparr>objs := committed x, pending := []\<rparr>) = (Inr user', y)"
    and "usr_id user' = usr_id user" and "takes_key d" and "endpoint_name d = endpoint_name c"
  shows "endpoint_of P app hs' d (x\<lparr>objs := committed x, pending := []\<rparr>) =
      ((if hash_body (body_of d) = hash_body (body_of c) then Inr resp else Inl (key_conflict key)), y) \<and>
    fst (handle_exception cid (key_conflict key)) = 409 \<and>
    (\<exists>ks. y = x\<lparr>objs := (committed x)\<lparr>api_keys := ks\<rparr>, pending := []\<rparr>)"
proof -
  let ?x = "x\<lparr>objs := committed x, pending := []\<rparr>"
  obtain r where r: "r \<in> set (idempotency_keys (committed x))" "unique_records (committed x)"
    "answers r (usr_id user) (endpoint_name c) key (body_of c)" "resp = (idk_response_status r, idk_response_body r)"
    using assms(1-8) by (rule record_survives)
  have names: "CREATE_ENDPOINT \<noteq> REFUND_ENDPOINT" by (simp add: CREATE_ENDPOINT_def REFUND_ENDPOINT_def)
  have "endpoint_of P app hs' d ?x = (Inl (key_conflict key), y)" if "hash_body (body_of d) \<noteq> hash_body (body_of c)"
    using assms(1,2,5,9-13) r that names
    by (cases c; cases d) (auto intro!: charge_endpoint.reuse_refused refund_endpoint.reuse_refused)
  moreover have "endpoint_of P app hs' d ?x = (Inr resp, y)" if "hash_body (body_of d) = hash_body (body_of c)"
    using assms(1,2,5,9-13) r that names
    by (cases c; cases d)
      (auto simp: answers_def intro!: charge_endpoint.repetition_answered refund_endpoint.repetition_answered)
  moreover have "\<exists>ks. y = x\<lparr>objs := (committed x)\<lparr>api_keys := ks\<rparr>, pending := []\<rparr>"
    using assms(10) by (rule only_key_use)
  ultimately show ?thesis by (auto simp: key_conflict_def err_with_def DomainError_init_def)
qed

theorem idempotency_key_settled_witness:
  "\<exists>v resp. fst (endpoint_of sandbox demo_app keyed (CreatePayment (demo_payload\<lparr>cpr_amount_minor := 2000\<rparr>))
       (v\<lparr>objs := committed v, pending := []\<rparr>)) =
       (if hash_body (dump_create (demo_payload\<lparr>cpr_amount_minor := 2000\<rparr>)) = hash_body (dump_create demo_payload)
        then Inr resp else Inl (key_conflict ''r1'')) \<and> length (payments (committed (v :: nat world))) = 1"
proof -
  obtain resp v u y where run: "session_scope sandbox (endpoint_of sandbox demo_app keyed (CreatePayment demo_payload))
      (role_world MERCHANT) = (Inr resp, v)" and one: "length (payments (committed v)) = 1"
    and auth: "require_scope sandbox demo_app keyed SCOPE_PAYMENTS_WRITE
      ((role_world MERCHANT)\<lparr>objs := committed (role_world MERCHANT), pending := []\<rparr>) = (Inr demo_user, u)"
      "require_scope sandbox demo_app keyed SCOPE_PAYMENTS_WRITE (v\<lparr>objs := committed v, pending := []\<rparr>) = (Inr demo_user, y)"
    by (rule demo_keyed_charge)
  have "endpoint_of sandbox demo_app keyed (CreatePayment (demo_payload\<lparr>cpr_amount_minor := 2000\<rparr>))
      (v\<lparr>objs := committed v, pending := []\<rparr>) =
    ((if hash_body (dump_create (demo_payload\<lparr>cpr_amount_minor := 2000\<rparr>)) = hash_body (dump_create demo_payload)
      then Inr resp else Inl (key_conflict ''r1'')), y)"
    using idempotency_key_settled [OF _ _ run _ _ auth(1) sandbox_assumptions(1) api_run.start _ auth(2), where key = "''r1''"
        and d = "CreatePayment (demo_payload\<lparr>cpr_amount_minor := 2000\<rparr>)", THEN conjunct1] by (simp add: keyed_def)
  then show ?thesis using one by (intro exI [of _ v] exI [of _ resp] conjI) (simp_all only: fst_conv)
qed

end
