(* ===== verification/Concurrency.thy ===== *)
theory Concurrency
  imports Replay
begin

text \<open>
  Requests at once.  The services read rows, decide, and write back the values they computed;
  nothing locks a row between the two.  Here is what the database holds after transactions that
  all read before the first of them wrote, at the isolation level the program runs with (read
  committed): each writes the columns it changed over what the others have committed by then.
\<close>

section \<open>Committing over another transaction\<close>

text \<open>\<open>UPDATE\<close> sets the columns whose value the session changed; the others keep what is there.\<close>

definition merged :: "'a \<Rightarrow> 'a \<Rightarrow> 'a \<Rightarrow> 'a" where
  "merged read written there = (if written = read then there else written)"

definition merged_payment :: "Payment \<Rightarrow> Payment \<Rightarrow> Payment \<Rightarrow> Payment" where
  "merged_payment read written there = there
     \<lparr> pay_provider_reference := merged (pay_provider_reference read) (pay_provider_reference written) (pay_provider_reference there),
       pay_status := merged (pay_status read) (pay_status written) (pay_status there),
       pay_amount_captured := merged (pay_amount_captured read) (pay_amount_captured written) (pay_amount_captured there),
       pay_amount_refunded := merged (pay_amount_refunded read) (pay_amount_refunded written) (pay_amount_refunded there),
       pay_failure_reason := merged (pay_failure_reason read) (pay_failure_reason written) (pay_failure_reason there) \<rparr>"

definition merged_user :: "User \<Rightarrow> User \<Rightarrow> User \<Rightarrow> User" where
  "merged_user read written there = there
     \<lparr> usr_hashed_password := merged (usr_hashed_password read) (usr_hashed_password written) (usr_hashed_password there),
       usr_failed_login_attempts :=
         merged (usr_failed_login_attempts read) (usr_failed_login_attempts written) (usr_failed_login_attempts there) \<rparr>"

definition merged_key :: "ApiKey \<Rightarrow> ApiKey \<Rightarrow> ApiKey \<Rightarrow> ApiKey" where
  "merged_key read written there = there
     \<lparr> key_is_active := merged (key_is_active read) (key_is_active written) (key_is_active there),
       key_last_used_at := merged (key_last_used_at read) (key_last_used_at written) (key_last_used_at there),
       key_revoked_at := merged (key_revoked_at read) (key_revoked_at written) (key_revoked_at there) \<rparr>"

definition row_by :: "('r \<Rightarrow> 'k) \<Rightarrow> 'k \<Rightarrow> 'r list \<Rightarrow> 'r option" where
  "row_by key k rs = find (\<lambda>r. key r = k) rs"

definition write_rows :: "('r \<Rightarrow> uuid) \<Rightarrow> ('r \<Rightarrow> 'r \<Rightarrow> 'r \<Rightarrow> 'r) \<Rightarrow> 'r list \<Rightarrow> 'r list \<Rightarrow> 'r list \<Rightarrow> 'r list" where
  "write_rows key merge read written there =
     map (\<lambda>p. case (row_by key (key p) read, row_by key (key p) written) of
                (Some r, Some q) \<Rightarrow> merge r q p | _ \<Rightarrow> p) there @
     filter (\<lambda>q. key q \<notin> key ` set read) written"

text \<open>Users, keys and payments are updated; rows of the other tables are only inserted.  \<open>read\<close> is the snapshot
  the transaction started from, \<open>written\<close> its rows when it commits, \<open>there\<close> what is committed by then.\<close>

definition write_over :: "tables \<Rightarrow> tables \<Rightarrow> tables \<Rightarrow> tables" where
  "write_over read written there = there
     \<lparr> users := write_rows usr_id merged_user (users read) (users written) (users there),
       api_keys := write_rows key_id merged_key (api_keys read) (api_keys written) (api_keys there),
       payments := write_rows pay_id merged_payment (payments read) (payments written) (payments there),
       refunds := refunds there @ drop (length (refunds read)) (refunds written),
       idempotency_keys := idempotency_keys there @ drop (length (idempotency_keys read)) (idempotency_keys written),
       webhook_events := webhook_events there @ drop (length (webhook_events read)) (webhook_events written),
       audit_logs := audit_logs there @ drop (length (audit_logs read)) (audit_logs written) \<rparr>"

section \<open>Two refunds\<close>

lemma refund_view:
  assumes "create_refund P gm owner i minor reason w = (Inr r, v)" and "pending w = []"
  obtains q p a where "q \<in> set (payments (objs w))" and "pay_id q = i" and "pay_id p = i" and "0 < rfd_amount r"
    and "rfd_payment_id r = i" and "pay_amount_refunded p = pay_amount_refunded q + rfd_amount r"
    and "view v = (objs w)\<lparr>payments := replace_by pay_id p (payments (objs w)), refunds := refunds (objs w) @ [r],
                           audit_logs := audit_logs (objs w) @ [a]\<rparr>" and "pending v = [AuditLogRow a]"
  using assms
proof (rule create_refund_Inr)
  fix q p a
  assume "q \<in> set (payments (objs w))" "pay_id q = i" "0 < rfd_amount r" "rfd_payment_id r = i"
    and p: "p = q\<lparr>pay_amount_refunded := pay_amount_refunded q + rfd_amount r,
               pay_status := (if pay_amount_refunded q + rfd_amount r \<ge> pay_amount_captured q then REFUNDED
                              else PARTIALLY_REFUNDED)\<rparr>"
    and "objs v = (objs w)\<lparr>payments := replace_by pay_id p (payments (objs w)), refunds := refunds (objs w) @ [r]\<rparr>"
    and "pending v = [AuditLogRow a]"
  then show thesis by (intro that [of q p a]) (simp_all add: view_def)
qed

lemma refund_row:
  assumes "create_refund P gm owner i minor reason w = (Inr r, v)" and "pending w = []" and "pending v = [AuditLogRow a]"
  obtains p where "pay_id p = i" and "view v = (objs w)\<lparr>payments := replace_by pay_id p (payments (objs w)),
    refunds := refunds (objs w) @ [r], audit_logs := audit_logs (objs w) @ [a]\<rparr>"
proof (rule refund_view [OF assms(1,2)])
  fix q p b
  assume "pay_id p = i" and "pending v = [AuditLogRow b]"
    and "view v = (objs w)\<lparr>payments := replace_by pay_id p (payments (objs w)), refunds := refunds (objs w) @ [r],
      audit_logs := audit_logs (objs w) @ [b]\<rparr>"
  then show thesis using assms(3) that [of p] by simp
qed

lemma find_by_key: "distinct (map key xs) \<Longrightarrow> x \<in> set xs \<Longrightarrow> find (\<lambda>y. key y = key x) xs = Some x"
  by (induction xs) (auto simp: image_iff)

lemma find_replaced: "key p \<in> key ` set xs \<Longrightarrow> find (\<lambda>y. key y = key p) (replace_by key p xs) = Some p"
  by (induction xs) (auto simp: replace_by_def)

section \<open>Any number of overlapping refunds\<close>

definition refund_from :: "tables \<Rightarrow> uuid \<times> Refund \<times> 'e world \<Rightarrow> bool" where
  \<comment> \<open>a refund \<open>r\<close> of the payment \<open>i\<close> that a transaction made which read the rows \<open>t\<close>\<close>
  "refund_from t x \<longleftrightarrow> (case x of (i, r, v) \<Rightarrow> \<exists>P gm owner minor reason w.
     objs w = t \<and> pending w = [] \<and> create_refund P gm owner i minor reason w = (Inr r, v))"

definition overlap :: "tables \<Rightarrow> 'e world list \<Rightarrow> tables" where
  \<comment> \<open>transactions that all read \<open>t\<close> and commit one after the other\<close>
  "overlap t vs = fold (\<lambda>v s. write_over t (view v) s) vs t"

definition refunds_of :: "uuid \<Rightarrow> (uuid \<times> Refund \<times> 'e world) list \<Rightarrow> int list" where
  "refunds_of i xs = map (\<lambda>(_, r, _). rfd_amount r) (filter (\<lambda>x. fst x = i) xs)"

lemma merged_same [simp]: "merged_payment q q p = p"
  by (simp add: merged_payment_def merged_def)

lemma find_replace_other: "k \<noteq> key p \<Longrightarrow> find (\<lambda>y. key y = k) (replace_by key p xs) = find (\<lambda>y. key y = k) xs"
  by (induction xs) (auto simp: replace_by_def)

lemma refund_from_row:
  assumes "ledger_ok t" and "refund_from t (i, r, v)"
  obtains q p where "q \<in> set (payments t)" and "pay_id q = i" and "0 < rfd_amount r" and "rfd_payment_id r = i"
    and "payment_ok p" and "pay_amount_refunded p = pay_amount_refunded q + rfd_amount r"
    and "merged_payment q p q = p" and "\<And>s. pay_id (merged_payment q p s) = pay_id s"
    and "\<And>s. pay_amount_refunded (merged_payment q p s) = pay_amount_refunded p"
    and "\<And>s. map pay_id (payments s) = map pay_id (payments t) \<Longrightarrow>
      payments (write_over t (view v) s) = map (\<lambda>x. if pay_id x = i then merged_payment q p x else x) (payments s)"
    and "\<And>s. refunds (write_over t (view v) s) = refunds s @ [r]"
proof -
  obtain P gm owner minor reason and w :: "'a world" where w: "objs w = t" "pending w = []"
    and run: "create_refund P gm owner i minor reason w = (Inr r, v)" using assms(2) by (auto simp: refund_from_def)
  from run w(2) show thesis
  proof (rule create_refund_Inr)
    fix q p a
    assume q: "q \<in> set (payments (objs w))" "pay_id q = i" and pos: "0 < rfd_amount r" and r: "rfd_payment_id r = i"
      and p: "p = q\<lparr>pay_amount_refunded := pay_amount_refunded q + rfd_amount r,
               pay_status := (if pay_amount_refunded q + rfd_amount r \<ge> pay_amount_captured q then REFUNDED
                              else PARTIALLY_REFUNDED)\<rparr>"
      and v: "objs v = (objs w)\<lparr>payments := replace_by pay_id p (payments (objs w)), refunds := refunds (objs w) @ [r]\<rparr>"
      "pending v = [AuditLogRow a]"
    have ids: "distinct (map pay_id (payments t))" using assms(1) by (simp add: ledger_ok_def)
    have view: "payments (view v) = replace_by pay_id p (payments t)" "refunds (view v) = refunds t @ [r]"
      using v w(1) by (simp_all add: view_def)
    have "ledger_ok (view v)" using refund_keeps_ledger [OF run w(2)] assms(1) w(1) by (simp add: view_def)
    moreover have same: "pay_id p = i" using q(2) p by simp
    moreover have "p \<in> set (payments (view v))" using q same w(1) unfolding view(1) replace_by_mem by force
    ultimately have ok: "payment_ok p" by (simp add: ledger_ok_def)
    have rows: "row_by pay_id i (payments t) = Some q" "row_by pay_id i (replace_by pay_id p (payments t)) = Some p"
      using find_by_key [OF ids] find_replaced [of pay_id p "payments t"] q w(1) same by (auto simp: row_by_def)
    have others: "row_by pay_id k (replace_by pay_id p (payments t)) = row_by pay_id k (payments t)" if "k \<noteq> i" for k
      using that same by (simp add: row_by_def find_replace_other)
    have pays: "payments (write_over t (view v) s) = map (\<lambda>x. if pay_id x = i then merged_payment q p x else x) (payments s)"
      if "map pay_id (payments s) = map pay_id (payments t)" for s
    proof -
      have "filter (\<lambda>x. pay_id x \<notin> pay_id ` set (payments t)) (replace_by pay_id p (payments t)) = []"
        by (auto simp: filter_empty_conv replace_by_mem)
      then show ?thesis
        using rows others by (auto simp: write_over_def write_rows_def view split: option.splits)
    qed
    show thesis
      by (rule that [OF q(1) [unfolded w(1)] q(2) pos r ok _ _ _ _ pays])
        (use p pos in \<open>simp_all add: merged_payment_def merged_def write_over_def view\<close>)
  qed
qed

lemma refund_from_facts:
  assumes "ledger_ok t" and "refund_from t (i, r, v)"
  shows "0 < rfd_amount r \<and> rfd_payment_id r = i \<and> i \<in> pay_id ` set (payments t)"
  using assms by (rule refund_from_row) auto

lemma refunds_of_append [simp]:
  "refunds_of i (xs @ [(j, r, v)]) = refunds_of i xs @ (if j = i then [rfd_amount r] else [])"
  by (simp add: refunds_of_def)

text \<open>What each payment looks like after the last of them: untouched, as its only refund left it, or with
  the amount of the last refund only.\<close>

lemma overlap_rows:
  assumes "ledger_ok t" and "\<forall>x \<in> set xs. refund_from t x"
  shows "refunds (overlap t (map (snd \<circ> snd) xs)) = refunds t @ map (fst \<circ> snd) xs \<and>
    map pay_id (payments (overlap t (map (snd \<circ> snd) xs))) = map pay_id (payments t) \<and>
    (\<forall>p \<in> set (payments (overlap t (map (snd \<circ> snd) xs))). \<exists>q \<in> set (payments t). pay_id q = pay_id p \<and>
       (case rev (refunds_of (pay_id p) xs) of
          [] \<Rightarrow> p = q
        | n # ns \<Rightarrow> pay_amount_refunded p = pay_amount_refunded q + n \<and> (ns = [] \<longrightarrow> payment_ok p)))"
  using assms(2)
proof (induction xs rule: rev_induct)
  case Nil
  show ?case by (auto simp: overlap_def refunds_of_def)
next
  case (snoc x xs)
  obtain i r v where x: "x = (i, r, v)" by (cases x)
  let ?s = "overlap t (map (snd \<circ> snd) xs)"
  have step: "overlap t (map (snd \<circ> snd) (xs @ [x])) = write_over t (view v) ?s" by (simp add: overlap_def x)
  have before: "\<forall>x \<in> set xs. refund_from t x" using snoc.prems by simp
  have IH: "refunds ?s = refunds t @ map (fst \<circ> snd) xs" "map pay_id (payments ?s) = map pay_id (payments t)"
    and rows: "\<forall>p \<in> set (payments ?s). \<exists>q \<in> set (payments t). pay_id q = pay_id p \<and>
       (case rev (refunds_of (pay_id p) xs) of
          [] \<Rightarrow> p = q
        | n # ns \<Rightarrow> pay_amount_refunded p = pay_amount_refunded q + n \<and> (ns = [] \<longrightarrow> payment_ok p))"
    using snoc.IH [OF before] by blast+
  have last: "refund_from t (i, r, v)" using snoc.prems x by simp
  obtain q p where q: "q \<in> set (payments t)" "pay_id q = i" and ok: "payment_ok p"
    and p: "pay_amount_refunded p = pay_amount_refunded q + rfd_amount r" "merged_payment q p q = p"
      "\<And>s. pay_id (merged_payment q p s) = pay_id s" "\<And>s. pay_amount_refunded (merged_payment q p s) = pay_amount_refunded p"
    and pays: "payments (write_over t (view v) ?s) = map (\<lambda>x. if pay_id x = i then merged_payment q p x else x) (payments ?s)"
    and refs: "refunds (write_over t (view v) ?s) = refunds ?s @ [r]"
    by (rule refund_from_row [OF assms(1) last]) (rule that; (assumption | use IH(2) in blast))
  have one: "q' = q" if "q' \<in> set (payments t)" "pay_id q' = i" for q'
    using assms(1) q that by (auto simp: ledger_ok_def distinct_map inj_on_def)
  have "\<exists>q' \<in> set (payments t). pay_id q' = pay_id p' \<and>
       (case rev (refunds_of (pay_id p') (xs @ [x])) of
          [] \<Rightarrow> p' = q'
        | n # ns \<Rightarrow> pay_amount_refunded p' = pay_amount_refunded q' + n \<and> (ns = [] \<longrightarrow> payment_ok p'))"
    if "p' \<in> set (payments (write_over t (view v) ?s))" for p'
  proof -
    from that obtain s where s: "s \<in> set (payments ?s)" and p': "p' = (if pay_id s = i then merged_payment q p s else s)"
      by (auto simp: pays)
    from rows s obtain q' where q': "q' \<in> set (payments t)" "pay_id q' = pay_id s"
      "case rev (refunds_of (pay_id s) xs) of [] \<Rightarrow> s = q'
        | n # ns \<Rightarrow> pay_amount_refunded s = pay_amount_refunded q' + n \<and> (ns = [] \<longrightarrow> payment_ok s)" by blast
    show ?thesis
    proof (cases "pay_id s = i")
      case True
      then have "q' = q" using one q' by simp
      moreover have "payment_ok p'" if "refunds_of i xs = []"
        using that q'(3) True p' p(2) ok \<open>q' = q\<close> by simp
      ultimately show ?thesis using True p' p(1,3,4) q x by (intro bexI [of _ q]) auto
    next
      case False
      then show ?thesis using q' p' x by (intro bexI [of _ q']) auto
    qed
  qed
  moreover have "map pay_id (payments (write_over t (view v) ?s)) = map pay_id (payments t)"
  proof -
    have "pay_id \<circ> (\<lambda>x. if pay_id x = i then merged_payment q p x else x) = pay_id" using p(3) by (auto simp: fun_eq_iff)
    then show ?thesis using IH(2) by (simp add: pays)
  qed
  ultimately show ?case unfolding step using refs IH(1) x by simp
qed

lemma distinct_once: "distinct (map fst xs) \<longleftrightarrow> (\<forall>i. length (refunds_of i xs) \<le> 1)"
proof (induction xs)
  case (Cons x xs)
  have "refunds_of (fst x) xs = [] \<longleftrightarrow> fst x \<notin> fst ` set xs"
    by (force simp: refunds_of_def filter_empty_conv image_iff)
  moreover have "length (refunds_of i (x # xs)) = (if fst x = i then Suc (length (refunds_of i xs)) else length (refunds_of i xs))" for i
    by (simp add: refunds_of_def)
  ultimately show ?case using Cons.IH by (auto simp: le_Suc_eq)
qed (simp add: refunds_of_def)

lemma overlap_amounts:
  assumes "ledger_ok t" and "\<forall>x \<in> set xs. refund_from t x"
  shows "\<forall>n \<in> set (refunds_of i xs). 0 < n" and "\<forall>r \<in> set (map (fst \<circ> snd) xs). 0 < rfd_amount r \<and> rfd_payment_id r \<in> pay_id ` set (payments t)"
    and "refund_total i (map (fst \<circ> snd) xs) = sum_list (refunds_of i xs)"
proof -
  have each: "0 < rfd_amount (fst (snd x)) \<and> rfd_payment_id (fst (snd x)) = fst x \<and> fst x \<in> pay_id ` set (payments t)"
    if "x \<in> set xs" for x
  proof -
    obtain j r v where x: "x = (j, r, v)" by (cases x)
    with that assms(2) have "refund_from t (j, r, v)" by blast
    from refund_from_facts [OF assms(1) this] show ?thesis using x by simp
  qed
  then show "\<forall>n \<in> set (refunds_of i xs). 0 < n"
    "\<forall>r \<in> set (map (fst \<circ> snd) xs). 0 < rfd_amount r \<and> rfd_payment_id r \<in> pay_id ` set (payments t)"
    by (auto simp: refunds_of_def)
  show "refund_total i (map (fst \<circ> snd) xs) = sum_list (refunds_of i xs)"
    using each by (induction xs) (auto simp: refund_total_def refunds_of_def)
qed

lemma overlap_ledger:
  assumes "ledger_ok t" and "\<forall>x \<in> set xs. refund_from t x"
  defines "s \<equiv> overlap t (map (snd \<circ> snd) xs)"
  shows "\<forall>p \<in> set (payments s). refund_total (pay_id p) (refunds s) =
      pay_amount_refunded p + sum_list (butlast (refunds_of (pay_id p) xs))"
    and "ledger_ok s \<longleftrightarrow> distinct (map fst xs)"
proof -
  note rows = overlap_rows [OF assms(1,2), folded s_def] and amounts = overlap_amounts [OF assms(1,2)]
  have ids: "pay_id ` set (payments s) = pay_id ` set (payments t)" using rows by (metis image_set)
  have total: "refund_total i (refunds s) = refund_total i (refunds t) + sum_list (refunds_of i xs)" for i
    using rows amounts(3) [of i] by (simp add: refund_total_def)
  have gap: "refund_total (pay_id p) (refunds s) = pay_amount_refunded p + sum_list (butlast (refunds_of (pay_id p) xs)) \<and>
      (length (refunds_of (pay_id p) xs) \<le> 1 \<longrightarrow> payment_ok p)" if p: "p \<in> set (payments s)" for p
  proof -
    obtain q where q: "q \<in> set (payments t)" "pay_id q = pay_id p"
      "case rev (refunds_of (pay_id p) xs) of [] \<Rightarrow> p = q
        | n # ns \<Rightarrow> pay_amount_refunded p = pay_amount_refunded q + n \<and> (ns = [] \<longrightarrow> payment_ok p)" using rows p by blast
    have base: "payment_ok q" "pay_amount_refunded q = refund_total (pay_id p) (refunds t)"
      using assms(1) q(1,2) by (auto simp: ledger_ok_def)
    show ?thesis
    proof (cases "refunds_of (pay_id p) xs" rule: rev_cases)
      case (snoc ns n)
      then show ?thesis using q(3) base(2) total by simp
    qed (use q(3) base total in simp)
  qed
  then show "\<forall>p \<in> set (payments s). refund_total (pay_id p) (refunds s) =
      pay_amount_refunded p + sum_list (butlast (refunds_of (pay_id p) xs))" by blast
  have lost: "0 < sum_list (butlast (refunds_of i xs))" if two: "\<not> length (refunds_of i xs) \<le> 1" for i
  proof -
    obtain n ns m where "refunds_of i xs = (n # ns) @ [m]"
      using two by (cases "refunds_of i xs" rule: rev_cases) (auto simp: neq_Nil_conv)
    then show ?thesis using amounts(1) [of i] by (auto intro!: add_pos_nonneg sum_list_nonneg simp: less_imp_le)
  qed
  show "ledger_ok s \<longleftrightarrow> distinct (map fst xs)"
  proof
    assume "distinct (map fst xs)"
    then have once: "length (refunds_of i xs) \<le> 1" for i using distinct_once by blast
    then have "butlast (refunds_of i xs) = []" for i
      using once [of i] by (cases "refunds_of i xs" rule: rev_cases) auto
    then show "ledger_ok s" using gap once rows amounts(2) assms(1) ids by (auto simp: ledger_ok_def)
  next
    assume ok: "ledger_ok s"
    have "length (refunds_of i xs) \<le> 1" for i
    proof (rule ccontr)
      assume two: "\<not> length (refunds_of i xs) \<le> 1"
      then have "filter (\<lambda>x. fst x = i) xs \<noteq> []" by (auto simp: refunds_of_def)
      then obtain x where "x \<in> set xs" "fst x = i" unfolding filter_empty_conv by blast
      then have "refund_from t (fst x, fst (snd x), snd (snd x))" using assms(2) unfolding prod.collapse by blast
      from refund_from_facts [OF assms(1) this] have "i \<in> pay_id ` set (payments s)" using ids \<open>fst x = i\<close> by simp
      then obtain p where "p \<in> set (payments s)" "pay_id p = i" by blast
      then show False using gap ok lost [OF two] by (auto simp: ledger_ok_def)
    qed
    then show "distinct (map fst xs)" using distinct_once by blast
  qed
qed

section \<open>Two requests with one key\<close>

fun action_of :: "'e platform \<Rightarrow> App \<Rightarrow> User \<Rightarrow> string \<Rightarrow> call \<Rightarrow> ('e world, exc, json) op" where
  \<comment> \<open>what a request with a key executes when no record answers it\<close>
  "action_of P app user key (CreatePayment r) = charge_action P app user r (Some key)"
| "action_of P app user key (CreateRefund i r) = refund_action P app user i r"
| "action_of P app user key _ = return JNull"

lemma keyed_request:
  assumes "takes_key c" and "scope_of c = Some sc" and "map_of hs ''idempotency-key'' = Some key" and "key \<noteq> []"
    and "pending w = []" and "require_scope P app hs sc w = (Inr user, u)" and "endpoint_of P app hs c w = (Inr resp, v)"
    and "\<forall>r \<in> set (idempotency_keys (objs w)). \<not> (idk_owner_id r = usr_id user \<and> idk_endpoint r = endpoint_name c \<and> idk_key r = key)"
  shows "\<exists>b x. action_of P app user key c u = (Inr b, x)"
    and "\<exists>r \<in> set (drop (length (idempotency_keys (objs w))) (idempotency_keys (view v))).
      idk_owner_id r = usr_id user \<and> idk_endpoint r = endpoint_name c \<and> idk_key r = key"
    and "prefix (idempotency_keys (objs w)) (idempotency_keys (view v))"
proof -
  show "\<exists>b x. action_of P app user key c u = (Inr b, x)"
  proof (cases c)
    case (CreatePayment r)
    then show ?thesis using assms charge_endpoint.action_ran [of P app hs w user u key r resp v] by simp
  next
    case (CreateRefund i r)
    then show ?thesis using assms refund_endpoint.action_ran [of P app hs w user u key i r resp v] by simp
  qed (use assms(1) in simp_all)
  have "keeps (\<lambda>v. prefix (idempotency_keys (objs w)) (idempotency_keys (view v))) (endpoint_of P app hs c)"
    by (rule record_keeping.keeps_endpoint)
  then show prefix: "prefix (idempotency_keys (objs w)) (idempotency_keys (view v))"
    using assms(5,7) by (auto dest: keepsD simp: view_def)
  have "\<exists>r \<in> set (idempotency_keys (view v)). answers r (usr_id user) (endpoint_name c) key (body_of c) \<and>
      resp = (idk_response_status r, idk_response_body r)"
    using assms(1-4,6,7) by (cases c) (auto intro: charge_endpoint.answer_recorded refund_endpoint.answer_recorded)
  then show "\<exists>r \<in> set (drop (length (idempotency_keys (objs w))) (idempotency_keys (view v))).
      idk_owner_id r = usr_id user \<and> idk_endpoint r = endpoint_name c \<and> idk_key r = key"
    using prefix assms(8) by (auto simp: prefix_def answers_def)
qed

lemma same_triple_rejected:
  assumes "r \<in> set xs" and "s \<in> set ys" and "f r = f s"
  shows "\<not> distinct (map f (xs @ ys))"
  using assms by (auto simp: image_iff)

section \<open>Properties\<close>

text \<open>C4. Overlapping refunds.  When any number of refunds all read the rows before the first of them
  commits, the balance of a payment is short of its refund rows by exactly the refunds of it but
  the last one.  So the ledger survives if and only if they are refunds of different payments.\<close>

theorem overlapping_refunds:
  assumes "ledger_ok t" and "\<forall>x \<in> set xs. refund_from t x"
  shows "(\<forall>p \<in> set (payments (overlap t (map (snd \<circ> snd) xs))).
      refund_total (pay_id p) (refunds (overlap t (map (snd \<circ> snd) xs))) =
        pay_amount_refunded p + sum_list (butlast (refunds_of (pay_id p) xs))) \<and>
    (ledger_ok (overlap t (map (snd \<circ> snd) xs)) \<longleftrightarrow> distinct (map fst xs))"
  using overlap_ledger [OF assms] by blast

theorem overlapping_refunds_witness:
  "\<exists>t v1 v2. ledger_ok t \<and> \<not> ledger_ok (overlap t [v1, v2 :: nat world]) \<and> ledger_ok (overlap t [v1]) \<and>
     length (refunds (overlap t [v1, v2])) = 2"
proof -
  let ?t = "objs demo_world"
  obtain r1 v1 where one: "create_refund obliging sandbox_gateway demo_user 3 (Some 4) None (demo_world\<lparr>env := 0\<rparr>) = (Inr r1, v1)"
    using demo_refund_at [of 0] by blast
  obtain r2 v2 where two: "create_refund obliging sandbox_gateway demo_user 3 (Some 4) None (demo_world\<lparr>env := 5\<rparr>) = (Inr r2, v2)"
    using demo_refund_at [of 5] by blast
  have w: "objs (demo_world\<lparr>env := n\<rparr>) = ?t" "pending (demo_world\<lparr>env := n\<rparr>) = []" for n
    by (simp_all add: demo_world_def sandbox_world_def)
  have runs: "refund_from ?t (3, r1, v1)" "refund_from ?t (3, r2, v2)"
    using one two w unfolding refund_from_def prod.case by blast+
  have ok: "ledger_ok ?t"
    by (simp add: ledger_ok_def payment_ok_def demo_world_def demo_payment_def new_payment_def demo_amount_def refund_total_def
        empty_tables_def)
  have "\<not> ledger_ok (overlap ?t [v1, v2])" "ledger_ok (overlap ?t [v1])"
    using overlapping_refunds [OF ok, of "[(3, r1, v1), (3, r2, v2)]"] overlapping_refunds [OF ok, of "[(3, r1, v1)]"] runs
    by simp_all
  moreover have "length (refunds (overlap ?t [v1, v2])) = 2"
    using overlap_rows [OF ok, of "[(3, r1, v1), (3, r2, v2)]"] runs by (simp add: demo_world_def empty_tables_def)
  ultimately show ?thesis using ok by blast
qed

text \<open>Concurrent refunds break the ledger.  Two refunds of one payment that both read the rows before
  either wrote both succeed, and the refund rows then add up to both amounts, while the payment's
  refunded amount counts the second only: the invariant that holds after every serial run is lost,
  and with it the guarantee that refunds never exceed what was captured.\<close>

theorem concurrent_refunds_lost:
  assumes "ledger_ok t" and "objs w1 = t" and "pending w1 = []" and "objs w2 = t" and "pending w2 = []"
    and "create_refund P gm owner i minor1 reason1 w1 = (Inr r1, v1)"
    and "create_refund P gm owner i minor2 reason2 w2 = (Inr r2, v2)"
  shows "\<exists>q p. q \<in> set (payments t) \<and> pay_id q = i \<and> p \<in> set (payments (write_over t (view v2) (view v1))) \<and> pay_id p = i \<and>
    refund_total i (refunds (write_over t (view v2) (view v1))) = pay_amount_refunded q + rfd_amount r1 + rfd_amount r2 \<and>
    pay_amount_refunded p = pay_amount_refunded q + rfd_amount r2 \<and>
    \<not> ledger_ok (write_over t (view v2) (view v1))"
proof -
  let ?t = "write_over t (view v2) (view v1)"
  have ids: "distinct (map pay_id (payments t))" using assms(1) by (simp add: ledger_ok_def)
  obtain q1 p1 a1 where one: "q1 \<in> set (payments t)" "pay_id q1 = i" "pay_id p1 = i" "0 < rfd_amount r1" "rfd_payment_id r1 = i"
    "pay_amount_refunded p1 = pay_amount_refunded q1 + rfd_amount r1"
    and v1: "view v1 = t\<lparr>payments := replace_by pay_id p1 (payments t), refunds := refunds t @ [r1], audit_logs := audit_logs t @ [a1]\<rparr>"
    using refund_view [OF assms(6,3)] assms(2) by metis
  obtain q p2 a2 where two: "q \<in> set (payments t)" "pay_id q = i" "pay_id p2 = i" "0 < rfd_amount r2" "rfd_payment_id r2 = i"
    "pay_amount_refunded p2 = pay_amount_refunded q + rfd_amount r2"
    and v2: "view v2 = t\<lparr>payments := replace_by pay_id p2 (payments t), refunds := refunds t @ [r2], audit_logs := audit_logs t @ [a2]\<rparr>"
    using refund_view [OF assms(7,5)] assms(4) by metis
  have total: "refund_total i (refunds ?t) = pay_amount_refunded q + rfd_amount r1 + rfd_amount r2"
    using assms(1) one(5) two(1,2,5) v1 v2 by (auto simp: write_over_def ledger_ok_def refund_total_def)
  let ?p = "merged_payment q p2 p1"
  have found: "row_by pay_id i (payments t) = Some q" "row_by pay_id i (replace_by pay_id p2 (payments t)) = Some p2"
    using find_by_key [OF ids two(1)] find_replaced [of pay_id p2 "payments t"] two(1-3) by (auto simp: row_by_def image_iff)
  have "p1 \<in> set (replace_by pay_id p1 (payments t))" using one(1-3) by (auto simp: replace_by_mem image_iff)
  then have p: "?p \<in> set (payments ?t)"
    using v1 v2 found one(3) by (auto simp: write_over_def write_rows_def intro!: image_eqI [of _ _ p1])
  have "pay_id ?p = i" "pay_amount_refunded ?p = pay_amount_refunded q + rfd_amount r2"
    using one(3) two(4,6) by (simp_all add: merged_payment_def merged_def)
  moreover have "\<not> ledger_ok ?t"
    using p total one(4) calculation by (fastforce simp: ledger_ok_def)
  ultimately show ?thesis using two(1,2) p total by blast
qed

theorem concurrent_refunds_lost_witness:
  "\<exists>t r1 r2 p v1 v2. unique_ok (write_over t (view v2) (view (v1 :: nat world))) \<and>
     p \<in> set (payments (write_over t (view (v2 :: nat world)) (view v1))) \<and>
     refund_total 3 (refunds (write_over t (view v2) (view v1))) = rfd_amount (r1 :: Refund) + rfd_amount (r2 :: Refund) \<and>
     pay_amount_refunded p = rfd_amount r2 \<and> \<not> ledger_ok (write_over t (view v2) (view v1))"
proof -
  let ?w1 = "demo_world\<lparr>env := 0\<rparr>" and ?w2 = "demo_world\<lparr>env := 5\<rparr>" and ?t = "objs demo_world"
  obtain r1 v1 a1 where one: "create_refund obliging sandbox_gateway demo_user 3 (Some 4) None ?w1 = (Inr r1, v1)"
    "rfd_id r1 = 1" "pending v1 = [AuditLogRow a1]" "aud_id a1 = 2"
    using demo_refund_at [of 0] by auto
  obtain r2 v2 a2 where two: "create_refund obliging sandbox_gateway demo_user 3 (Some 4) None ?w2 = (Inr r2, v2)"
    "rfd_id r2 = 6" "pending v2 = [AuditLogRow a2]" "aud_id a2 = 7"
    using demo_refund_at [of 5] by auto
  have w: "pending ?w1 = []" "pending ?w2 = []" "payments ?t = [demo_payment]" "refunds ?t = []" "audit_logs ?t = []"
    by (simp_all add: demo_world_def sandbox_world_def empty_tables_def)
  have t: "?t = empty_tables\<lparr>payments := [demo_payment]\<rparr>" by (simp add: demo_world_def)
  have d: "pay_id demo_payment = 3" "pay_amount_refunded demo_payment = 0" by (simp_all add: demo_payment_def new_payment_def)
  have "ledger_ok ?t"
    using w by (simp add: ledger_ok_def payment_ok_def demo_payment_def new_payment_def demo_amount_def refund_total_def)
  from concurrent_refunds_lost [OF this _ w(1) _ w(2) one(1) two(1)] w d obtain p
    where p: "p \<in> set (payments (write_over ?t (view v2) (view v1)))"
      "refund_total 3 (refunds (write_over ?t (view v2) (view v1))) = rfd_amount r1 + rfd_amount r2"
      "pay_amount_refunded p = rfd_amount r2" "\<not> ledger_ok (write_over ?t (view v2) (view v1))" by auto
  have "unique_ok (write_over ?t (view v2) (view v1))"
  proof -
    obtain p1 where "pay_id p1 = 3" and v1: "view v1 = ?t\<lparr>payments := replace_by pay_id p1 (payments ?t), refunds := refunds ?t @ [r1],
        audit_logs := audit_logs ?t @ [a1]\<rparr>"
      by (rule refund_row [OF one(1) w(1) one(3)], rule that, assumption, simp)
    obtain p2 where "pay_id p2 = 3" and v2: "view v2 = ?t\<lparr>payments := replace_by pay_id p2 (payments ?t), refunds := refunds ?t @ [r2],
        audit_logs := audit_logs ?t @ [a2]\<rparr>"
      by (rule refund_row [OF two(1) w(2) two(3)], rule that, assumption, simp)
    then have "\<exists>p. write_over ?t (view v2) (view v1) = ?t\<lparr>payments := [p], refunds := [r1, r2], audit_logs := [a1, a2]\<rparr>"
      using w(3-5) d(1) v1 by (auto simp: write_over_def write_rows_def replace_by_def t empty_tables_def)
    then show ?thesis
      using one(2,4) two(2,4)
      by (auto simp: unique_ok_def unique_by_def demo_world_def empty_tables_def List.map_filter_simps split: option.splits)
  qed
  with p show ?thesis
    by - (rule exI [of _ ?t], rule exI [of _ r1], rule exI [of _ r2], rule exI [of _ p], rule exI [of _ v1],
      rule exI [of _ v2], simp)
qed

text \<open>C5. Concurrent requests with one idempotency key are both executed.  When the same user sends a payment or
  refund request twice with a new key, and both transactions read before either commits, both run the
  service to its end, provider call included; the database then refuses the rows of the second on top
  of the first, so its work is lost after the provider has acted on it.\<close>

theorem concurrent_same_key:
  assumes "takes_key c" and "scope_of c = Some sc"
    and "map_of hs1 ''idempotency-key'' = Some key" and "map_of hs2 ''idempotency-key'' = Some key" and "key \<noteq> []"
    and "objs w1 = t" and "pending w1 = []" and "objs w2 = t" and "pending w2 = []"
    and "require_scope P app hs1 sc w1 = (Inr user, u1)" and "require_scope P app hs2 sc w2 = (Inr user', u2)"
    and "usr_id user' = usr_id user"
    and "\<forall>r \<in> set (idempotency_keys t). \<not> (idk_owner_id r = usr_id user \<and> idk_endpoint r = endpoint_name c \<and> idk_key r = key)"
    and "endpoint_of P app hs1 c w1 = (Inr resp1, v1)" and "endpoint_of P app hs2 c w2 = (Inr resp2, v2)"
    and "enforces_unique P"
  shows "(\<exists>b x. action_of P app user key c u1 = (Inr b, x)) \<and> (\<exists>b x. action_of P app user' key c u2 = (Inr b, x)) \<and>
    \<not> db_accepts P (write_over t (view v2) (view v1))"
proof -
  have one: "\<exists>b x. action_of P app user key c u1 = (Inr b, x)"
    and two: "\<exists>b x. action_of P app user' key c u2 = (Inr b, x)"
    using keyed_request(1) [OF assms(1-3,5,7,10,14)] keyed_request(1) [OF assms(1,2,4,5,9,11,15)] assms(6,8,12,13) by simp_all
  obtain r where r: "r \<in> set (drop (length (idempotency_keys t)) (idempotency_keys (view v1)))"
    "idk_owner_id r = usr_id user" "idk_endpoint r = endpoint_name c" "idk_key r = key"
    using keyed_request(2) [OF assms(1-3,5,7,10,14)] assms(6,13) by auto
  obtain s where s: "s \<in> set (drop (length (idempotency_keys t)) (idempotency_keys (view v2)))"
    "idk_owner_id s = usr_id user" "idk_endpoint s = endpoint_name c" "idk_key s = key"
    using keyed_request(2) [OF assms(1,2,4,5,9,11,15)] assms(8,12,13) by auto
  let ?f = "\<lambda>k. (idk_owner_id k, idk_endpoint k, idk_key k)"
  have "\<not> distinct (map ?f (idempotency_keys (view v1) @ drop (length (idempotency_keys t)) (idempotency_keys (view v2))))"
    using same_triple_rejected [OF in_set_dropD [OF r(1)] s(1), of ?f] r s by simp
  then have "\<not> unique_records (write_over t (view v2) (view v1))" by (simp add: unique_records_def write_over_def)
  then have "\<not> unique_ok (write_over t (view v2) (view v1))" using unique_ok_records by blast
  then show ?thesis using one two assms(16) by (auto simp: enforces_unique_def)
qed

theorem concurrent_same_key_witness:
  "\<exists>t resp1 resp2 v1 v2 p1 p2. payments t = [] \<and> idempotency_keys t = [] \<and>
     payments (view (v1 :: nat world)) = [p1] \<and> payments (view (v2 :: nat world)) = [p2] \<and> pay_id p1 \<noteq> pay_id p2 \<and>
     endpoint_of sandbox demo_app keyed (CreatePayment demo_payload)
       ((role_world MERCHANT)\<lparr>objs := t, pending := []\<rparr>) = (Inr resp1, v1) \<and>
     endpoint_of sandbox demo_app keyed (CreatePayment demo_payload)
       ((role_world MERCHANT)\<lparr>env := 10, objs := t, pending := []\<rparr>) = (Inr resp2, v2) \<and>
     \<not> db_accepts sandbox (write_over t (view v2) (view v1))"
proof -
  let ?t = "committed (role_world MERCHANT)"
  let ?w1 = "(role_world MERCHANT)\<lparr>env := 0, objs := ?t, pending := []\<rparr>" and ?w2 = "(role_world MERCHANT)\<lparr>env := 10, objs := ?t, pending := []\<rparr>"
  have t: "payments ?t = []" "idempotency_keys ?t = []" "users ?t = [demo_user]" "api_keys ?t = [demo_key\<lparr>key_last_used_at := None\<rparr>]"
    by (simp_all add: role_world_def sandbox_world_def empty_tables_def demo_user_def demo_key_def)
  have same: "(role_world MERCHANT)\<lparr>objs := ?t, pending := []\<rparr> = ?w1" by (simp add: role_world_def sandbox_world_def)
  obtain resp1 v1 p1 where one: "endpoint_of sandbox demo_app keyed (CreatePayment demo_payload) ?w1 = (Inr resp1, v1)"
    "payments (view v1) = [p1]" "pay_id p1 = 0"
    using demo_charge_at [of 0] by auto
  obtain resp2 v2 p2 where two: "endpoint_of sandbox demo_app keyed (CreatePayment demo_payload) ?w2 = (Inr resp2, v2)"
    "payments (view v2) = [p2]" "pay_id p2 = 10"
    using demo_charge_at [of 10] by auto
  have auth1: "require_scope sandbox demo_app keyed SCOPE_PAYMENTS_WRITE ?w1 = (Inr demo_user,
      ?w1\<lparr>objs := (objs ?w1)\<lparr>api_keys := [demo_key\<lparr>key_last_used_at := Some (time_time sandbox (env ?w1))\<rparr>]\<rparr>\<rparr>)"
    by (rule demo_scope [where t = None]) (simp_all add: t)
  have auth2: "require_scope sandbox demo_app keyed SCOPE_PAYMENTS_WRITE ?w2 = (Inr demo_user,
      ?w2\<lparr>objs := (objs ?w2)\<lparr>api_keys := [demo_key\<lparr>key_last_used_at := Some (time_time sandbox (env ?w2))\<rparr>]\<rparr>\<rparr>)"
    by (rule demo_scope [where t = None]) (simp_all add: t)
  have "\<not> db_accepts sandbox (write_over ?t (view v2) (view v1))"
    by (rule concurrent_same_key [where key = "''r1''", THEN conjunct2, THEN conjunct2,
          OF _ _ _ _ _ _ _ _ _ auth1 auth2 refl _ one(1) two(1) sandbox_assumptions(1)])
      (simp_all add: t keyed_def)
  then show ?thesis using one two t
    by - (rule exI [of _ ?t], rule exI [of _ resp1], rule exI [of _ resp2], rule exI [of _ v1], rule exI [of _ v2],
      rule exI [of _ p1], rule exI [of _ p2], simp add: same)
qed

end
