(* ===== verification/Deliveries.thy ===== *)
theory Deliveries
  imports Replay
begin

text \<open>
  Webhook deliveries at the interface: what one delivery does to the database, and that an event
  is recorded once however often it is delivered.
\<close>

section \<open>One delivery\<close>

lemma handle_Inr:
  assumes "payment_adapter adapter" and "handle P adapter provider body headers w = (Inr (event, dup), v)" and "pending w = []"
  obtains verified where "ad_verify_webhook adapter body headers w = (Inr verified, w)"
    and "evt_provider event = provider" and "evt_event_id event = whk_event_id verified"
    and "if dup then event \<in> set (webhook_events (objs w)) \<and> view v = objs w
         else (\<exists>a. evt_status event = PROCESSED \<and>
                 (\<forall>e \<in> set (webhook_events (objs w)). evt_provider e = provider \<longrightarrow> evt_event_id e \<noteq> evt_event_id event) \<and>
                 view v = insert_row (AuditLogRow a) (insert_row (WebhookEventRow event) (objs w)))"
proof -
  have "snd (ad_verify_webhook adapter body headers w) = w"
    using payment_adapter.verify_reads [OF assms(1), of body headers] by (simp add: reads_only_def keeps_def)
  then obtain r where "ad_verify_webhook adapter body headers w = (r, w)" by (metis prod.collapse)
  then obtain verified where v: "ad_verify_webhook adapter body headers w = (Inr verified, w)"
    using assms(2) by (cases r) (auto simp: handle_rejected)
  show thesis
  proof (cases "\<exists>e \<in> set (webhook_events (objs w)). evt_provider e = provider \<and> evt_event_id e = whk_event_id verified")
    case False
    then obtain i a where "event = new_event provider verified i" "\<not> dup"
      "view v = insert_row (AuditLogRow a) (insert_row (WebhookEventRow event) (objs w))"
      using handle_new [OF v assms(2) _ assms(3)] by blast
    then show thesis using False by (intro that [OF v]) (auto simp: new_event_def)
  next
    case True
    let ?found = "filter (\<lambda>e. evt_provider e = provider \<and> evt_event_id e = whk_event_id verified) (webhook_events (objs w))"
    obtain x where q: "scalar_one_or_none ?found = Inr (Some x)"
      using assms(2) v True
      by (auto simp: handle_def on_exit_run op_splits get_by_event_def scalar_one_or_none_None filter_empty_conv
          split: option.splits)
    then have one: "?found = [x]" by (simp add: scalar_one_or_none_Some)
    then have "x \<in> set ?found" by simp
    then show thesis
      using handle_duplicate [OF v one, of P] assms(2,3) that [OF v] by (auto simp: view_def)
  qed
qed

lemma delivery_Inr:
  assumes "api_receive_webhook P app hs provider body w = (Inr resp, v)" and "pending w = []" and "objs w = t"
  obtains event dup where "resp = (200, webhook_ack event dup)" and "evt_provider event = provider"
    and "if dup then event \<in> set (webhook_events (t)) \<and> view v = t
         else (\<exists>a. evt_status event = PROCESSED \<and>
                 (\<forall>e \<in> set (webhook_events (t)). evt_provider e = provider \<longrightarrow> evt_event_id e \<noteq> evt_event_id event) \<and>
                 view v = insert_row (AuditLogRow a) (insert_row (WebhookEventRow event) (t)))"
proof -
  obtain owner_id u where owner: "(if nonempty (map_of hs ''x-upgi-account'') then lift_result (UUID (header_get hs ''x-upgi-account''))
        else (\<lambda>w. case uuid4 P (env w) of (i, e) \<Rightarrow> (Inr i, w\<lparr>env := e\<rparr>))) w = (Inr owner_id, u)"
    and rest: "andThen (get_provider P (app_gateway app) owner_id provider) (\<lambda>adapter.
      andThen (handle P adapter provider body hs) (\<lambda>(event, duplicate). return (200, webhook_ack event duplicate))) u = (Inr resp, v)"
    using assms(1) unfolding api_receive_webhook_def andThen_Inr [of _ _ w] by blast
  have u: "objs u = objs w" "pending u = []"
    using owner assms(2) by (auto simp: op_splits split: if_splits prod.splits)
  obtain adapter x where get': "get_provider P (app_gateway app) owner_id provider u = (Inr adapter, x)"
    and rest': "andThen (handle P adapter provider body hs) (\<lambda>(event, duplicate). return (200, webhook_ack event duplicate)) x = (Inr resp, v)"
    using rest [unfolded andThen_Inr [of _ _ u]] by blast
  have get: "get_provider P (app_gateway app) owner_id provider u = (Inr adapter, u)" and x: "x = u"
    using get' get_provider_reads [OF get'] by simp_all
  obtain event dup where run: "handle P adapter provider body hs u = (Inr (event, dup), v)"
    and resp: "resp = (200, webhook_ack event dup)"
    using rest' x by (auto simp: op_splits)
  from handle_Inr [OF get_provider_adapter [OF get] run u(2)] obtain verified where "evt_provider event = provider"
    and "if dup then event \<in> set (webhook_events (objs u)) \<and> view v = objs u
         else (\<exists>a. evt_status event = PROCESSED \<and>
                 (\<forall>e \<in> set (webhook_events (objs u)). evt_provider e = provider \<longrightarrow> evt_event_id e \<noteq> evt_event_id event) \<and>
                 view v = insert_row (AuditLogRow a) (insert_row (WebhookEventRow event) (objs u)))" by blast
  then show thesis using resp u(1) assms(3) by (intro that) (auto split: if_splits)
qed

section \<open>Properties\<close>

text \<open>C9. A webhook event is recorded exactly once.  A delivery that is accepted is acknowledged with
  an event of its provider: either one that was there, flagged as a duplicate, and then the
  database is as before, or a new one that no row had, flagged as not a duplicate, and then the
  database has gained that processed event and one audit entry and nothing else.  Whatever requests
  and redeliveries follow, it remains the only event of that provider with that identifier.\<close>

theorem webhook_recorded_once:
  assumes "session_scope P (endpoint_of P app hs (ReceiveWebhook provider body)) w = (Inr resp, v)" and "enforces_unique P"
    and "api_run P app v x"
  shows "\<exists>event dup. resp = (200, webhook_ack event dup) \<and> evt_provider event = provider \<and>
    (if dup then event \<in> set (webhook_events (committed w)) \<and> committed v = committed w
     else evt_status event = PROCESSED \<and>
       \<not> (\<exists>e \<in> set (webhook_events (committed w)). evt_provider e = provider \<and> evt_event_id e = evt_event_id event) \<and>
       (\<exists>a. committed v = (committed w)\<lparr>webhook_events := webhook_events (committed w) @ [event],
                                       audit_logs := audit_logs (committed w) @ [a]\<rparr>)) \<and>
    filter (\<lambda>e. evt_provider e = provider \<and> evt_event_id e = evt_event_id event) (webhook_events (committed x)) = [event]"
proof -
  obtain u where run: "api_receive_webhook P app hs provider body (w\<lparr>objs := committed w, pending := []\<rparr>) = (Inr resp, u)"
    and v: "committed v = view u" and acc: "db_accepts P (view u)" using assms(1) by (auto elim: session_scope_Inr)
  obtain event dup where e: "resp = (200, webhook_ack event dup)" "evt_provider event = provider"
    and eff: "if dup then event \<in> set (webhook_events (committed w)) \<and> view u = committed w
         else (\<exists>a. evt_status event = PROCESSED \<and>
                 (\<forall>e \<in> set (webhook_events (committed w)). evt_provider e = provider \<longrightarrow> evt_event_id e \<noteq> evt_event_id event) \<and>
                 view u = insert_row (AuditLogRow a) (insert_row (WebhookEventRow event) (committed w)))"
    by (rule delivery_Inr [OF run, where t = "committed w"]) (simp, simp, rule that)
  have "event \<in> set (webhook_events (committed v))" using eff v by (auto split: if_splits)
  then have "event \<in> set (webhook_events (committed x))"
    using api_run_grows(3) [OF assms(3)] by (auto dest: set_mono_prefix)
  moreover have "unique_ok (committed x)"
    using api_run_accepted [OF assms(3) _ assms(2)] acc v assms(2) by (simp add: enforces_unique_def)
  ultimately have
    "filter (\<lambda>e. evt_provider e = provider \<and> evt_event_id e = evt_event_id event) (webhook_events (committed x)) = [event]"
    using unique_ok_events [of "committed x" event] e(2) by simp
  moreover have "if dup then event \<in> set (webhook_events (committed w)) \<and> committed v = committed w
     else evt_status event = PROCESSED \<and>
       \<not> (\<exists>e \<in> set (webhook_events (committed w)). evt_provider e = provider \<and> evt_event_id e = evt_event_id event) \<and>
       (\<exists>a. committed v = (committed w)\<lparr>webhook_events := webhook_events (committed w) @ [event],
                                       audit_logs := audit_logs (committed w) @ [a]\<rparr>)"
    using eff v by (cases dup) auto
  ultimately show ?thesis using e by blast
qed

theorem webhook_recorded_once_witness:
  "\<exists>body hs resp v event dup. session_scope ping_platform (endpoint_of ping_platform demo_app hs (ReceiveWebhook MOCK body))
       (role_world MERCHANT) = (Inr resp, v) \<and> resp = (200, webhook_ack event dup) \<and>
     filter (\<lambda>e. evt_provider e = MOCK \<and> evt_event_id e = evt_event_id event) (webhook_events (committed v)) = [event]"
proof -
  let ?w = "(role_world MERCHANT)\<lparr>objs := committed (role_world MERCHANT), pending := []\<rparr>"
  let ?ctx = "\<lparr> ctx_secret = MOCK_SANDBOX_SECRET, ctx_sandbox = True, ctx_config = [], ctx_http = gm_http sandbox_gateway \<rparr>"
  let ?u = "?w\<lparr>env := 1\<rparr>"
  obtain body hs where b: "build_signed_webhook ping_platform ?ctx ping_event (Some 1700000000) (sandbox_world Map.empty) = (body, hs)"
    by fastforce
  have "unix_now ping_platform ?u = 1700000001"
    by (simp add: ping_platform_def unix_now_def sandbox_def)
  then have ver: "ad_verify_webhook (MockProvider ping_platform ?ctx) body hs ?u =
       (Inr \<lparr> whk_event_id = ''evt_1'', whk_event_type = ''ping'', whk_payload = ping_event \<rparr>, ?u)"
    using mock_accepts_signed [OF ping_facts(1) ping_event_def _ _ _ ping_facts(3) b, of "''evt_1''" "''ping''" ?u] by simp
  have acct: "map_of hs ''x-upgi-account'' = None"
    using b by (auto simp: build_signed_webhook_def Let_def MOCK_SIGNATURE_HEADER_def)
  have get: "get_provider ping_platform sandbox_gateway 0 MOCK ?u = (Inr (MockProvider ping_platform ?ctx), ?u)"
    by (rule mock_unconfigured) (simp add: role_world_def empty_tables_def)
  have P: "uuid4 ping_platform n = (of_nat n, Suc n)" "db_accepts ping_platform t = unique_ok t" for n t
    by (simp_all add: ping_platform_def sandbox_steps)
  have ok: "unique_ok ((committed (role_world MERCHANT))\<lparr>webhook_events := [e]\<rparr>)"
    "unique_ok ((committed (role_world MERCHANT))\<lparr>webhook_events := [e], audit_logs := [a]\<rparr>)" for e a
    by (simp_all add: role_world_def empty_tables_def unique_ok_def unique_by_def List.map_filter_simps)
  have w: "env (role_world MERCHANT) = 0" "webhook_events (committed (role_world MERCHANT)) = []"
    "audit_logs (committed (role_world MERCHANT)) = []"
    by (simp_all add: role_world_def sandbox_world_def empty_tables_def)
  have "\<exists>resp v. session_scope ping_platform (endpoint_of ping_platform demo_app hs (ReceiveWebhook MOCK body))
       (role_world MERCHANT) = (Inr resp, v)"
    using ver get ok w acct
    by (simp add: unit_of_work api_receive_webhook_def nonempty_def op_simps P demo_app_def handle_def get_by_event_def
        select_one_eq scalar_one_or_none_def add_row_def flush_def webhook_metric_def inc_def audit_record_def Let_def)
  then obtain resp v where run: "session_scope ping_platform (endpoint_of ping_platform demo_app hs (ReceiveWebhook MOCK body))
       (role_world MERCHANT) = (Inr resp, v)" by blast
  moreover have "enforces_unique ping_platform" by (simp add: enforces_unique_def P)
  ultimately show ?thesis using webhook_recorded_once [OF run _ api_run.start] by blast
qed

end
