(* ===== verification/Accounts.thy ===== *)
theory Accounts
  imports Deliveries
begin

text \<open>
  The interface as a ledger.  The abstract specification knows accounts only: opened for an amount,
  captured at most once and at most in full, canceled before capture, refunded within what was
  captured.  Every request refines it: what a request does to the payments is one move of the
  abstract ledger or none.
\<close>

section \<open>The specification\<close>

record account =
  acct_owner :: uuid
  acct_currency :: string
  acct_amount :: int
  acct_captured :: int
  acct_refunded :: int
  acct_status :: PaymentStatus

definition opened :: "account \<Rightarrow> bool" where
  "opened a \<longleftrightarrow> 0 < acct_amount a \<and> acct_refunded a = 0 \<and> 0 \<le> acct_captured a \<and> acct_captured a \<le> acct_amount a \<and>
     acct_status a \<in> {AUTHORIZED, CAPTURED, CANCELED, FAILED} \<and> (acct_status a = CAPTURED \<or> acct_captured a = 0)"

inductive account_step :: "account \<Rightarrow> account \<Rightarrow> bool" where
  capture: "acct_status a = AUTHORIZED \<Longrightarrow> 0 < n \<Longrightarrow> n \<le> acct_amount a \<Longrightarrow>
    account_step a (a\<lparr>acct_captured := n, acct_status := CAPTURED\<rparr>)"
| cancel: "acct_status a \<in> {REQUIRES_CONFIRMATION, AUTHORIZED} \<Longrightarrow> account_step a (a\<lparr>acct_status := CANCELED\<rparr>)"
| refund: "acct_status a \<in> {CAPTURED, PARTIALLY_REFUNDED} \<Longrightarrow> 0 < n \<Longrightarrow> acct_refunded a + n \<le> acct_captured a \<Longrightarrow>
    account_step a (a\<lparr>acct_refunded := acct_refunded a + n,
      acct_status := (if acct_refunded a + n = acct_captured a then REFUNDED else PARTIALLY_REFUNDED)\<rparr>)"

type_synonym ledger = "uuid \<rightharpoonup> account"

inductive ledger_step :: "ledger \<Rightarrow> ledger \<Rightarrow> bool" where
  open_account: "m i = None \<Longrightarrow> opened a \<Longrightarrow> ledger_step m (m(i \<mapsto> a))"
| move: "m i = Some a \<Longrightarrow> account_step a b \<Longrightarrow> ledger_step m (m(i \<mapsto> b))"
| stay: "ledger_step m m"

inductive_cases account_stepE: "account_step a b"
inductive_cases ledger_stepE: "ledger_step m n"

section \<open>Abstraction\<close>

definition account_of :: "Payment \<Rightarrow> account" where
  "account_of p = \<lparr> acct_owner = pay_owner_id p, acct_currency = pay_currency p, acct_amount = pay_amount p,
     acct_captured = pay_amount_captured p, acct_refunded = pay_amount_refunded p, acct_status = pay_status p \<rparr>"

definition abs_ledger :: "tables \<Rightarrow> ledger" where
  "abs_ledger t = map_of (map (\<lambda>p. (pay_id p, account_of p)) (payments t))"

lemma abs_ledger_cong: "payments t = payments s \<Longrightarrow> abs_ledger t = abs_ledger s"
  by (simp add: abs_ledger_def)

lemma abs_ledger_None: "i \<notin> pay_id ` set (payments t) \<Longrightarrow> abs_ledger t i = None"
  by (force simp: abs_ledger_def map_of_eq_None_iff)

lemma abs_ledger_Some:
  "q \<in> set (payments t) \<Longrightarrow> distinct (map pay_id (payments t)) \<Longrightarrow> abs_ledger t (pay_id q) = Some (account_of q)"
  by (simp add: abs_ledger_def comp_def)

lemma abs_ledger_new:
  assumes "payments t' = payments t @ [p]" and "pay_id p \<notin> pay_id ` set (payments t)"
  shows "abs_ledger t' = (abs_ledger t)(pay_id p \<mapsto> account_of p)"
proof
  fix i
  have "abs_ledger t (pay_id p) = None" using assms(2) by (rule abs_ledger_None)
  then show "abs_ledger t' i = ((abs_ledger t)(pay_id p \<mapsto> account_of p)) i"
    using assms(1) by (auto simp: abs_ledger_def map_add_def split: option.splits)
qed

lemma map_of_replace:
  "key p \<in> key ` set xs \<Longrightarrow>
     map_of (map (\<lambda>x. (key x, f x)) (replace_by key p xs)) = (map_of (map (\<lambda>x. (key x, f x)) xs))(key p \<mapsto> f p)"
proof (induction xs)
  case (Cons x xs)
  show ?case
  proof (cases "key p \<in> key ` set xs")
    case True
    then show ?thesis using Cons.IH by (auto simp: replace_by_def fun_eq_iff)
  next
    case False
    then have "replace_by key p xs = xs" by (rule replace_by_fresh)
    then show ?thesis using Cons.prems False by (auto simp: replace_by_def fun_eq_iff)
  qed
qed simp

lemma abs_ledger_update:
  assumes "payments t' = replace_by pay_id p (payments t)" and "q \<in> set (payments t)" and "pay_id p = pay_id q"
  shows "abs_ledger t' = (abs_ledger t)(pay_id p \<mapsto> account_of p)"
  using map_of_replace [of pay_id p "payments t" account_of] assms by (auto simp: abs_ledger_def)

lemma moved:
  assumes "ledger_ok t" and "q \<in> set (payments t)" and "payments t' = replace_by pay_id p (payments t)" and "pay_id p = pay_id q"
    and "account_step (account_of q) (account_of p)"
  shows "ledger_step (abs_ledger t) (abs_ledger t')"
proof -
  have "abs_ledger t (pay_id p) = Some (account_of q)" using abs_ledger_Some assms(1,2,4) by (simp add: ledger_ok_def)
  then show ?thesis unfolding abs_ledger_update [OF assms(3,2,4)] using assms(5) by (rule ledger_step.move)
qed

section \<open>The services\<close>

text \<open>A service call that returned; a capture's explicit amount is positive, as its schema demands.\<close>

inductive service_op :: "'e platform \<Rightarrow> GatewayManager \<Rightarrow> 'e world \<Rightarrow> 'e world \<Rightarrow> bool" for P gm where
  charged: "create_payment P gm owner provider amount cm mt token descr cust metadata key u = (Inr p, x) \<Longrightarrow> service_op P gm u x"
| captured: "capture_payment P gm owner i amount u = (Inr p, x) \<Longrightarrow> (\<And>m. amount = Some m \<Longrightarrow> 0 < minor_units m) \<Longrightarrow>
    service_op P gm u x"
| canceled: "cancel_payment P gm owner i u = (Inr p, x) \<Longrightarrow> service_op P gm u x"
| refunded: "create_refund P gm owner i minor reason u = (Inr r, x) \<Longrightarrow> service_op P gm u x"

lemma service_op_ledger:
  assumes "service_op P gm u x" and "pending u = []" and "ledger_ok (objs u)" and "enforces_unique P" and "honest_stripe P"
  shows "ledger_ok (view x)"
  using assms(1) unfolding view_def
  by cases (use assms(2-5) in \<open>auto intro: create_keeps_ledger capture_keeps_ledger cancel_keeps_ledger refund_keeps_ledger\<close>)

lemma service_op_rows:
  assumes "service_op P gm u x" and "pending u = []" and "ledger_ok (objs u)" and "enforces_unique P"
  shows "rows_step (objs u) (view x)"
  using assms(1) unfolding view_def
  by cases (use assms(2-4) in \<open>auto simp: ledger_ok_def intro: create_rows capture_rows cancel_rows refund_rows\<close>)

lemma create_refines:
  assumes run: "create_payment P gm owner provider amount cm mt token descr cust metadata key u = (Inr p, x)"
    and "pending u = []" and "ledger_ok (objs u)" and "enforces_unique P" and "honest_stripe P"
  shows "ledger_step (abs_ledger (objs u)) (abs_ledger (view x))"
  using run assms(2)
proof (rule create_payment_Inr)
  fix p0 i now charge and adapter :: "'a BasePaymentProvider" and rq v v' v'' a
  assume p0: "p0 = new_payment owner provider amount cm mt descr cust metadata i now"
    and tr: "can_transition REQUIRES_CONFIRMATION (chg_status charge)"
    and p: "p = fst (apply_charge charge (p0\<lparr>pay_provider_reference := Some (chg_reference charge)\<rparr>))"
    and pend: "pending x = [AuditLogRow a]"
  have new: "pay_id p \<notin> pay_id ` set (payments (objs u))" "payments (view x) = payments (objs u) @ [p]"
    using created_row [OF run assms(2,4)] pend by (simp_all add: view_def)
  have "payment_ok p"
    using create_keeps_ledger [OF assms] new(2) by (simp add: ledger_ok_def view_def)
  then have "opened (account_of p)"
    using p p0 tr by (cases "chg_status charge") (auto simp: payment_ok_def opened_def account_of_def)
  then show ?thesis
    unfolding abs_ledger_new [OF new(2,1)] by (intro ledger_step.open_account abs_ledger_None new(1))
qed

lemma capture_refines:
  assumes run: "capture_payment P gm owner i amount u = (Inr p, x)" and "pending u = []" and "ledger_ok (objs u)"
    and "honest_stripe P" and "\<And>m. amount = Some m \<Longrightarrow> 0 < minor_units m"
  shows "ledger_step (abs_ledger (objs u)) (abs_ledger (view x))"
  using run
proof (rule capture_payment_Inr)
  fix q m charge
  assume q: "q \<in> set (payments (objs u))" and st: "pay_status q = AUTHORIZED"
    and m: "case amount of Some x \<Rightarrow> m = x | None \<Rightarrow> Money (pay_amount q) (pay_currency q) = Inr m"
    and p: "p = q\<lparr>pay_status := CAPTURED,
           pay_amount_captured := (if chg_amount_captured charge \<noteq> 0 then chg_amount_captured charge else minor_units m)\<rparr>"
    and x: "objs x = (objs u)\<lparr>payments := replace_by pay_id p (payments (objs u))\<rparr>"
    and pend: "\<exists>a. pending x = pending u @ [AuditLogRow a]"
  have pay: "payments (view x) = replace_by pay_id p (payments (objs u))" using x pend assms(2) by (auto simp: view_def)
  have "payment_ok q" "payment_ok p"
    using q assms(3) capture_keeps_ledger [OF assms] pay p
    by (auto simp: ledger_ok_def replace_by_mem simp flip: view_def)
  moreover have "pay_amount_captured p \<noteq> 0"
    using p m assms(5) \<open>payment_ok q\<close> by (auto simp: payment_ok_def dest: Money_wf split: option.splits)
  ultimately have "account_step (account_of q)
      ((account_of q)\<lparr>acct_captured := pay_amount_captured p, acct_status := CAPTURED\<rparr>)"
    using st p by (intro account_step.capture) (auto simp: account_of_def payment_ok_def)
  then have "account_step (account_of q) (account_of p)" using p by (simp add: account_of_def)
  then show ?thesis using p by (intro moved [OF assms(3) q pay]) simp_all
qed

lemma cancel_refines:
  assumes run: "cancel_payment P gm owner i u = (Inr p, x)" and "pending u = []" and "ledger_ok (objs u)"
  shows "ledger_step (abs_ledger (objs u)) (abs_ledger (view x))"
  using run
proof (rule cancel_payment_Inr)
  fix q
  assume q: "q \<in> set (payments (objs u))" and tr: "can_transition (pay_status q) CANCELED" and p: "p = q\<lparr>pay_status := CANCELED\<rparr>"
    and x: "objs x = (objs u)\<lparr>payments := replace_by pay_id p (payments (objs u))\<rparr>"
    and pend: "\<exists>a. pending x = pending u @ [AuditLogRow a]"
  have pay: "payments (view x) = replace_by pay_id p (payments (objs u))" using x pend assms(2) by (auto simp: view_def)
  have "account_step (account_of q) ((account_of q)\<lparr>acct_status := CANCELED\<rparr>)"
    using tr by (intro account_step.cancel) (cases "pay_status q"; simp add: account_of_def)
  then have "account_step (account_of q) (account_of p)" using p by (simp add: account_of_def)
  then show ?thesis using p by (intro moved [OF assms(3) q pay]) simp_all
qed

lemma refund_refines:
  assumes run: "create_refund P gm owner i minor reason u = (Inr r, x)" and "pending u = []" and "ledger_ok (objs u)"
  shows "ledger_step (abs_ledger (objs u)) (abs_ledger (view x))"
  using run assms(2)
proof (rule create_refund_Inr)
  fix q p a
  assume q: "q \<in> set (payments (objs u))" and st: "pay_status q = CAPTURED \<or> pay_status q = PARTIALLY_REFUNDED"
    and pos: "0 < rfd_amount r" and le: "rfd_amount r \<le> amount_refundable q"
    and p: "p = q\<lparr>pay_amount_refunded := pay_amount_refunded q + rfd_amount r,
               pay_status := (if pay_amount_refunded q + rfd_amount r \<ge> pay_amount_captured q then REFUNDED
                              else PARTIALLY_REFUNDED)\<rparr>"
    and x: "objs x = (objs u)\<lparr>payments := replace_by pay_id p (payments (objs u)), refunds := refunds (objs u) @ [r]\<rparr>"
    and pend: "pending x = [AuditLogRow a]"
  have pay: "payments (view x) = replace_by pay_id p (payments (objs u))" using x pend by (simp add: view_def)
  have within: "pay_amount_refunded q + rfd_amount r \<le> pay_amount_captured q" using pos le by (simp add: amount_refundable_def max_def split: if_splits)
  then have exact: "pay_amount_refunded q + rfd_amount r \<ge> pay_amount_captured q \<longleftrightarrow>
      pay_amount_refunded q + rfd_amount r = pay_amount_captured q" by auto
  have "account_step (account_of q) ((account_of q)\<lparr>acct_refunded := acct_refunded (account_of q) + rfd_amount r,
      acct_status := (if acct_refunded (account_of q) + rfd_amount r = acct_captured (account_of q) then REFUNDED
                      else PARTIALLY_REFUNDED)\<rparr>)"
    using st pos within by (intro account_step.refund) (auto simp: account_of_def)
  then have "account_step (account_of q) (account_of p)" using p by (simp add: account_of_def exact)
  then show ?thesis using p by (intro moved [OF assms(3) q pay]) simp_all
qed

lemma service_op_refines:
  assumes "service_op P gm u x" and "pending u = []" and "ledger_ok (objs u)" and "enforces_unique P" and "honest_stripe P"
  shows "ledger_step (abs_ledger (objs u)) (abs_ledger (view x))"
  using assms(1)
  by cases (use assms(2-5) in \<open>auto intro: create_refines capture_refines cancel_refines refund_refines\<close>)

section \<open>The endpoints\<close>

text \<open>Whatever does not move money leaves the payments and the refunds alone.\<close>

fun payment_row :: "row \<Rightarrow> Payment option" where
  "payment_row (PaymentRow r) = Some r" | "payment_row _ = None"

definition books :: "tables \<Rightarrow> Payment list \<times> Refund list" where
  "books t = (payments t, refunds t)"

lemma books_simps [simp]:
  "books (t\<lparr>users := us\<rparr>) = books t" "books (t\<lparr>api_keys := ks\<rparr>) = books t" "books (t\<lparr>idempotency_keys := rs\<rparr>) = books t"
  by (simp_all add: books_def)

lemma books_insert: "payment_row r = None \<Longrightarrow> refund_row r = None \<Longrightarrow> books (insert_row r t) = books t"
  by (cases r) (simp_all add: books_def)

lemma books_fold: "books t = books s \<Longrightarrow> books (fold insert_row rs t) = books (fold insert_row rs s)"
proof (induction rs arbitrary: t s)
  case (Cons r rs)
  have "books (insert_row r t) = books (insert_row r s)" using Cons.prems by (cases r) (simp_all add: books_def)
  from Cons.IH [OF this] show ?case by simp
qed simp

lemma books_add:
  "(\<And>i now. payment_row (row_of (mk i now)) = None \<and> refund_row (row_of (mk i now)) = None) \<Longrightarrow>
     keeps (\<lambda>v. books (view v) = B) (add_row P row_of mk)"
  by (simp add: keeps_def add_row_def Let_def view_def books_insert split: prod.splits)

lemma books_steps:
  "keeps (\<lambda>v. books (view v) = B) (flush P)" "keeps (\<lambda>v. books (view v) = B) (put_user u)"
  "keeps (\<lambda>v. books (view v) = B) (put_api_key k)" "keeps (\<lambda>v. books (view v) = B) (audit_record P action actor rt ri ctx)"
proof -
  show "keeps (\<lambda>v. books (view v) = B) (put_user u)" "keeps (\<lambda>v. books (view v) = B) (put_api_key k)"
    by (simp_all add: keeps_def put_user_def put_api_key_def op_simps view_def books_fold [OF books_simps(1)]
        books_fold [OF books_simps(2)])
  show "keeps (\<lambda>v. books (view v) = B) (audit_record P action actor rt ri ctx)"
    by (auto simp: audit_record_def intro!: keeps_intros books_add)
qed (auto simp: keeps_def flush_def Let_def view_def)

interpretation books: account_invariant P "\<lambda>v. books (view v) = B" for P B
proof unfold_locales
  have env: "books (view s) = B \<Longrightarrow> books (view (s\<lparr>env := e\<rparr>)) = B" for s :: "'a world" and e by simp
  show "keeps (\<lambda>v. books (view v) = B) (register P email password full_name MERCHANT)" for email password full_name
    by (auto simp: register_def Let_def env intro!: keeps_intros books_steps books_add)
  show "keeps (\<lambda>v. books (view v) = B) (authenticate P email password)" for email password
    by (auto simp: authenticate_def Let_def env intro!: keeps_intros books_steps)
qed (auto simp: same_session_view intro!: books_steps books_add)

text \<open>A request that succeeded left the books alone, or ran one service call after authentication.\<close>

definition served :: "'e platform \<Rightarrow> GatewayManager \<Rightarrow> 'e world \<Rightarrow> 'e world \<Rightarrow> bool" where
  "served P gm w v \<longleftrightarrow> books (view v) = books (objs w) \<or>
     (\<exists>u x. service_op P gm u x \<and> pending u = [] \<and> books (objs u) = books (objs w) \<and> books (view v) = books (view x))"

lemma store_books:
  assumes "store P owner name key body status resp x = (Inr y, v)"
  shows "books (view v) = books (view x)"
  using assms by (auto simp: store_def op_splits view_def)

lemma served_keyed:
  assumes "with_idempotency P owner name key body action u = (Inr s, v)" and "pending u = []"
    and "\<And>j x. action u = (Inr j, x) \<Longrightarrow> service_op P gm u x"
  shows "served P gm u v"
proof (cases "\<exists>cached. (case key of None \<Rightarrow> return None | Some k \<Rightarrow> if k = [] then return None else lookup owner name k body) u
      = (Inr (Some cached), v)")
  case True
  then have "v = u" by (auto simp: op_splits split: option.splits if_splits dest: lookup_reads)
  then show ?thesis using assms(2) by (simp add: served_def view_def)
next
  case False
  then obtain j x where "action u = (Inr j, x)" "books (view v) = books (view x)"
    using assms(1)
    by (auto simp: with_idempotency_def op_splits split: option.splits if_splits dest!: lookup_reads store_books)
  then show ?thesis using assms(2,3) by (auto simp: served_def)
qed

lemma served_cong: "served P gm u v \<Longrightarrow> books (objs u) = books (objs w) \<Longrightarrow> served P gm w v"
  by (simp add: served_def)

lemma action_served:
  "charge_action P app user payload key u = (Inr j, x) \<Longrightarrow> service_op P (app_gateway app) u x"
  "refund_action P app user i request u = (Inr j, x) \<Longrightarrow> service_op P (app_gateway app) u x"
  by (auto simp: charge_action_def refund_action_def op_splits intro: service_op.charged service_op.refunded)

lemma after_scope:
  assumes "require_scope P app hs sc w = (Inr user, u)" and "pending w = []"
  shows "pending u = []" and "books (objs u) = books (objs w)"
  using assms by (auto elim: require_scope_Inr)

lemma capture_served:
  assumes "api_capture_payment P app hs i amount w = (Inr resp, v)" and "pending w = []" and "validate_capture amount"
  shows "served P (app_gateway app) w v"
proof -
  from assms(1) obtain user u payment x m where scope: "require_scope P app hs SCOPE_PAYMENTS_WRITE w = (Inr user, u)"
    and "get_payment user i u = (Inr payment, x)"
    and m: "case amount of None \<Rightarrow> m = None | Some a \<Rightarrow> \<exists>k. Money a (pay_currency payment) = Inr k \<and> m = Some k"
    and run: "\<exists>p. capture_payment P (app_gateway app) user i m x = (Inr p, v)"
    by (cases amount) (fastforce simp: api_capture_payment_def op_splits)+
  moreover have "x = u" using calculation(2) by (auto simp: get_payment_def require_payment_def get_for_owner_def op_splits split: option.splits)
  moreover have "\<And>k. m = Some k \<Longrightarrow> 0 < minor_units k"
    using m assms(3) by (auto simp: validate_capture_def amount_in_range_def dest: Money_wf split: option.splits)
  ultimately have "service_op P (app_gateway app) u v" by (auto intro: service_op.captured)
  then show ?thesis using after_scope [OF scope assms(2)] by (auto simp: served_def)
qed

lemma cancel_served:
  assumes "api_cancel_payment P app hs i w = (Inr resp, v)" and "pending w = []"
  shows "served P (app_gateway app) w v"
proof -
  from assms(1) obtain user u p where scope: "require_scope P app hs SCOPE_PAYMENTS_WRITE w = (Inr user, u)"
    and "cancel_payment P (app_gateway app) user i u = (Inr p, v)"
    by (auto simp: api_cancel_payment_def op_splits)
  then have "service_op P (app_gateway app) u v" by (auto intro: service_op.canceled)
  then show ?thesis using after_scope [OF scope assms(2)] by (auto simp: served_def)
qed

lemma keyed_served:
  assumes "api_create_payment P app hs payload w = (Inr resp, v) \<or> api_create_refund P app hs i request w = (Inr resp, v)"
    and "pending w = []"
  shows "served P (app_gateway app) w v"
  using assms(1)
proof
  assume "api_create_payment P app hs payload w = (Inr resp, v)"
  then obtain user u s where scope: "require_scope P app hs SCOPE_PAYMENTS_WRITE w = (Inr user, u)"
    and run: "with_idempotency P (usr_id user) CREATE_ENDPOINT (map_of hs ''idempotency-key'') (dump_create payload)
      (charge_action P app user payload (map_of hs ''idempotency-key'')) u = (Inr s, v)"
    by (auto simp: api_create_payment_def Let_def op_splits)
  note u = after_scope [OF scope assms(2)]
  show ?thesis by (rule served_cong [OF served_keyed [OF run u(1) action_served(1)] u(2)])
next
  assume "api_create_refund P app hs i request w = (Inr resp, v)"
  then obtain user u s where scope: "require_scope P app hs SCOPE_REFUNDS_WRITE w = (Inr user, u)"
    and run: "with_idempotency P (usr_id user) REFUND_ENDPOINT (map_of hs ''idempotency-key'') (dump_refund i request)
      (refund_action P app user i request) u = (Inr s, v)"
    by (auto simp: api_create_refund_def op_splits)
  note u = after_scope [OF scope assms(2)]
  show ?thesis by (rule served_cong [OF served_keyed [OF run u(1) action_served(2)] u(2)])
qed

lemma served_endpoint:
  assumes "endpoint_of P app hs c w = (Inr resp, v)" and "pending w = []" and "well_formed c"
  shows "served P (app_gateway app) w v"
proof (cases "moves_money c")
  case True
  then show ?thesis
    using assms by (cases c) (auto intro: keyed_served capture_served cancel_served)
next
  case False
  then have "books (view v) = books (view w)"
    using keepsD [OF books.keeps_quiet_endpoint assms(1), of "books (view w)"] by simp
  then show ?thesis using assms(2) by (simp add: served_def view_def)
qed

section \<open>Requests and runs\<close>

lemma ledger_ok_books: "books t = books s \<Longrightarrow> ledger_ok t = ledger_ok s"
  by (simp add: books_def ledger_ok_def)

lemma request_served:
  assumes "session_scope P (endpoint_of P app hs c) w = (r, v)" and "well_formed c"
  obtains (unchanged) "books (committed v) = books (committed w)"
  | (moved) u x where "service_op P (app_gateway app) u x" and "pending u = []"
      and "books (objs u) = books (committed w)" and "books (committed v) = books (view x)"
  using assms(1)
proof (cases rule: session_scope_cases)
  case (raised e)
  then show thesis using endpoint.failure_leaves_no_trace assms(1) unchanged by metis
next
  case (returned a u)
  from served_endpoint [OF returned(2) _ assms(2)] show thesis
    using returned(3) unchanged moved by (auto simp: served_def)
qed

lemma request_ledger:
  assumes "session_scope P (endpoint_of P app hs c) w = (r, v)" and "well_formed c" and "ledger_ok (committed w)"
    and "enforces_unique P" and "honest_stripe P"
  shows "ledger_ok (committed v) \<and> rows_step (committed w) (committed v) \<and>
    ledger_step (abs_ledger (committed w)) (abs_ledger (committed v))"
  using assms(1,2)
proof (cases rule: request_served)
  case unchanged
  then have "ledger_ok (committed v)" "payments (committed v) = payments (committed w)"
    using ledger_ok_books assms(3) by (simp_all add: books_def ledger_ok_def)
  then show ?thesis by (auto simp: rows_step_def abs_ledger_def intro!: ledger_step.stay intro: row_step_refl)
next
  case (moved u x)
  have eq: "payments (objs u) = payments (committed w)" "payments (view x) = payments (committed v)"
    using moved(3,4) by (simp_all add: books_def)
  have ok: "ledger_ok (objs u)" using ledger_ok_books [OF moved(3)] assms(3) by simp
  note op = moved(1,2) ok assms(4,5)
  have "ledger_ok (committed v)" using service_op_ledger [OF op] ledger_ok_books [OF moved(4)] by simp
  moreover have "rows_step (committed w) (committed v)"
    using service_op_rows [OF op(1-4)] eq by (simp add: rows_step_def)
  moreover have "ledger_step (abs_ledger (committed w)) (abs_ledger (committed v))"
    using service_op_refines [OF op] abs_ledger_cong [OF eq(1)] abs_ledger_cong [OF eq(2)] by simp
  ultimately show ?thesis by blast
qed

lemma api_run_ledger:
  assumes "api_run P app w v" and "ledger_ok (committed w)" and "enforces_unique P" and "honest_stripe P"
  shows "ledger_ok (committed v)"
  using assms(1,2) by (rule api_run_committed) (use request_ledger assms(3,4) in blast)

lemma api_step_cases:
  assumes "api_step P app u v"
  obtains (idle) "committed v = committed u"
  | (request) hs c r where "well_formed c" and "session_scope P (endpoint_of P app hs c) u = (r, v)"
  using assms
proof cases
  case (request c hs resp)
  then show thesis using that(2) by (auto elim: run_call_session)
qed (rule that(1))

lemma api_run_steps:
  assumes "api_run P app w v" and "ledger_ok (committed w)" and "enforces_unique P" and "honest_stripe P"
    and "\<And>t. Q t t" and step: "\<And>t s u. Q t s \<Longrightarrow> ledger_ok s \<Longrightarrow> rows_step s u \<Longrightarrow>
      ledger_step (abs_ledger s) (abs_ledger u) \<Longrightarrow> Q t u"
  shows "Q (committed w) (committed v)"
  using assms(1,2)
proof (induction rule: api_run.induct)
  case (step w u v)
  have ok: "ledger_ok (committed u)" using api_run_ledger [OF step(1) step.prems assms(3,4)] .
  from step(2) show ?case
  proof (cases rule: api_step_cases)
    case (request hs c r)
    then show ?thesis
      using request_ledger [OF request(2,1) ok assms(3,4)] ok step.IH [OF step.prems] assms(6) by blast
  qed (use step.IH step.prems in simp)
qed (rule assms(5))

section \<open>An example\<close>

lemma demo_api_run:
  obtains v p where "api_run sandbox demo_app (role_world MERCHANT) v" and "payments (committed v) = [p]"
    and "pay_status p = CAPTURED" and "pay_amount_captured p = 1000" and "ledger_ok (committed (role_world MERCHANT))"
    and "payments (committed (role_world MERCHANT)) = []" and "ledger_ok (committed v)"
proof -
  obtain resp v p where run: "session_scope sandbox (endpoint_of sandbox demo_app keyed (CreatePayment demo_payload))
      (role_world MERCHANT) = (Inr resp, v)" and p: "pay_status p = CAPTURED" "pay_amount_captured p = 1000"
      "payments (committed v) = [p]"
    using demo_charge by auto
  have up: "upper ''USD'' = ''USD''" by code_simp
  have "validate_create demo_payload = Some demo_payload"
    by (simp add: validate_create_def known_currency_def max_length_def amount_in_range_def demo_payload_def up
        is_supported_currency_def CURRENCY_EXPONENTS_def)
  then have "well_formed (CreatePayment demo_payload)" by auto
  then have "api_step sandbox demo_app (role_world MERCHANT) v"
    by (rule api_step.request [where hs = keyed and resp = resp]) (use run in \<open>simp add: run_call_def\<close>)
  then have steps: "api_run sandbox demo_app (role_world MERCHANT) v" by (rule api_run.step [OF api_run.start])
  have w: "payments (committed (role_world MERCHANT)) = []" "refunds (committed (role_world MERCHANT)) = []"
    by (simp_all add: role_world_def empty_tables_def)
  then have "ledger_ok (committed (role_world MERCHANT))" by (simp add: ledger_ok_def)
  then show thesis using that [OF steps p(3,1,2) _ w(1)] api_run_ledger [OF steps _ sandbox_assumptions(1,2)] by blast
qed

section \<open>Properties\<close>

text \<open>C2. The interface refines the abstract ledger.  Seen as accounts, what any sequence of requests
  does to the database is a sequence of moves of the specification: opening an account for a
  positive amount, capturing an authorized one once and at most in full, canceling one before
  capture, refunding within what was captured.\<close>

theorem api_refines_ledger:
  assumes "api_run P app w v" and "ledger_ok (committed w)" and "enforces_unique P" and "honest_stripe P"
  shows "ledger_step\<^sup>*\<^sup>* (abs_ledger (committed w)) (abs_ledger (committed v))"
  using assms
  by (rule api_run_steps [where Q = "\<lambda>t s. ledger_step\<^sup>*\<^sup>* (abs_ledger t) (abs_ledger s)"])
    (auto intro: rtranclp.rtrancl_into_rtrancl)

theorem api_refines_ledger_witness:
  "\<exists>v i a. api_run sandbox demo_app (role_world MERCHANT) v \<and> abs_ledger (committed v) i = Some a \<and> acct_captured a = 1000 \<and>
     ledger_step\<^sup>*\<^sup>* Map.empty (abs_ledger (committed v))"
proof -
  obtain v p where run: "api_run sandbox demo_app (role_world MERCHANT) v" and p: "payments (committed v) = [p]"
    "pay_amount_captured p = 1000" and ok: "ledger_ok (committed (role_world MERCHANT))"
    and w: "payments (committed (role_world MERCHANT)) = []" by (rule demo_api_run)
  from api_refines_ledger [OF run ok sandbox_assumptions(1,2)] w run p show ?thesis
    by (intro exI [of _ v] exI [of _ "pay_id p"] exI [of _ "account_of p"]) (simp add: abs_ledger_def account_of_def)
qed

text \<open>C1. Money is conserved at the interface: whatever sequence of requests anyone sends, each payment
  has captured at most its amount and refunded at most what it captured, the refunded total is
  the sum of its refund rows, and it is \<open>refunded\<close> exactly when it captured something and gave
  all of it back.\<close>

theorem api_conserves_money:
  assumes "api_run P app w v" and "ledger_ok (committed w)" and "enforces_unique P" and "honest_stripe P"
    and "p \<in> set (payments (committed v))"
  shows "0 \<le> pay_amount_refunded p \<and> pay_amount_refunded p \<le> pay_amount_captured p \<and>
    pay_amount_captured p \<le> pay_amount p \<and>
    pay_amount_refunded p = refund_total (pay_id p) (refunds (committed v)) \<and>
    (pay_status p = REFUNDED \<longleftrightarrow> 0 < pay_amount_captured p \<and> pay_amount_refunded p = pay_amount_captured p)"
proof -
  have "payment_ok p" "pay_amount_refunded p = refund_total (pay_id p) (refunds (committed v))"
    using api_run_ledger [OF assms(1-4)] assms(5) by (auto simp: ledger_ok_def)
  then show ?thesis by (cases "pay_status p") (auto simp: payment_ok_def)
qed

theorem api_conserves_money_witness:
  "\<exists>v p. api_run sandbox demo_app (role_world MERCHANT) v \<and> p \<in> set (payments (committed v)) \<and>
     pay_amount_captured p = 1000 \<and> 1000 \<le> pay_amount p \<and> refund_total (pay_id p) (refunds (committed v)) \<le> 1000"
proof -
  obtain v p where run: "api_run sandbox demo_app (role_world MERCHANT) v" and p: "payments (committed v) = [p]"
    "pay_amount_captured p = 1000" and ok: "ledger_ok (committed (role_world MERCHANT))" by (rule demo_api_run)
  from api_conserves_money [OF run ok sandbox_assumptions(1,2), of p] run p show ?thesis by auto
qed

text \<open>C3. A payment is never deleted, and its owner, provider, amount, currency and reference never
  change; its state moves along the state machine only, and a terminal one is final.\<close>

theorem api_payment_history:
  assumes "api_run P app w v" and "ledger_ok (committed w)" and "enforces_unique P" and "honest_stripe P"
    and "p \<in> set (payments (committed w))"
  shows "\<exists>q \<in> set (payments (committed v)). pay_id q = pay_id p \<and> pay_owner_id q = pay_owner_id p \<and>
    pay_provider q = pay_provider p \<and> pay_amount q = pay_amount p \<and> pay_currency q = pay_currency p \<and>
    pay_provider_reference q = pay_provider_reference p \<and> pay_amount_refunded p \<le> pay_amount_refunded q \<and>
    can_transition\<^sup>*\<^sup>* (pay_status p) (pay_status q) \<and> (pay_status p \<in> set TERMINAL_STATES \<longrightarrow> q = p)"
proof -
  have "\<forall>p \<in> set (payments (committed w)). \<exists>q \<in> set (payments (committed v)). row_history p q"
    using assms(1-4)
  proof (rule api_run_steps [where Q = "\<lambda>t s. \<forall>p \<in> set (payments t). \<exists>q \<in> set (payments s). row_history p q"])
    show "\<forall>p \<in> set (payments t). \<exists>q \<in> set (payments t). row_history p q" for t using row_history_refl by blast
    show "\<forall>p \<in> set (payments t). \<exists>q \<in> set (payments u). row_history p q"
      if "\<forall>p \<in> set (payments t). \<exists>q \<in> set (payments s). row_history p q" "rows_step s u" for t s u
      using that row_history_step unfolding rows_step_def by blast
  qed
  then show ?thesis using assms(5) unfolding row_history_def by blast
qed

theorem api_payment_history_witness:
  "\<exists>v p. api_run sandbox demo_app (role_world MERCHANT) v \<and> pay_status (p :: Payment) = CAPTURED \<and>
     (\<exists>q \<in> set (payments (committed v)). pay_id q = pay_id p \<and> can_transition\<^sup>*\<^sup>* CAPTURED (pay_status q))"
proof -
  obtain v p where run: "api_run sandbox demo_app (role_world MERCHANT) v" and p: "payments (committed v) = [p]"
    "pay_status p = CAPTURED" and ok: "ledger_ok (committed v)" by (rule demo_api_run)
  have "p \<in> set (payments (committed v))" using p(1) by simp
  from api_payment_history [OF api_run.start ok sandbox_assumptions(1,2) this] obtain q
    where "q \<in> set (payments (committed v))" "pay_id q = pay_id p" "can_transition\<^sup>*\<^sup>* CAPTURED (pay_status q)"
    using p(2) by auto
  then show ?thesis using run p(2) by blast
qed

end
