(* ===== verification/Rate_Limit.thy ===== *)
theory Rate_Limit
  imports Errors
begin

text \<open>
  The rate limiter of \<^verbatim>\<open>app/core/rate_limit.py\<close>: the protocol \<open>RateLimiter\<close> as a locale, and
  the fixed-window \<open>InMemoryRateLimiter\<close>, which is an instance of it.  A whole hit happens
  under the limiter's lock, so a run is a sequence of hits.
\<close>

section \<open>The limiter\<close>

record RateLimitResult =
  rl_allowed :: bool
  rl_remaining :: int
  rl_retry_after :: int

record InMemoryRateLimiter =
  rl_limit :: int
  rl_window :: int
  rl_buckets :: "string \<rightharpoonup> rat \<times> int"

definition new_limiter :: "int \<Rightarrow> int \<Rightarrow> InMemoryRateLimiter" where
  "new_limiter limit window_seconds =
     \<lparr> rl_limit = limit, rl_window = window_seconds, rl_buckets = Map.empty \<rparr>"

lemma new_limiter_simps [simp]:
  "rl_limit (new_limiter limit window) = limit" "rl_window (new_limiter limit window) = window"
  "rl_buckets (new_limiter limit window) k = None"
  by (simp_all add: new_limiter_def)

text \<open>Python's \<open>int\<close> of a float py_truncs towards zero.\<close>

definition py_trunc :: "rat \<Rightarrow> int" where
  "py_trunc r = (if 0 \<le> r then \<lfloor>r\<rfloor> else \<lceil>r\<rceil>)"

definition bucket_at :: "rat \<Rightarrow> int \<Rightarrow> (rat \<times> int) option \<Rightarrow> rat \<times> int" where
  "bucket_at now window b =
     (let (window_start, count) = (case b of None \<Rightarrow> (now, 0) | Some sc \<Rightarrow> sc)
      in if now - window_start \<ge> of_int window then (now, 0) else (window_start, count))"

definition hit :: "rat \<Rightarrow> string \<Rightarrow> InMemoryRateLimiter \<Rightarrow> RateLimitResult \<times> InMemoryRateLimiter" where
  "hit now key l =
     (let (window_start, count0) = bucket_at now (rl_window l) (rl_buckets l key);
          count = count0 + 1;
          l' = l\<lparr>rl_buckets := (rl_buckets l)(key \<mapsto> (window_start, count))\<rparr>;
          remaining = max 0 (rl_limit l - count)
      in if count > rl_limit l
         then (\<lparr> rl_allowed = False, rl_remaining = 0,
                 rl_retry_after = py_trunc (of_int (rl_window l) - (now - window_start)) + 1 \<rparr>, l')
         else (\<lparr> rl_allowed = True, rl_remaining = remaining, rl_retry_after = 0 \<rparr>, l'))"

section \<open>The protocol\<close>

text \<open>
  A trace of hits (time and key), each answered by the limiter the previous ones left.
\<close>

fun serve ::
  "(rat \<Rightarrow> string \<Rightarrow> 'l \<Rightarrow> RateLimitResult \<times> 'l) \<Rightarrow> 'l \<Rightarrow> (rat \<times> string) list
   \<Rightarrow> ((rat \<times> string) \<times> RateLimitResult) list" where
  "serve h l [] = []"
| "serve h l ((t, k) # hs) = (case h t k l of (r, l') \<Rightarrow> ((t, k), r) # serve h l' hs)"

lemma serve_step [simp]:
  "serve h l ((t, k) # hs) = ((t, k), fst (h t k l)) # serve h (snd (h t k l)) hs"
  by (simp split: prod.splits)

declare serve.simps(2) [simp del]

text \<open>
  What a limiter promises: the part of it that a key sees (\<open>view\<close>) decides the answer to the
  key's hits, and only those hits change it; an answer that admits asks for no wait, one that
  refuses asks for at least a second, as long as its clock does not run backwards.
\<close>

locale rate_limiter =
  fixes h :: "rat \<Rightarrow> string \<Rightarrow> 'l \<Rightarrow> RateLimitResult \<times> 'l"
    and view :: "string \<Rightarrow> 'l \<Rightarrow> 'v"
    and seen_until :: "rat \<Rightarrow> 'l \<Rightarrow> bool"
  assumes view_other: "k \<noteq> k' \<Longrightarrow> view k' (snd (h t k l)) = view k' l"
    and view_answer: "view k l = view k m \<Longrightarrow> fst (h t k l) = fst (h t k m)"
    and view_after: "view k l = view k m \<Longrightarrow> view k (snd (h t k l)) = view k (snd (h t k m))"
    and clock_after: "seen_until t l \<Longrightarrow> t \<le> t' \<Longrightarrow> seen_until t' (snd (h t' k l))"
    and admitted: "rl_allowed (fst (h t k l)) \<Longrightarrow>
      0 \<le> rl_remaining (fst (h t k l)) \<and> rl_retry_after (fst (h t k l)) = 0"
    and refused: "seen_until t l \<Longrightarrow> t \<le> t' \<Longrightarrow> \<not> rl_allowed (fst (h t' k l)) \<Longrightarrow>
      1 \<le> rl_retry_after (fst (h t' k l))"
begin

lemma serve_isolated_view:
  assumes "view k l = view k m"
  shows "filter (\<lambda>((t, k'), r). k' = k) (serve h l hs) = serve h m (filter (\<lambda>(t, k'). k' = k) hs)"
  using assms
proof (induction hs arbitrary: l m)
  case Nil
  then show ?case by simp
next
  case (Cons x hs)
  obtain t k' where x: "x = (t, k')" by (cases x)
  show ?case
  proof (cases "k' = k")
    case True
    have "view k (snd (h t k l)) = view k (snd (h t k m))" using Cons.prems by (rule view_after)
    from Cons.IH [OF this] show ?thesis
      using True x view_answer [OF Cons.prems, of t] by simp
  next
    case False
    then have "view k (snd (h t k' l)) = view k m" using view_other [of k' k] Cons.prems by simp
    from Cons.IH [OF this] show ?thesis using False x by simp
  qed
qed

lemma serve_isolated:
  "filter (\<lambda>((t, k'), r). k' = k) (serve h l hs) = serve h l (filter (\<lambda>(t, k'). k' = k) hs)"
  by (rule serve_isolated_view) (rule refl)

lemma serve_waits_positive:
  assumes "seen_until t0 l" and "sorted (map fst hs)" and "\<forall>x \<in> set hs. t0 \<le> fst x"
    and "(x, r) \<in> set (serve h l hs)"
  shows "rl_allowed r \<longleftrightarrow> rl_retry_after r = 0"
  using assms
proof (induction hs arbitrary: l t0)
  case Nil
  then show ?case by simp
next
  case (Cons y hs)
  obtain t k where y: "y = (t, k)" by (cases y)
  have later: "seen_until t (snd (h t k l))"
    using Cons.prems y by (intro clock_after [of t0]) auto
  have "rl_allowed (fst (h t k l)) \<longleftrightarrow> rl_retry_after (fst (h t k l)) = 0"
    using admitted [of t k l] refused [of t0 l t k] Cons.prems y by force
  moreover have "rl_allowed r \<longleftrightarrow> rl_retry_after r = 0" if "(x, r) \<in> set (serve h (snd (h t k l)) hs)"
    using Cons.IH [OF later _ _ that] Cons.prems y by auto
  ultimately show ?case using Cons.prems(4) y by auto
qed

end

section \<open>The fixed-window limiter keeps the protocol\<close>

definition bucket_ok :: "rat \<Rightarrow> (rat \<times> int) option \<Rightarrow> bool" where
  "bucket_ok t b = (case b of None \<Rightarrow> True | Some (ws, c) \<Rightarrow> ws \<le> t \<and> 1 \<le> c)"

definition limiter_ok :: "rat \<Rightarrow> InMemoryRateLimiter \<Rightarrow> bool" where
  "limiter_ok t l \<longleftrightarrow> 0 < rl_window l \<and> (\<forall>k. bucket_ok t (rl_buckets l k))"

lemma hit_config [simp]:
  "rl_limit (snd (hit t k l)) = rl_limit l" "rl_window (snd (hit t k l)) = rl_window l"
  by (simp_all add: hit_def Let_def split: prod.splits)

lemma hit_other [simp]: "k \<noteq> k' \<Longrightarrow> rl_buckets (snd (hit t k l)) k' = rl_buckets l k'"
  by (auto simp: hit_def Let_def split: prod.splits)

lemma hit_bucket:
  "rl_buckets (snd (hit t k l)) k =
     Some (fst (bucket_at t (rl_window l) (rl_buckets l k)), snd (bucket_at t (rl_window l) (rl_buckets l k)) + 1)"
  by (simp add: hit_def Let_def split: prod.splits)

lemma hit_allowed:
  "rl_allowed (fst (hit t k l)) \<longleftrightarrow>
     snd (bucket_at t (rl_window l) (rl_buckets l k)) < rl_limit l"
  by (auto simp: hit_def Let_def split: prod.splits)

lemma hit_retry_after:
  "\<not> rl_allowed (fst (hit t k l)) \<Longrightarrow> rl_retry_after (fst (hit t k l)) =
     py_trunc (of_int (rl_window l) - (t - fst (bucket_at t (rl_window l) (rl_buckets l k)))) + 1"
  by (auto simp: hit_def Let_def split: prod.splits if_splits)

lemmas hit_facts = hit_bucket hit_allowed hit_retry_after

lemma bucket_at_range:
  assumes "0 < w" and "bucket_ok t0 b" and "t0 \<le> t"
  shows "fst (bucket_at t w b) \<le> t" and "t - fst (bucket_at t w b) < of_int w"
    and "0 \<le> snd (bucket_at t w b)"
  using assms by (auto simp: bucket_at_def bucket_ok_def Let_def split: option.splits prod.splits)

lemma bucket_ok_mono: "bucket_ok t b \<Longrightarrow> t \<le> t' \<Longrightarrow> bucket_ok t' b"
  by (auto simp: bucket_ok_def split: option.splits)

lemma limiter_ok_hit:
  assumes "limiter_ok t0 l" and "t0 \<le> t"
  shows "limiter_ok t (snd (hit t k l))"
  unfolding limiter_ok_def
proof (intro conjI allI)
  show "0 < rl_window (snd (hit t k l))" using assms by (simp add: limiter_ok_def)
  fix k'
  have b: "bucket_ok t0 (rl_buckets l k')" "0 < rl_window l" using assms by (auto simp: limiter_ok_def)
  show "bucket_ok t (rl_buckets (snd (hit t k l)) k')"
  proof (cases "k' = k")
    case True
    then show ?thesis
      using bucket_at_range [OF b(2) b(1) assms(2)] by (auto simp: hit_bucket bucket_ok_def)
  next
    case False
    then show ?thesis using b assms(2) by (simp add: bucket_ok_mono)
  qed
qed

lemma hit_refused_wait:
  assumes "limiter_ok t0 l" and "t0 \<le> t" and "\<not> rl_allowed (fst (hit t k l))"
  shows "rl_retry_after (fst (hit t k l)) =
           \<lfloor>of_int (rl_window l) - (t - fst (bucket_at t (rl_window l) (rl_buckets l k)))\<rfloor> + 1"
    and "1 \<le> rl_retry_after (fst (hit t k l))"
proof -
  have "t - fst (bucket_at t (rl_window l) (rl_buckets l k)) < of_int (rl_window l)"
    using assms by (intro bucket_at_range(2)) (auto simp: limiter_ok_def)
  then have pos: "0 \<le> of_int (rl_window l) - (t - fst (bucket_at t (rl_window l) (rl_buckets l k)))"
    by linarith
  then show "rl_retry_after (fst (hit t k l)) =
           \<lfloor>of_int (rl_window l) - (t - fst (bucket_at t (rl_window l) (rl_buckets l k)))\<rfloor> + 1"
    using assms(3) by (simp add: hit_retry_after py_trunc_def)
  then show "1 \<le> rl_retry_after (fst (hit t k l))" using pos by simp
qed

interpretation fixed_window: rate_limiter hit "\<lambda>k l. (rl_limit l, rl_window l, rl_buckets l k)" limiter_ok
proof unfold_locales
  fix k t and l :: InMemoryRateLimiter
  show "rl_allowed (fst (hit t k l)) \<Longrightarrow>
      0 \<le> rl_remaining (fst (hit t k l)) \<and> rl_retry_after (fst (hit t k l)) = 0"
    by (auto simp: hit_def Let_def split: prod.splits if_splits)
next
  fix t t' k and l :: InMemoryRateLimiter
  assume "limiter_ok t l" "t \<le> t'"
  then show "limiter_ok t' (snd (hit t' k l))" by (rule limiter_ok_hit)
  show "1 \<le> rl_retry_after (fst (hit t' k l))" if "\<not> rl_allowed (fst (hit t' k l))"
    using \<open>limiter_ok t l\<close> \<open>t \<le> t'\<close> that by (rule hit_refused_wait(2))
qed (auto simp: hit_def Let_def split: prod.splits)

section \<open>Counting the hits that are admitted\<close>

text \<open>The hits admitted at a time before \<open>b\<close>, in a trace of one key.\<close>

definition admitted_before :: "rat \<Rightarrow> ((rat \<times> string) \<times> RateLimitResult) list \<Rightarrow> int" where
  "admitted_before b rs = int (length (filter (\<lambda>((t, k), r). t < b \<and> rl_allowed r) rs))"

lemma admitted_before_simps [simp]:
  "admitted_before b [] = 0"
  "admitted_before b (((t, k), r) # rs) = (if t < b \<and> rl_allowed r then 1 else 0) + admitted_before b rs"
  by (simp_all add: admitted_before_def)

text \<open>Inside the window that is open, at most what is left of the limit.\<close>

lemma admitted_in_window:
  assumes "rl_buckets l k = Some (ws, c)" and "b \<le> ws + of_int (rl_window l)"
    and "\<forall>x \<in> set hs. snd x = k" and "sorted (map fst hs)"
  shows "admitted_before b (serve hit l hs) \<le> max 0 (rl_limit l - c)"
  using assms
proof (induction hs arbitrary: l c)
  case Nil
  then show ?case by simp
next
  case (Cons x hs)
  obtain t where x: "x = (t, k)" using Cons.prems(3) by (cases x) auto
  show ?case
  proof (cases "t < b")
    case True
    let ?l = "snd (hit t k l)"
    have at: "bucket_at t (rl_window l) (rl_buckets l k) = (ws, c)"
      using True Cons.prems(1,2) by (auto simp: bucket_at_def)
    then have "rl_buckets ?l k = Some (ws, c + 1)" by (simp add: hit_bucket)
    then have "admitted_before b (serve hit ?l hs) \<le> max 0 (rl_limit l - (c + 1))"
      using Cons.IH [of ?l "c + 1"] Cons.prems by simp
    then show ?thesis using True at x by (auto simp: hit_allowed)
  next
    case False
    then have "\<forall>y \<in> set hs. \<not> fst y < b" using Cons.prems(4) x by force
    then have "admitted_before b (serve hit m hs) = 0" for m
      by (induction hs arbitrary: m) auto
    then show ?thesis using False x by simp
  qed
qed

text \<open>Hits at or after \<open>a\<close>: what is left of a window opened before \<open>a\<close>, and at most one more.\<close>

lemma admitted_from:
  assumes "bucket_ok a (rl_buckets l k)" and "1 \<le> rl_limit l" and "0 < rl_window l"
    and "\<forall>x \<in> set hs. snd x = k \<and> a \<le> fst x" and "sorted (map fst hs)"
  shows "admitted_before (a + of_int (rl_window l)) (serve hit l hs) \<le>
    rl_limit l + (case rl_buckets l k of None \<Rightarrow> 0 | Some (ws, c) \<Rightarrow> max 0 (rl_limit l - c))"
  using assms
proof (induction hs arbitrary: l)
  case Nil
  then show ?case by (auto split: option.splits)
next
  case (Cons x hs)
  obtain t where x: "x = (t, k)" and t: "a \<le> t" using Cons.prems(4) by (cases x) auto
  let ?l = "snd (hit t k l)" and ?b = "a + of_int (rl_window l)"
  have tail: "\<forall>x \<in> set hs. snd x = k" "sorted (map fst hs)" using Cons.prems by auto
  have fresh: "admitted_before ?b (serve hit l ((t, k) # hs)) \<le> rl_limit l"
    if "bucket_at t (rl_window l) (rl_buckets l k) = (t, 0)"
  proof -
    have "rl_buckets ?l k = Some (t, 1)" using that by (simp add: hit_bucket)
    from admitted_in_window [OF this _ tail, of ?b]
    have "admitted_before ?b (serve hit ?l hs) \<le> max 0 (rl_limit l - 1)" using t by simp
    then show ?thesis using Cons.prems(2) by auto
  qed
  show ?case
  proof (cases "rl_buckets l k")
    case None
    then show ?thesis using fresh Cons.prems(3) x by (simp add: bucket_at_def)
  next
    case (Some sc)
    then obtain ws c where b: "rl_buckets l k = Some (ws, c)" by (cases sc) auto
    show ?thesis
    proof (cases "t - ws \<ge> of_int (rl_window l)")
      case True
      then show ?thesis using fresh b x by (simp add: bucket_at_def)
    next
      case False
      then have at: "bucket_at t (rl_window l) (rl_buckets l k) = (ws, c)"
        using b by (simp add: bucket_at_def)
      then have "rl_buckets ?l k = Some (ws, c + 1)" by (simp add: hit_bucket)
      then show ?thesis
        using Cons.IH [of ?l] Cons.prems b at x by (auto simp: hit_allowed bucket_ok_def split: if_splits)
    qed
  qed
qed

fun after :: "(rat \<Rightarrow> string \<Rightarrow> 'l \<Rightarrow> RateLimitResult \<times> 'l) \<Rightarrow> 'l \<Rightarrow> (rat \<times> string) list \<Rightarrow> 'l" where
  "after h l [] = l"
| "after h l ((t, k) # hs) = after h (snd (h t k l)) hs"

lemma serve_append: "serve h l (xs @ ys) = serve h l xs @ serve h (after h l xs) ys"
  by (induction h l xs rule: after.induct) auto

lemma after_config [simp]:
  "rl_limit (after hit l hs) = rl_limit l" "rl_window (after hit l hs) = rl_window l"
  by (induction hit l hs rule: after.induct) simp_all

lemma serve_mem: "y \<in> set (serve h l hs) \<Longrightarrow> fst y \<in> set hs"
  by (induction h l hs rule: after.induct) auto

lemma after_bucket_ok:
  assumes "bucket_ok t0 (rl_buckets l k)" and "0 < rl_window l"
    and "\<forall>x \<in> set hs. snd x = k \<and> t0 \<le> fst x \<and> fst x \<le> a" and "sorted (map fst hs)" and "t0 \<le> a"
  shows "bucket_ok a (rl_buckets (after hit l hs) k)"
  using assms
proof (induction hs arbitrary: l t0)
  case Nil
  then show ?case by (auto intro: bucket_ok_mono)
next
  case (Cons x hs)
  obtain t where x: "x = (t, k)" "t0 \<le> t" "t \<le> a" using Cons.prems(3) by (cases x) auto
  have "bucket_ok t (rl_buckets (snd (hit t k l)) k)"
    using bucket_at_range [OF Cons.prems(2,1) x(2)] by (simp add: hit_bucket bucket_ok_def)
  then show ?case using Cons.IH [of t "snd (hit t k l)"] Cons.prems x by auto
qed

lemma burst_one_key:
  assumes "1 \<le> limit" and "0 < window" and "sorted (map fst hs)" and "\<forall>x \<in> set hs. snd x = k"
  shows "int (length (filter (\<lambda>((t, k'), r). a \<le> t \<and> t < a + of_int window \<and> rl_allowed r)
           (serve hit (new_limiter limit window) hs))) \<le> 2 * limit - 1"
proof -
  let ?xs = "takeWhile (\<lambda>x. fst x < a) hs" and ?ys = "dropWhile (\<lambda>x. fst x < a) hs"
  let ?new = "new_limiter limit window"
  let ?l = "after hit ?new ?xs"
  let ?P = "\<lambda>((t, k' :: string), r). a \<le> t \<and> t < a + of_int window \<and> rl_allowed r"
  have sorted: "sorted (map fst ?xs)" "sorted (map fst ?ys)"
    using assms(3) takeWhile_dropWhile_id [of "\<lambda>x. fst x < a" hs] by (metis map_append sorted_append)+
  have xs: "snd x = k" "fst x < a" if "x \<in> set ?xs" for x
    using that assms(4) by (auto dest: set_takeWhileD)
  have ys: "snd x = k \<and> a \<le> fst x" if "x \<in> set ?ys" for x
  proof -
    have "x \<in> set hs" using that by (rule set_dropWhileD)
    moreover have "a \<le> fst (hd ?ys)" using that hd_dropWhile [of "\<lambda>x. fst x < a" hs] by fastforce
    moreover have "fst (hd ?ys) \<le> fst x" using that sorted(2) by (cases ?ys) auto
    ultimately show ?thesis using assms(4) by auto
  qed
  have none: "filter ?P (serve hit ?new ?xs) = []"
  proof (rule filter_False, intro ballI)
    fix y assume "y \<in> set (serve hit ?new ?xs)"
    then have "fst y \<in> set ?xs" by (rule serve_mem)
    with xs(2) show "\<not> ?P y" by (force split: prod.splits)
  qed
  have "bucket_ok a (rl_buckets ?l k)"
  proof (rule after_bucket_ok [where ?t0.0 = "Min (insert a (fst ` set ?xs))"])
    show "\<forall>x \<in> set ?xs. snd x = k \<and> Min (insert a (fst ` set ?xs)) \<le> fst x \<and> fst x \<le> a"
      using xs by (auto intro: Min_le less_imp_le)
  qed (use sorted(1) assms(2) in \<open>simp_all add: new_limiter_def bucket_ok_def\<close>)
  from admitted_from [OF this, of ?ys] have "admitted_before (a + of_int window) (serve hit ?l ?ys) \<le>
      limit + (case rl_buckets ?l k of None \<Rightarrow> 0 | Some (ws, c) \<Rightarrow> max 0 (limit - c))"
    using ys sorted(2) assms(1,2) by (simp split: option.splits prod.splits)
  also have "\<dots> \<le> limit + (limit - 1)"
    using \<open>bucket_ok a (rl_buckets ?l k)\<close> assms(1) by (auto simp: bucket_ok_def split: option.splits)
  finally have "admitted_before (a + of_int window) (serve hit ?l ?ys) \<le> 2 * limit - 1" by simp
  moreover have "filter ?P (serve hit ?l ?ys) =
      filter (\<lambda>((t, k), r). t < a + of_int window \<and> rl_allowed r) (serve hit ?l ?ys)"
  proof (rule filter_cong [OF refl])
    fix y assume "y \<in> set (serve hit ?l ?ys)"
    then have "fst y \<in> set ?ys" by (rule serve_mem)
    with ys show "?P y = (\<lambda>((t, k), r). t < a + of_int window \<and> rl_allowed r) y"
      by (force split: prod.splits)
  qed
  moreover have "serve hit ?new hs = serve hit ?new ?xs @ serve hit ?l ?ys"
    using serve_append [of hit ?new ?xs ?ys] by simp
  ultimately show ?thesis using none by (simp add: admitted_before_def)
qed

lemma served_in_window:
  assumes "\<forall>t \<in> set us. t0 \<le> t \<and> t < t0 + of_int (rl_window l)" and "rl_buckets l k = Some (t0, int m)"
  shows "map (\<lambda>(x, r). (rl_allowed r, rl_remaining r)) (serve hit l (map (\<lambda>t. (t, k)) us)) =
      map (\<lambda>i. (int i < rl_limit l, max 0 (rl_limit l - 1 - int i))) [m..<m + length us]"
  using assms
proof (induction us arbitrary: l m)
  case Nil
  then show ?case by simp
next
  case (Cons t us)
  let ?l = "snd (hit t k l)"
  have at: "bucket_at t (rl_window l) (rl_buckets l k) = (t0, int m)"
    using Cons.prems by (auto simp: bucket_at_def)
  then have "rl_buckets ?l k = Some (t0, int (Suc m))" by (simp add: hit_bucket)
  from Cons.IH [OF _ this]
  have "map (\<lambda>(x, r). (rl_allowed r, rl_remaining r)) (serve hit ?l (map (\<lambda>t. (t, k)) us)) =
      map (\<lambda>i. (int i < rl_limit l, max 0 (rl_limit l - 1 - int i))) [Suc m..<Suc m + length us]"
    using Cons.prems by (simp del: upt_Suc)
  moreover have "rl_allowed (fst (hit t k l)) = (int m < rl_limit l)"
    "rl_remaining (fst (hit t k l)) = max 0 (rl_limit l - 1 - int m)"
    using at by (auto simp: hit_def Let_def)
  ultimately show ?case by (simp add: upt_conv_Cons del: upt_Suc)
qed

section \<open>Properties\<close>

text \<open>C36. However the hits of all clients interleave, a key is admitted at most \<open>2 * limit - 1\<close>
  times in any interval as long as the window: the fixed windows let through a burst around
  their boundary, but never twice the limit.\<close>

theorem rate_limit_burst_bound:
  assumes "1 \<le> limit" and "0 < window" and "sorted (map fst hs)"
  shows "int (length (filter (\<lambda>((t, k'), r). k' = k \<and> a \<le> t \<and> t < a + of_int window \<and> rl_allowed r)
           (serve hit (new_limiter limit window) hs))) \<le> 2 * limit - 1"
proof -
  let ?hs = "filter (\<lambda>(t, k'). k' = k) hs"
  let ?P = "\<lambda>((t, k' :: string), r). a \<le> t \<and> t < a + of_int window \<and> rl_allowed r"
  have "sorted (map fst ?hs)" using assms(3) by (rule sorted_filter)
  then have one: "int (length (filter ?P (serve hit (new_limiter limit window) ?hs))) \<le> 2 * limit - 1"
    using assms(1,2) by (intro burst_one_key) auto
  have two: "filter (\<lambda>((t, k'), r). k' = k \<and> a \<le> t \<and> t < a + of_int window \<and> rl_allowed r) rs =
      filter ?P (filter (\<lambda>((t, k'), r). k' = k) rs)" for rs
    by (induction rs) auto
  show ?thesis unfolding two fixed_window.serve_isolated by (rule one)
qed

theorem rate_limit_burst_bound_witness:
  "length (filter (\<lambda>((t, k'), r). k' = ''a'' \<and> 59 \<le> t \<and> t < 59 + of_int 60 \<and> rl_allowed r)
     (serve hit (new_limiter 2 60) [(0, ''a''), (59, ''a''), (60, ''b''), (60, ''a''), (61, ''a''), (62, ''a'')])) = 3 \<and>
   (3 :: int) \<le> 2 * 2 - 1"
  using rate_limit_burst_bound [of 2 60 "[(0, ''a''), (59, ''a''), (60, ''b''), (60, ''a''), (61, ''a''), (62, ''a'')]" "''a''" 59]
  by (simp add: hit_def bucket_at_def new_limiter_def)

text \<open>Inside one window exactly the first \<open>limit\<close> hits of a key are admitted, whatever the
  other keys do, and the advertised \<open>remaining\<close> counts down to zero.\<close>

theorem rate_limit_window_exact:
  assumes "0 < window" and "map fst (filter (\<lambda>(t, k'). k' = k) hs) = t0 # ts"
    and "\<forall>t \<in> set ts. t0 \<le> t \<and> t < t0 + of_int window"
  shows "map (\<lambda>(x, r). (rl_allowed r, rl_remaining r))
           (filter (\<lambda>((t, k'), r). k' = k) (serve hit (new_limiter limit window) hs)) =
         map (\<lambda>i. (int i < limit, max 0 (limit - 1 - int i))) [0..<Suc (length ts)]"
proof -
  let ?l = "snd (hit t0 k (new_limiter limit window))"
  have one_key: "filter (\<lambda>(t, k'). k' = k) xs = map (\<lambda>t. (t, k)) (map fst (filter (\<lambda>(t, k'). k' = k) xs))" for xs
    by (rule sym) (auto simp: comp_def intro!: map_idI)
  have "bucket_at t0 window None = (t0, 0)" using assms(1) by (simp add: bucket_at_def)
  then have first: "rl_buckets ?l k = Some (t0, int 1)"
    "rl_allowed (fst (hit t0 k (new_limiter limit window))) = (0 < limit)"
    "rl_remaining (fst (hit t0 k (new_limiter limit window))) = max 0 (limit - 1)"
    by (auto simp: hit_def Let_def)
  have "filter (\<lambda>(t, k'). k' = k) hs = map (\<lambda>t. (t, k)) (t0 # ts)"
    using one_key [of hs] by (simp only: assms(2))
  then show ?thesis
    using served_in_window [of ts t0 ?l k 1] assms(3) first
    by (simp add: fixed_window.serve_isolated upt_conv_Cons del: upt_Suc)
qed

theorem rate_limit_window_exact_witness:
  "map (\<lambda>(x, r). (rl_allowed r, rl_remaining r))
     (filter (\<lambda>((t, k'), r). k' = ''a'') (serve hit (new_limiter 1 60) [(5, ''a''), (6, ''b''), (7, ''a'')])) =
   [(True, 0), (False, 0)]"
  using rate_limit_window_exact [of 60 "''a''" "[(5, ''a''), (6, ''b''), (7, ''a'')]" 5 "[7]" 1]
  by (simp add: upt_conv_Cons del: upt_Suc)

text \<open>\<open>Retry-After\<close> is honest: a client that is refused at \<open>t\<close> and told to wait \<open>r\<close> seconds is
  admitted at any time from \<open>t + r\<close> on, even if it or others kept asking meanwhile without a new
  window having started for it, is still refused before \<open>t + r - 1\<close>, and \<open>r\<close> lies between 1
  and \<open>window + 1\<close>.\<close>

theorem retry_after_honest:
  assumes "limiter_ok t0 l" and "t0 \<le> t" and "1 \<le> rl_limit l"
    and "\<not> rl_allowed (fst (hit t k l))" and "r = rl_retry_after (fst (hit t k l))"
    and "rl_buckets l' k = Some (ws, c)" and "rl_buckets (snd (hit t k l)) k = Some (ws, c0)"
    and "c0 \<le> c" and "rl_limit l' = rl_limit l" and "rl_window l' = rl_window l"
  shows "1 \<le> r \<and> r \<le> rl_window l + 1 \<and>
    (t + of_int r \<le> t' \<longrightarrow> rl_allowed (fst (hit t' k l'))) \<and>
    (t' < t + of_int r - 1 \<longrightarrow> \<not> rl_allowed (fst (hit t' k l')))"
proof -
  let ?b = "bucket_at t (rl_window l) (rl_buckets l k)"
  have b: "ws = fst ?b" "c0 = snd ?b + 1" using assms(7) by (auto simp: hit_bucket)
  have range: "ws \<le> t" "t - ws < of_int (rl_window l)"
    using bucket_at_range [of "rl_window l" t0 "rl_buckets l k" t] assms(1,2) b
    by (auto simp: limiter_ok_def)
  have r: "r = \<lfloor>of_int (rl_window l) - (t - ws)\<rfloor> + 1" "1 \<le> r"
    using hit_refused_wait [OF assms(1,2,4)] assms(5) b by simp_all
  have full: "rl_limit l \<le> snd ?b" using assms(4) by (simp add: hit_allowed)
  have "of_int (rl_window l) - (t - ws) \<le> of_int (rl_window l)" using range by simp
  then have "r \<le> rl_window l + 1" using r by (simp add: floor_le_iff)
  moreover have "rl_allowed (fst (hit t' k l'))" if "t + of_int r \<le> t'"
  proof -
    have "of_int (rl_window l) - (t - ws) < of_int r" using r(1) by linarith
    then have "of_int (rl_window l) \<le> t' - ws" using that by linarith
    then show ?thesis using assms(3,6,9,10) by (simp add: hit_allowed bucket_at_def)
  qed
  moreover have "\<not> rl_allowed (fst (hit t' k l'))" if "t' < t + of_int r - 1"
  proof -
    have "of_int r - 1 \<le> of_int (rl_window l) - (t - ws)" using r(1) by simp
    then have "\<not> of_int (rl_window l) \<le> t' - ws" using that by linarith
    then show ?thesis using full b(2) assms(6,8-10) by (simp add: hit_allowed bucket_at_def)
  qed
  ultimately show ?thesis using r(2) by blast
qed

theorem retry_after_honest_witness:
  "\<not> rl_allowed (fst (hit 15 ''a'' (after hit (new_limiter 1 60) [(5, ''a'')]))) \<and>
   rl_retry_after (fst (hit 15 ''a'' (after hit (new_limiter 1 60) [(5, ''a'')]))) = 51 \<and>
   rl_allowed (fst (hit 66 ''a'' (after hit (new_limiter 1 60) [(5, ''a''), (15, ''a''), (20, ''a'')])))"
proof -
  let ?l = "after hit (new_limiter 1 60) [(5, ''a'')]"
  let ?l' = "after hit (new_limiter 1 60) [(5, ''a''), (15, ''a''), (20, ''a'')]"
  have ok: "limiter_ok 5 ?l"
    using limiter_ok_hit [of 5 "new_limiter 1 60" 5 "''a''"] by (simp add: limiter_ok_def bucket_ok_def)
  have refused: "\<not> rl_allowed (fst (hit 15 ''a'' ?l))" and wait: "51 = rl_retry_after (fst (hit 15 ''a'' ?l))"
    by (simp_all add: hit_def bucket_at_def py_trunc_def)
  have "rl_buckets ?l' ''a'' = Some (5, 3)" "rl_buckets (snd (hit 15 ''a'' ?l)) ''a'' = Some (5, 2)"
    by (simp_all add: hit_def bucket_at_def)
  from retry_after_honest [OF ok _ _ refused wait this, of 66] show ?thesis
    using refused wait by simp
qed

end
