(* ===== verification/Middleware.thy ===== *)
theory Middleware
  imports Accounts Rate_Limit
begin

text \<open>
  The middleware stack that \<^verbatim>\<open>create_app\<close> (\<^verbatim>\<open>app/main.py\<close>) puts around the routes: request context,
  rate limiting and security headers (\<^verbatim>\<open>app/middleware\<close>), from the outside in, with the server's
  handler for unexpected exceptions around all of them.  Routing and parsing of requests are the
  web framework's: a parameter that maps a request to the template of its route and the parsed
  call.  The framework's CORS middleware, outside of the stack, is not modelled.
\<close>

section \<open>Requests, responses, headers\<close>

text \<open>Header names are kept in lower case.\<close>

record request =
  req_method :: string
  req_path :: string
  req_headers :: headers
  req_client :: "string option"
  req_correlation_id :: "string option"

record response =
  rsp_status :: int
  rsp_body :: json
  rsp_headers :: headers

record 'e server =
  srv_world :: "'e world"
  srv_limiter :: InMemoryRateLimiter
  srv_route :: "string option"

type_synonym 'e asgi = "request \<Rightarrow> ('e server, exc, response) op"

text \<open>\<open>headers[name] = value\<close> and \<open>headers.setdefault(name, value)\<close>.\<close>

definition set_header :: "string \<Rightarrow> string \<Rightarrow> headers \<Rightarrow> headers" where
  "set_header name v hs =
     (if map_of hs name = None then hs @ [(name, v)]
      else takeWhile (\<lambda>h. fst h \<noteq> name) hs @ (name, v) #
           filter (\<lambda>h. fst h \<noteq> name) (dropWhile (\<lambda>h. fst h \<noteq> name) hs))"

definition setdefault_header :: "string \<Rightarrow> string \<Rightarrow> headers \<Rightarrow> headers" where
  "setdefault_header name v hs = (if map_of hs name = None then hs @ [(name, v)] else hs)"

lemma set_header_get [simp]: "map_of (set_header name v hs) n = (if n = name then Some v else map_of hs n)"
proof (cases "map_of hs name = None")
  case False
  have "map_of hs n = (map_of (dropWhile (\<lambda>h. fst h \<noteq> name) hs) ++ map_of (takeWhile (\<lambda>h. fst h \<noteq> name) hs)) n"
    by (simp flip: map_of_append)
  moreover have "map_of (takeWhile (\<lambda>h. fst h \<noteq> name) hs) name = None"
    by (auto simp: map_of_eq_None_iff dest: set_takeWhileD)
  moreover have "map_of (filter (\<lambda>h. fst h \<noteq> name) xs) n = map_of xs n" if "n \<noteq> name" for xs :: headers
    using that by (induction xs) auto
  ultimately show ?thesis
    using False by (auto simp: set_header_def map_add_def split: option.splits)
qed (auto simp: set_header_def map_add_def split: option.splits)

lemma setdefault_header_get [simp]:
  "map_of (setdefault_header name v hs) n =
     (if n = name \<and> map_of hs name = None then Some v else map_of hs n)"
  by (auto simp: setdefault_header_def map_add_def split: option.splits)

section \<open>Security headers\<close>

definition HEADERS :: headers where
  "HEADERS =
     [(''x-content-type-options'', ''nosniff''),
      (''x-frame-options'', ''DENY''),
      (''referrer-policy'', ''no-referrer''),
      (''x-xss-protection'', ''0''),
      (''content-security-policy'',
         ''default-src 'self'; '' @
         ''script-src 'self' https://cdn.jsdelivr.net; '' @
         ''style-src 'self' 'unsafe-inline' https://cdn.jsdelivr.net; '' @
         ''img-src 'self' data: https://fastapi.tiangolo.com; '' @
         ''connect-src 'self'; frame-ancestors '' @ [CHR 0x27] @ ''none'' @ [CHR 0x27]),
      (''strict-transport-security'', ''max-age=63072000; includeSubDomains; preload''),
      (''cache-control'', ''no-store'')]"

definition SecurityHeaders :: "'e asgi \<Rightarrow> 'e asgi" where
  "SecurityHeaders call_next rq =
     andThen (call_next rq) (\<lambda>rsp.
     return (rsp\<lparr>rsp_headers := fold (\<lambda>(name, v). setdefault_header name v) HEADERS (rsp_headers rsp)\<rparr>))"

section \<open>Rate limiting\<close>

definition EXEMPT_PREFIXES :: "string list" where
  "EXEMPT_PREFIXES = [''/health'', ''/metrics'', ''/docs'', ''/redoc'', ''/openapi.json'']"

definition identity :: "request \<Rightarrow> string" where
  "identity rq =
     (let auth = header_get (req_headers rq) ''authorization''; api_key = header_get (req_headers rq) ''x-api-key''
      in if api_key \<noteq> [] then ''key:'' @ take 16 api_key
         else if auth \<noteq> [] then ''bearer:'' @ drop (length auth - 16) auth
         else ''ip:'' @ (case req_client rq of Some host \<Rightarrow> host | None \<Rightarrow> ''unknown''))"

definition limited_response :: "request \<Rightarrow> int \<Rightarrow> response" where
  "limited_response rq retry_after =
     \<lparr> rsp_status = 429,
       rsp_body = JObj [(''error'', JObj ([(''code'', JStr (ErrorCode_value RATE_LIMITED)), (''message'', JStr ''rate limit exceeded''),
           (''details'', JObj [(''retry_after'', JInt retry_after)])] @
           (case req_correlation_id rq of
              Some cid \<Rightarrow> if cid \<noteq> [] then [(''correlation_id'', JStr cid)] else []
            | None \<Rightarrow> [])))],
       rsp_headers = [(''retry-after'', show_int retry_after)] \<rparr>"

definition exempt :: "request \<Rightarrow> bool" where
  "exempt rq \<longleftrightarrow> (\<exists>p \<in> set EXEMPT_PREFIXES. starts_with p (req_path rq))"

definition RateLimit :: "'e platform \<Rightarrow> 'e asgi \<Rightarrow> 'e asgi" where
  "RateLimit P call_next rq =
     (if exempt rq then call_next rq
      else (\<lambda>s. case hit (monotonic P (env (srv_world s))) (identity rq) (srv_limiter s) of
        (result, l) \<Rightarrow>
          (if \<not> rl_allowed result then return (limited_response rq (rl_retry_after result))
           else andThen (call_next rq) (\<lambda>rsp.
             return (rsp\<lparr>rsp_headers := set_header ''x-ratelimit-remaining'' (show_int (rl_remaining result)) (rsp_headers rsp)\<rparr>)))
          (s\<lparr>srv_limiter := l\<rparr>)))"

section \<open>Request context\<close>

definition CORRELATION_HEADER :: string where
  "CORRELATION_HEADER = ''x-correlation-id''"

definition route_label :: "request \<Rightarrow> 'e server \<Rightarrow> string" where
  "route_label rq s = (case srv_route s of Some template \<Rightarrow> template | None \<Rightarrow> req_path rq)"

definition draw_correlation :: "'e platform \<Rightarrow> request \<Rightarrow> 'e server \<Rightarrow> string \<times> 'e server" where
  \<comment> \<open>\<open>incoming or uuid.uuid4().hex\<close>\<close>
  "draw_correlation P rq s =
     (if nonempty (map_of (req_headers rq) CORRELATION_HEADER)
      then (header_get (req_headers rq) CORRELATION_HEADER, s)
      else (case uuid4 P (env (srv_world s)) of
              (i, e) \<Rightarrow> (uuid_hex i, s\<lparr>srv_world := (srv_world s)\<lparr>env := e\<rparr>\<rparr>)))"

definition record_request :: "'e platform \<Rightarrow> request \<Rightarrow> rat \<Rightarrow> int \<Rightarrow> 'e server \<Rightarrow> 'e server" where
  "record_request P rq started status s =
     (let label = route_label rq s
      in s\<lparr>srv_world := (srv_world s)\<lparr>metrics := metrics (srv_world s) @
            [Inc ''upgi_http_requests_total'' [req_method rq, label, show_int status],
             Observe ''upgi_http_request_duration_seconds'' [req_method rq, label]
               (monotonic P (env (srv_world s)) - started)]\<rparr>\<rparr>)"

definition RequestContext :: "'e platform \<Rightarrow> 'e asgi \<Rightarrow> 'e asgi" where
  "RequestContext P call_next rq s =
     (case draw_correlation P rq s of (cid, s1) \<Rightarrow>
      let previous = correlation_id (srv_world s1);
          s2 = s1\<lparr>srv_world := (srv_world s1)\<lparr>correlation_id := cid\<rparr>\<rparr>;
          started = monotonic P (env (srv_world s2));
          reset = (\<lambda>s. s\<lparr>srv_world := (srv_world s)\<lparr>correlation_id := previous\<rparr>\<rparr>)
      in case call_next (rq\<lparr>req_correlation_id := Some cid\<rparr>) s2 of
           (Inr rsp, s3) \<Rightarrow>
             (Inr (rsp\<lparr>rsp_headers := set_header CORRELATION_HEADER cid (rsp_headers rsp)\<rparr>),
              reset (record_request P rq started (rsp_status rsp) s3))
         | (Inl e, s3) \<Rightarrow> (Inl e, reset (record_request P rq started 500 s3)))"

section \<open>Routes\<close>

text \<open>What the framework makes of a request: an endpoint with its parsed parameters, a request that
  failed validation, or one of the unversioned routes.\<close>

datatype target = Endpoint call | Invalid "(string list \<times> string \<times> string) list" | Live | Ready | Root

definition respond :: "int \<times> json \<Rightarrow> response" where
  "respond r = \<lparr>rsp_status = fst r, rsp_body = snd r, rsp_headers = []\<rparr>"

definition APP_VERSION :: string where
  "APP_VERSION = ''1.0.1''"

definition live :: "int \<times> json" where
  "live = (200, JObj [(''status'', JStr ''ok''), (''version'', JStr APP_VERSION)])"

definition ready :: "bool \<Rightarrow> int \<times> json" where
  \<comment> \<open>the argument: whether the database answers \<open>SELECT 1\<close>\<close>
  "ready up =
     (if \<not> up then (503, JObj [(''status'', JStr ''unavailable''), (''database'', JStr ''down'')])
      else (200, JObj [(''status'', JStr ''ready''), (''database'', JStr ''up'')]))"

definition root :: "Settings \<Rightarrow> int \<times> json" where
  "root settings = (200, JObj [(''service'', JStr (app_name settings)), (''version'', JStr APP_VERSION),
     (''docs'', JStr ''/docs''), (''health'', JStr ''/health/live'')])"

definition routes ::
  "'e platform \<Rightarrow> App \<Rightarrow> ('e \<Rightarrow> bool) \<Rightarrow> (request \<Rightarrow> (string \<times> target) option) \<Rightarrow> 'e asgi" where
  "routes P app db_up resolve rq s =
     (let cid = correlation_id (srv_world s)
      in case resolve rq of
           None \<Rightarrow> (Inr (respond (handle_exception cid (HTTPException 404 ''Not Found''))), s)
         | Some (template, target) \<Rightarrow>
             let s = s\<lparr>srv_route := Some template\<rparr>
             in case target of
                  Endpoint c \<Rightarrow>
                    (case session_scope P (endpoint_of P app (req_headers rq) c) (srv_world s) of
                       (Inr r, w) \<Rightarrow> (Inr (respond r), s\<lparr>srv_world := w\<rparr>)
                     | (Inl e, w) \<Rightarrow>
                         (if caught_inside e then Inr (respond (handle_exception (correlation_id w) e)) else Inl e,
                          s\<lparr>srv_world := w\<rparr>))
                | Invalid es \<Rightarrow> (Inr (respond (handle_exception cid (RequestValidationError es))), s)
                | Live \<Rightarrow> (Inr (respond live), s)
                | Ready \<Rightarrow> (Inr (respond (ready (db_up (env (srv_world s))))), s)
                | Root \<Rightarrow> (Inr (respond (root (app_settings app))), s))"

section \<open>The application\<close>

text \<open>\<open>create_app\<close>: the start-up checks, the services, the limiter; and the stack it assembles.\<close>

definition create_app :: "Settings \<Rightarrow> (App \<times> InMemoryRateLimiter) result" where
  "create_app settings =
     (case assert_production_ready settings of
        Inl e \<Rightarrow> Inl e
      | Inr _ \<Rightarrow>
          (case encryption_key_bytes settings of
             Inl e \<Rightarrow> Inl e
           | Inr key \<Rightarrow>
               (case from_single_key key ''primary'' of
                  Inl e \<Rightarrow> Inl e
                | Inr box \<Rightarrow>
                    Inr (\<lparr> app_settings = settings,
                           app_gateway = \<lparr> gm_settings = settings, gm_secret_box = box, gm_http = Some SharedClient \<rparr> \<rparr>,
                         new_limiter (rate_limit_requests settings) (rate_limit_window_seconds settings)))))"

definition ServerErrors :: "'e asgi \<Rightarrow> 'e asgi" where
  \<comment> \<open>where the handler registered for \<open>Exception\<close> runs\<close>
  "ServerErrors call_next rq =
     on_exit (call_next rq) (\<lambda>r. case r of
         Inr rsp \<Rightarrow> return rsp
       | Inl e \<Rightarrow> (\<lambda>s. (Inr (respond (handle_exception (correlation_id (srv_world s)) e)), s)))"

definition stack ::
  "'e platform \<Rightarrow> App \<Rightarrow> ('e \<Rightarrow> bool) \<Rightarrow> (request \<Rightarrow> (string \<times> target) option) \<Rightarrow> 'e asgi" where
  "stack P app db_up resolve rq s =
     (let inner = SecurityHeaders (routes P app db_up resolve);
          limited = (if rate_limit_enabled (app_settings app) then RateLimit P inner else inner)
      in ServerErrors (RequestContext P limited) rq (s\<lparr>srv_route := None\<rparr>))"

section \<open>Lemmas\<close>

lemma routes_raise: "routes P app db_up resolve rq s = (Inl e, t) \<Longrightarrow> \<not> caught_inside e"
  by (auto simp: routes_def Let_def split: option.splits prod.splits target.splits sum.splits if_splits)

lemma unexpected_status: "\<not> caught_inside e \<Longrightarrow> fst (handle_exception cid e) = 500"
  by (cases e) auto

lemma setdefault_keeps:
  "map_of acc name \<noteq> None \<Longrightarrow> map_of (fold (\<lambda>(n, v). setdefault_header n v) hs acc) name \<noteq> None"
  by (induction hs arbitrary: acc) (auto split: prod.splits)

lemma setdefault_all:
  "name \<in> fst ` set hs \<Longrightarrow> map_of (fold (\<lambda>(n, v). setdefault_header n v) hs acc) name \<noteq> None"
proof (induction hs arbitrary: acc)
  case (Cons h hs)
  obtain n v where h: "h = (n, v)" by (cases h)
  show ?case
  proof (cases "name = n")
    case True
    then have "map_of (setdefault_header n v acc) name \<noteq> None" by simp
    from setdefault_keeps [OF this] show ?thesis using h by simp
  next
    case False
    then have "name \<in> fst ` set hs" using Cons.prems h by auto
    from Cons.IH [OF this] show ?thesis using h by simp
  qed
qed simp

definition hardened :: "response \<Rightarrow> bool" where
  "hardened rsp \<longleftrightarrow> (\<forall>name \<in> fst ` set HEADERS. map_of (rsp_headers rsp) name \<noteq> None)"

lemma SecurityHeaders_Inr:
  assumes "SecurityHeaders inner rq s = (Inr rsp, t)"
  shows "hardened rsp"
proof -
  obtain raw :: response where "rsp_headers rsp = fold (\<lambda>(name, v). setdefault_header name v) HEADERS (rsp_headers raw)"
    using assms by (auto simp: SecurityHeaders_def op_splits)
  then show ?thesis unfolding hardened_def using setdefault_all by simp
qed

lemma SecurityHeaders_Inl: "SecurityHeaders inner rq s = (Inl e, t) \<longleftrightarrow> inner rq s = (Inl e, t)"
  by (auto simp: SecurityHeaders_def op_splits)

lemma set_header_hardened: "hardened rsp \<Longrightarrow> hardened (rsp\<lparr>rsp_headers := set_header n v (rsp_headers rsp)\<rparr>)"
  by (auto simp: hardened_def)

lemma RateLimit_Inl: "RateLimit P inner rq s = (Inl e, t) \<Longrightarrow> \<exists>u. inner rq u = (Inl e, t)"
  by (auto simp: RateLimit_def op_splits split: prod.splits if_splits)

lemma RateLimit_Inr:
  assumes "RateLimit P inner rq s = (Inr rsp, t)" and "\<And>u rsp t. inner rq u = (Inr rsp, t) \<Longrightarrow> hardened rsp"
  shows "hardened rsp \<or> (\<exists>n. rsp = limited_response rq n)"
proof (cases "exempt rq")
  case True
  then show ?thesis using assms by (auto simp: RateLimit_def)
next
  case False
  then show ?thesis
    using assms(1) by (auto simp: RateLimit_def op_splits split: prod.splits if_splits intro: set_header_hardened assms(2))
qed

text \<open>The inner part of the stack raises only unexpected exceptions, and answers hardened or limited.\<close>

definition limited_stack ::
  "'e platform \<Rightarrow> App \<Rightarrow> ('e \<Rightarrow> bool) \<Rightarrow> (request \<Rightarrow> (string \<times> target) option) \<Rightarrow> 'e asgi" where
  "limited_stack P app db_up resolve =
     (let inner = SecurityHeaders (routes P app db_up resolve)
      in if rate_limit_enabled (app_settings app) then RateLimit P inner else inner)"

lemma limited_outcome:
  assumes "limited_stack P app db_up resolve rq s = (r, t)"
  shows "case r of Inl e \<Rightarrow> \<not> caught_inside e | Inr rsp \<Rightarrow> hardened rsp \<or> (\<exists>n. rsp = limited_response rq n)"
proof (cases r)
  case (Inl e)
  then obtain u where "SecurityHeaders (routes P app db_up resolve) rq u = (Inl e, t)"
    using assms by (auto simp: limited_stack_def Let_def split: if_splits dest!: RateLimit_Inl)
  then show ?thesis using Inl by (auto simp: SecurityHeaders_Inl dest: routes_raise)
next
  case (Inr rsp)
  then show ?thesis
    using assms SecurityHeaders_Inr
    by (auto simp: limited_stack_def Let_def split: if_splits dest!: RateLimit_Inr)
qed

lemma stack_eq: "stack P app db_up resolve rq s = ServerErrors (RequestContext P (limited_stack P app db_up resolve)) rq (s\<lparr>srv_route := None\<rparr>)"
  by (simp add: stack_def limited_stack_def Let_def)

section \<open>Properties\<close>


text \<open>C18. A throttled request is inert: when the limiter refuses the caller's identity, the answer is a
  429 with the limiter's \<open>Retry-After\<close>, and neither the database nor the session, the circuit
  breakers or the provider has been touched.\<close>

theorem throttled_request_inert:
  assumes "rate_limit_enabled (app_settings app)" and "\<not> exempt rq" and "draw_correlation P rq s = (cid, s1)"
    and "hit (monotonic P (env (srv_world s1))) (identity rq) (srv_limiter s) = (result, l)" and "\<not> rl_allowed result"
  shows "\<exists>rsp t. stack P app db_up resolve rq s = (Inr rsp, t) \<and> rsp_status rsp = 429 \<and>
    map_of (rsp_headers rsp) ''retry-after'' = Some (show_int (rl_retry_after result)) \<and> srv_limiter t = l \<and>
    committed (srv_world t) = committed (srv_world s) \<and> objs (srv_world t) = objs (srv_world s) \<and>
    pending (srv_world t) = pending (srv_world s) \<and> breakers (srv_world t) = breakers (srv_world s) \<and>
    env (srv_world t) = env (srv_world s1)"
proof -
  let ?rq = "rq\<lparr>req_correlation_id := Some cid\<rparr>"
  have draw: "draw_correlation P rq (s\<lparr>srv_route := None\<rparr>) = (cid, s1\<lparr>srv_route := None\<rparr>)"
    and s1: "committed (srv_world s1) = committed (srv_world s)" "objs (srv_world s1) = objs (srv_world s)"
      "pending (srv_world s1) = pending (srv_world s)" "breakers (srv_world s1) = breakers (srv_world s)"
      "srv_limiter s1 = srv_limiter s"
    using assms(3) by (auto simp: draw_correlation_def split: if_splits prod.splits)
  have same: "exempt ?rq = exempt rq" "identity ?rq = identity rq" by (simp_all add: exempt_def identity_def Let_def)
  have "limited_stack P app db_up resolve ?rq (s1\<lparr>srv_route := None, srv_world := (srv_world s1)\<lparr>correlation_id := cid\<rparr>\<rparr>) =
      (Inr (limited_response ?rq (rl_retry_after result)),
       s1\<lparr>srv_route := None, srv_world := (srv_world s1)\<lparr>correlation_id := cid\<rparr>, srv_limiter := l\<rparr>)"
    using assms(1,2,4,5) s1(5) same by (simp add: limited_stack_def RateLimit_def op_simps)
  then show ?thesis
    using draw s1
    by (simp add: stack_eq ServerErrors_def RequestContext_def op_simps Let_def record_request_def CORRELATION_HEADER_def)
      (simp add: limited_response_def)
qed

theorem throttled_request_inert_witness:
  "\<exists>rsp t. stack sandbox demo_app (\<lambda>_. True) (\<lambda>_. None)
       \<lparr>req_method = ''GET'', req_path = ''/api/v1/payments'', req_headers = [(''x-correlation-id'', ''c1'')],
         req_client = None, req_correlation_id = None\<rparr>
       \<lparr>srv_world = role_world MERCHANT, srv_limiter = new_limiter 0 60, srv_route = None\<rparr> = (Inr rsp, t) \<and>
     rsp_status rsp = 429 \<and> committed (srv_world t) = committed (role_world MERCHANT)"
proof -
  let ?rq = "\<lparr>req_method = ''GET'', req_path = ''/api/v1/payments'', req_headers = [(''x-correlation-id'', ''c1'')],
         req_client = None, req_correlation_id = None\<rparr>"
  let ?s = "\<lparr>srv_world = role_world MERCHANT, srv_limiter = new_limiter 0 60, srv_route = None\<rparr>"
  obtain result l where hit: "hit (monotonic sandbox (env (srv_world ?s))) (identity ?rq) (srv_limiter ?s) = (result, l)"
    and no: "\<not> rl_allowed result"
    by (simp add: hit_def bucket_at_def Let_def)
  have "rate_limit_enabled (app_settings demo_app)" by (simp add: demo_app_def default_settings_def)
  moreover have "\<not> exempt ?rq" by (simp add: exempt_def EXEMPT_PREFIXES_def starts_with_def)
  moreover have "draw_correlation sandbox ?rq ?s = (''c1'', ?s)"
    by (simp add: draw_correlation_def nonempty_def header_get_def CORRELATION_HEADER_def)
  ultimately show ?thesis
    using throttled_request_inert [OF _ _ _ hit no, of demo_app "''c1''" "\<lambda>_. True" "\<lambda>_. None"] by fastforce
qed

end
