(* ===== verification/Migration.thy ===== *)
theory Migration
  imports World Config
begin

text \<open>
  The database schema, twice: as the mapped classes declare it (\<^verbatim>\<open>app/db/base.py\<close>, \<^verbatim>\<open>app/db/models\<close>),
  which is what \<open>create_all\<close> builds, and as the migration creates it step by step
  (\<^verbatim>\<open>alembic/versions/83773630d658_initial_schema.py\<close>).  The two agree, the migration can be undone,
  and the uniqueness the schema demands is what the rest of the development assumes of a commit.
\<close>

section \<open>Schemas and their statements\<close>

datatype sql_type =
    SQL_String nat | SQL_Text | SQL_Enum "string list" string nat | SQL_Boolean | SQL_Integer | SQL_BigInteger
  | SQL_Uuid | SQL_DateTime | SQL_JSON

record sql_column =
  col_name :: string
  col_type :: sql_type
  col_nullable :: bool
  col_server_default :: bool

record foreign_key =
  fk_name :: string
  fk_column :: string
  fk_table :: string
  fk_target :: string
  fk_ondelete :: string

record sql_index =
  ix_name :: string
  ix_columns :: "string list"
  ix_unique :: bool

record sql_table =
  tab_name :: string
  tab_columns :: "sql_column list"
  tab_pk :: "string \<times> string list"
  tab_uniques :: "(string \<times> string list) list"
  tab_fks :: "foreign_key list"
  tab_indexes :: "sql_index list"

type_synonym schema = "sql_table list"

datatype ddl = CreateTable sql_table | CreateIndex string sql_index | DropIndex string string | DropTable string

definition has_table :: "string \<Rightarrow> schema \<Rightarrow> bool" where
  "has_table name S \<longleftrightarrow> name \<in> tab_name ` set S"

fun apply_ddl :: "ddl \<Rightarrow> schema \<Rightarrow> schema option" where
  \<comment> \<open>\<open>None\<close> is the database's refusal\<close>
  "apply_ddl (CreateTable t) S =
     (if \<not> has_table (tab_name t) S \<and> list_all (\<lambda>fk. has_table (fk_table fk) S) (tab_fks t) then Some (S @ [t]) else None)"
| "apply_ddl (CreateIndex name ix) S =
     (if list_ex (\<lambda>t. tab_name t = name \<and> list_all (\<lambda>c. c \<in> col_name ` set (tab_columns t)) (ix_columns ix)) S \<and>
         \<not> list_ex (\<lambda>t. ix_name ix \<in> ix_name ` set (tab_indexes t)) S
      then Some (map (\<lambda>t. if tab_name t = name then t\<lparr>tab_indexes := tab_indexes t @ [ix]\<rparr> else t) S) else None)"
| "apply_ddl (DropIndex name ix) S =
     (if list_ex (\<lambda>t. tab_name t = name \<and> ix \<in> ix_name ` set (tab_indexes t)) S
      then Some (map (\<lambda>t. if tab_name t = name
                          then t\<lparr>tab_indexes := filter (\<lambda>i. ix_name i \<noteq> ix) (tab_indexes t)\<rparr> else t) S) else None)"
| "apply_ddl (DropTable name) S =
     (if has_table name S \<and> \<not> list_ex (\<lambda>t. tab_name t \<noteq> name \<and> list_ex (\<lambda>fk. fk_table fk = name) (tab_fks t)) S
      then Some (filter (\<lambda>t. tab_name t \<noteq> name) S) else None)"

fun run_ddl :: "ddl list \<Rightarrow> schema \<Rightarrow> schema option" where
  "run_ddl [] S = Some S"
| "run_ddl (d # ds) S = (case apply_ddl d S of None \<Rightarrow> None | Some S' \<Rightarrow> run_ddl ds S')"

section \<open>The mapped classes\<close>

record mapped =
  m_column :: sql_column
  m_index :: bool
  m_unique :: bool
  m_reference :: "(string \<times> string) option"

definition mapped_column :: "string \<Rightarrow> sql_type \<Rightarrow> bool \<Rightarrow> mapped" where
  "mapped_column name ty nullable =
     \<lparr> m_column = \<lparr>col_name = name, col_type = ty, col_nullable = nullable, col_server_default = False\<rparr>,
       m_index = False, m_unique = False, m_reference = None \<rparr>"

definition indexed :: "mapped \<Rightarrow> mapped" where
  "indexed m = m\<lparr>m_index := True\<rparr>"

definition unique :: "mapped \<Rightarrow> mapped" where
  "unique m = m\<lparr>m_unique := True\<rparr>"

definition references :: "string \<Rightarrow> string \<Rightarrow> mapped \<Rightarrow> mapped" where
  "references table ondelete m = m\<lparr>m_reference := Some (table, ondelete)\<rparr>"

definition enum :: "string list \<Rightarrow> string \<Rightarrow> nat \<Rightarrow> sql_type" where
  "enum names name len = SQL_Enum names name len"

definition UUIDMixin :: "mapped list" where
  "UUIDMixin = [mapped_column ''id'' SQL_Uuid False]"

definition server_now :: "mapped \<Rightarrow> mapped" where
  "server_now m = m\<lparr>m_column := (m_column m)\<lparr>col_server_default := True\<rparr>\<rparr>"

definition TimestampMixin :: "mapped list" where
  "TimestampMixin =
     [server_now (mapped_column ''created_at'' SQL_DateTime False),
      server_now (mapped_column ''updated_at'' SQL_DateTime False)]"

text \<open>\<open>NAMING_CONVENTION\<close>: the names of the constraints and indexes that have none of their own.\<close>

definition pk_label :: "string \<Rightarrow> string" where
  "pk_label table = ''pk_'' @ table"

definition ix_label :: "string \<Rightarrow> string \<Rightarrow> string" where
  "ix_label table column = ''ix_'' @ table @ ''_'' @ column"

definition fk_label :: "string \<Rightarrow> string \<Rightarrow> string \<Rightarrow> string" where
  "fk_label table column target = ''fk_'' @ table @ ''_'' @ column @ ''_'' @ target"

text \<open>A mapped class: its own columns, then those of the mixins.\<close>

definition declared :: "string \<Rightarrow> mapped list \<Rightarrow> (string \<times> string list) list \<Rightarrow> sql_table" where
  "declared table own uniques =
     (let ms = own @ UUIDMixin @ TimestampMixin
      in \<lparr> tab_name = table, tab_columns = map m_column ms, tab_pk = (pk_label table, [''id'']), tab_uniques = uniques,
           tab_fks = List.map_filter (\<lambda>m. map_option (\<lambda>(target, ondelete).
             \<lparr> fk_name = fk_label table (col_name (m_column m)) target, fk_column = col_name (m_column m),
               fk_table = target, fk_target = ''id'', fk_ondelete = ondelete \<rparr>) (m_reference m)) ms,
           tab_indexes = map (\<lambda>m. \<lparr> ix_name = ix_label table (col_name (m_column m)),
             ix_columns = [col_name (m_column m)], ix_unique = m_unique m \<rparr>) (filter m_index ms) \<rparr>)"

text \<open>The names of the enumerations' members, which the columns store.\<close>

definition UserRole_names :: "string list" where
  "UserRole_names = [''ADMIN'', ''MERCHANT'', ''VIEWER'']"

definition PaymentStatus_names :: "string list" where
  "PaymentStatus_names = [''REQUIRES_CONFIRMATION'', ''AUTHORIZED'', ''CAPTURED'', ''PARTIALLY_REFUNDED'', ''REFUNDED'', ''CANCELED'', ''FAILED'']"

definition RefundStatus_names :: "string list" where
  "RefundStatus_names = [''PENDING'', ''SUCCEEDED'', ''FAILED'']"

definition CaptureMethod_names :: "string list" where
  "CaptureMethod_names = [''AUTOMATIC'', ''MANUAL'']"

definition PaymentMethodType_names :: "string list" where
  "PaymentMethodType_names = [''CARD'', ''APPLE_PAY'', ''GOOGLE_PAY'', ''BANK_TRANSFER'', ''SEPA'', ''ACH'', ''WIRE'', ''WALLET'', ''CRYPTO'', ''QR'', ''BNPL'']"

definition ProviderName_names :: "string list" where
  "ProviderName_names = [''MOCK'', ''STRIPE'']"

definition WebhookStatus_names :: "string list" where
  "WebhookStatus_names = [''RECEIVED'', ''PROCESSED'', ''FAILED'', ''DEAD_LETTERED'']"

definition AuditAction_names :: "string list" where
  "AuditAction_names = [''USER_REGISTERED'', ''USER_LOGIN'', ''API_KEY_CREATED'', ''API_KEY_REVOKED'', ''PAYMENT_CREATED'', ''PAYMENT_AUTHORIZED'', ''PAYMENT_CAPTURED'', ''PAYMENT_CANCELED'', ''PAYMENT_FAILED'', ''REFUND_CREATED'', ''WEBHOOK_RECEIVED'']"

definition User_table :: sql_table where
  "User_table = declared ''users''
     [unique (indexed (mapped_column ''email'' (SQL_String 320) False)),
      mapped_column ''hashed_password'' (SQL_String 255) False,
      mapped_column ''full_name'' (SQL_String 255) True,
      mapped_column ''role'' (enum UserRole_names ''userrole'' 20) False,
      mapped_column ''is_active'' SQL_Boolean False,
      mapped_column ''failed_login_attempts'' SQL_Integer False]
     []"

definition WebhookEvent_table :: sql_table where
  "WebhookEvent_table = declared ''webhook_events''
     [indexed (mapped_column ''provider'' (enum ProviderName_names ''providername'' 40) False),
      indexed (mapped_column ''event_id'' (SQL_String 255) False),
      mapped_column ''event_type'' (SQL_String 120) False,
      indexed (mapped_column ''status'' (enum WebhookStatus_names ''webhookstatus'' 20) False),
      mapped_column ''payload'' SQL_JSON False,
      mapped_column ''attempts'' SQL_Integer False,
      mapped_column ''last_error'' SQL_Text True]
     [(''provider_event_id'', [''provider'', ''event_id''])]"

definition ApiKey_table :: sql_table where
  "ApiKey_table = declared ''api_keys''
     [references ''users'' ''CASCADE'' (indexed (mapped_column ''user_id'' SQL_Uuid False)),
      mapped_column ''name'' (SQL_String 120) False,
      unique (indexed (mapped_column ''hashed_key'' (SQL_String 64) False)),
      mapped_column ''display_prefix'' (SQL_String 64) False,
      mapped_column ''is_active'' SQL_Boolean False,
      mapped_column ''last_used_at'' SQL_DateTime True,
      mapped_column ''revoked_at'' SQL_DateTime True]
     []"

definition AuditLog_table :: sql_table where
  "AuditLog_table = declared ''audit_logs''
     [references ''users'' ''SET NULL'' (indexed (mapped_column ''actor_id'' SQL_Uuid True)),
      indexed (mapped_column ''action'' (enum AuditAction_names ''auditaction'' 60) False),
      mapped_column ''resource_type'' (SQL_String 60) True,
      mapped_column ''resource_id'' (SQL_String 64) True,
      mapped_column ''correlation_id'' (SQL_String 64) True,
      mapped_column ''context'' SQL_JSON False]
     []"

definition IdempotencyKey_table :: sql_table where
  "IdempotencyKey_table = declared ''idempotency_keys''
     [references ''users'' ''CASCADE'' (indexed (mapped_column ''owner_id'' SQL_Uuid False)),
      mapped_column ''endpoint'' (SQL_String 120) False,
      mapped_column ''key'' (SQL_String 255) False,
      mapped_column ''request_hash'' (SQL_String 64) False,
      mapped_column ''response_status'' SQL_Integer False,
      mapped_column ''response_body'' SQL_JSON False]
     [(''owner_endpoint_key'', [''owner_id'', ''endpoint'', ''key''])]"

definition Payment_table :: sql_table where
  "Payment_table = declared ''payments''
     [references ''users'' ''CASCADE'' (indexed (mapped_column ''owner_id'' SQL_Uuid False)),
      indexed (mapped_column ''provider'' (enum ProviderName_names ''providername'' 40) False),
      mapped_column ''provider_reference'' (SQL_String 255) True,
      mapped_column ''amount'' SQL_BigInteger False,
      mapped_column ''currency'' (SQL_String 8) False,
      mapped_column ''amount_captured'' SQL_BigInteger False,
      mapped_column ''amount_refunded'' SQL_BigInteger False,
      indexed (mapped_column ''status'' (enum PaymentStatus_names ''paymentstatus'' 40) False),
      mapped_column ''capture_method'' (enum CaptureMethod_names ''capturemethod'' 20) False,
      mapped_column ''method_type'' (enum PaymentMethodType_names ''paymentmethodtype'' 30) False,
      mapped_column ''description'' (SQL_String 500) True,
      mapped_column ''customer_reference'' (SQL_String 255) True,
      mapped_column ''failure_reason'' (SQL_String 500) True,
      mapped_column ''payment_metadata'' SQL_JSON False]
     [(''provider_reference'', [''provider'', ''provider_reference''])]"

definition ProviderConfig_table :: sql_table where
  "ProviderConfig_table = declared ''provider_configs''
     [references ''users'' ''CASCADE'' (indexed (mapped_column ''owner_id'' SQL_Uuid False)),
      mapped_column ''provider'' (enum ProviderName_names ''providername'' 40) False,
      mapped_column ''encrypted_secret'' (SQL_String 2048) False,
      mapped_column ''config'' SQL_JSON False,
      mapped_column ''is_active'' SQL_Boolean False,
      mapped_column ''sandbox'' SQL_Boolean False]
     []"

definition Refund_table :: sql_table where
  "Refund_table = declared ''refunds''
     [references ''payments'' ''CASCADE'' (indexed (mapped_column ''payment_id'' SQL_Uuid False)),
      mapped_column ''amount'' SQL_BigInteger False,
      mapped_column ''currency'' (SQL_String 8) False,
      mapped_column ''status'' (enum RefundStatus_names ''refundstatus'' 20) False,
      mapped_column ''reason'' (SQL_String 500) True,
      mapped_column ''provider_reference'' (SQL_String 255) True]
     []"

definition metadata :: schema where
  \<comment> \<open>\<open>Base.metadata\<close>, in the order of dependencies\<close>
  "metadata = [User_table, WebhookEvent_table, ApiKey_table, AuditLog_table, IdempotencyKey_table, Payment_table,
     ProviderConfig_table, Refund_table]"

section \<open>The migration\<close>

definition col :: "string \<Rightarrow> sql_type \<Rightarrow> bool \<Rightarrow> bool \<Rightarrow> sql_column" where
  "col name ty nullable server_default =
     \<lparr>col_name = name, col_type = ty, col_nullable = nullable, col_server_default = server_default\<rparr>"

definition create_users :: "ddl list" where
  "create_users =
     [CreateTable \<lparr> tab_name = ''users'',
        tab_columns =
          [col ''email'' (SQL_String 320) False False,
           col ''hashed_password'' (SQL_String 255) False False,
           col ''full_name'' (SQL_String 255) True False,
           col ''role'' (SQL_Enum [''ADMIN'', ''MERCHANT'', ''VIEWER''] ''userrole'' 20) False False,
           col ''is_active'' SQL_Boolean False False,
           col ''failed_login_attempts'' SQL_Integer False False,
           col ''id'' SQL_Uuid False False,
           col ''created_at'' SQL_DateTime False True,
           col ''updated_at'' SQL_DateTime False True],
        tab_pk = (''pk_users'', [''id'']),
        tab_uniques = [],
        tab_fks = [],
        tab_indexes = [] \<rparr>,
      CreateIndex ''users'' \<lparr>ix_name = ''ix_users_email'', ix_columns = [''email''], ix_unique = True\<rparr>]"

definition create_webhook_events :: "ddl list" where
  "create_webhook_events =
     [CreateTable \<lparr> tab_name = ''webhook_events'',
        tab_columns =
          [col ''provider'' (SQL_Enum [''MOCK'', ''STRIPE''] ''providername'' 40) False False,
           col ''event_id'' (SQL_String 255) False False,
           col ''event_type'' (SQL_String 120) False False,
           col ''status'' (SQL_Enum [''RECEIVED'', ''PROCESSED'', ''FAILED'', ''DEAD_LETTERED''] ''webhookstatus'' 20) False False,
           col ''payload'' SQL_JSON False False,
           col ''attempts'' SQL_Integer False False,
           col ''last_error'' SQL_Text True False,
           col ''id'' SQL_Uuid False False,
           col ''created_at'' SQL_DateTime False True,
           col ''updated_at'' SQL_DateTime False True],
        tab_pk = (''pk_webhook_events'', [''id'']),
        tab_uniques = [(''provider_event_id'', [''provider'', ''event_id''])],
        tab_fks = [],
        tab_indexes = [] \<rparr>,
      CreateIndex ''webhook_events'' \<lparr>ix_name = ''ix_webhook_events_event_id'', ix_columns = [''event_id''], ix_unique = False\<rparr>,
      CreateIndex ''webhook_events'' \<lparr>ix_name = ''ix_webhook_events_provider'', ix_columns = [''provider''], ix_unique = False\<rparr>,
      CreateIndex ''webhook_events'' \<lparr>ix_name = ''ix_webhook_events_status'', ix_columns = [''status''], ix_unique = False\<rparr>]"

definition create_api_keys :: "ddl list" where
  "create_api_keys =
     [CreateTable \<lparr> tab_name = ''api_keys'',
        tab_columns =
          [col ''user_id'' SQL_Uuid False False,
           col ''name'' (SQL_String 120) False False,
           col ''hashed_key'' (SQL_String 64) False False,
           col ''display_prefix'' (SQL_String 64) False False,
           col ''is_active'' SQL_Boolean False False,
           col ''last_used_at'' SQL_DateTime True False,
           col ''revoked_at'' SQL_DateTime True False,
           col ''id'' SQL_Uuid False False,
           col ''created_at'' SQL_DateTime False True,
           col ''updated_at'' SQL_DateTime False True],
        tab_pk = (''pk_api_keys'', [''id'']),
        tab_uniques = [],
        tab_fks = [\<lparr>fk_name = ''fk_api_keys_user_id_users'', fk_column = ''user_id'', fk_table = ''users'', fk_target = ''id'', fk_ondelete = ''CASCADE''\<rparr>],
        tab_indexes = [] \<rparr>,
      CreateIndex ''api_keys'' \<lparr>ix_name = ''ix_api_keys_hashed_key'', ix_columns = [''hashed_key''], ix_unique = True\<rparr>,
      CreateIndex ''api_keys'' \<lparr>ix_name = ''ix_api_keys_user_id'', ix_columns = [''user_id''], ix_unique = False\<rparr>]"

definition create_audit_logs :: "ddl list" where
  "create_audit_logs =
     [CreateTable \<lparr> tab_name = ''audit_logs'',
        tab_columns =
          [col ''actor_id'' SQL_Uuid True False,
           col ''action'' (SQL_Enum [''USER_REGISTERED'', ''USER_LOGIN'', ''API_KEY_CREATED'', ''API_KEY_REVOKED'', ''PAYMENT_CREATED'', ''PAYMENT_AUTHORIZED'', ''PAYMENT_CAPTURED'', ''PAYMENT_CANCELED'', ''PAYMENT_FAILED'', ''REFUND_CREATED'', ''WEBHOOK_RECEIVED''] ''auditaction'' 60) False False,
           col ''resource_type'' (SQL_String 60) True False,
           col ''resource_id'' (SQL_String 64) True False,
           col ''correlation_id'' (SQL_String 64) True False,
           col ''context'' SQL_JSON False False,
           col ''id'' SQL_Uuid False False,
           col ''created_at'' SQL_DateTime False True,
           col ''updated_at'' SQL_DateTime False True],
        tab_pk = (''pk_audit_logs'', [''id'']),
        tab_uniques = [],
        tab_fks = [\<lparr>fk_name = ''fk_audit_logs_actor_id_users'', fk_column = ''actor_id'', fk_table = ''users'', fk_target = ''id'', fk_ondelete = ''SET NULL''\<rparr>],
        tab_indexes = [] \<rparr>,
      CreateIndex ''audit_logs'' \<lparr>ix_name = ''ix_audit_logs_action'', ix_columns = [''action''], ix_unique = False\<rparr>,
      CreateIndex ''audit_logs'' \<lparr>ix_name = ''ix_audit_logs_actor_id'', ix_columns = [''actor_id''], ix_unique = False\<rparr>]"

definition create_idempotency_keys :: "ddl list" where
  "create_idempotency_keys =
     [CreateTable \<lparr> tab_name = ''idempotency_keys'',
        tab_columns =
          [col ''owner_id'' SQL_Uuid False False,
           col ''endpoint'' (SQL_String 120) False False,
           col ''key'' (SQL_String 255) False False,
           col ''request_hash'' (SQL_String 64) False False,
           col ''response_status'' SQL_Integer False False,
           col ''response_body'' SQL_JSON False False,
           col ''id'' SQL_Uuid False False,
           col ''created_at'' SQL_DateTime False True,
           col ''updated_at'' SQL_DateTime False True],
        tab_pk = (''pk_idempotency_keys'', [''id'']),
        tab_uniques = [(''owner_endpoint_key'', [''owner_id'', ''endpoint'', ''key''])],
        tab_fks = [\<lparr>fk_name = ''fk_idempotency_keys_owner_id_users'', fk_column = ''owner_id'', fk_table = ''users'', fk_target = ''id'', fk_ondelete = ''CASCADE''\<rparr>],
        tab_indexes = [] \<rparr>,
      CreateIndex ''idempotency_keys'' \<lparr>ix_name = ''ix_idempotency_keys_owner_id'', ix_columns = [''owner_id''], ix_unique = False\<rparr>]"

definition create_payments :: "ddl list" where
  "create_payments =
     [CreateTable \<lparr> tab_name = ''payments'',
        tab_columns =
          [col ''owner_id'' SQL_Uuid False False,
           col ''provider'' (SQL_Enum [''MOCK'', ''STRIPE''] ''providername'' 40) False False,
           col ''provider_reference'' (SQL_String 255) True False,
           col ''amount'' SQL_BigInteger False False,
           col ''currency'' (SQL_String 8) False False,
           col ''amount_captured'' SQL_BigInteger False False,
           col ''amount_refunded'' SQL_BigInteger False False,
           col ''status'' (SQL_Enum [''REQUIRES_CONFIRMATION'', ''AUTHORIZED'', ''CAPTURED'', ''PARTIALLY_REFUNDED'', ''REFUNDED'', ''CANCELED'', ''FAILED''] ''paymentstatus'' 40) False False,
           col ''capture_method'' (SQL_Enum [''AUTOMATIC'', ''MANUAL''] ''capturemethod'' 20) False False,
           col ''method_type'' (SQL_Enum [''CARD'', ''APPLE_PAY'', ''GOOGLE_PAY'', ''BANK_TRANSFER'', ''SEPA'', ''ACH'', ''WIRE'', ''WALLET'', ''CRYPTO'', ''QR'', ''BNPL''] ''paymentmethodtype'' 30) False False,
           col ''description'' (SQL_String 500) True False,
           col ''customer_reference'' (SQL_String 255) True False,
           col ''failure_reason'' (SQL_String 500) True False,
           col ''payment_metadata'' SQL_JSON False False,
           col ''id'' SQL_Uuid False False,
           col ''created_at'' SQL_DateTime False True,
           col ''updated_at'' SQL_DateTime False True],
        tab_pk = (''pk_payments'', [''id'']),
        tab_uniques = [(''provider_reference'', [''provider'', ''provider_reference''])],
        tab_fks = [\<lparr>fk_name = ''fk_payments_owner_id_users'', fk_column = ''owner_id'', fk_table = ''users'', fk_target = ''id'', fk_ondelete = ''CASCADE''\<rparr>],
        tab_indexes = [] \<rparr>,
      CreateIndex ''payments'' \<lparr>ix_name = ''ix_payments_owner_id'', ix_columns = [''owner_id''], ix_unique = False\<rparr>,
      CreateIndex ''payments'' \<lparr>ix_name = ''ix_payments_provider'', ix_columns = [''provider''], ix_unique = False\<rparr>,
      CreateIndex ''payments'' \<lparr>ix_name = ''ix_payments_status'', ix_columns = [''status''], ix_unique = False\<rparr>]"

definition create_provider_configs :: "ddl list" where
  "create_provider_configs =
     [CreateTable \<lparr> tab_name = ''provider_configs'',
        tab_columns =
          [col ''owner_id'' SQL_Uuid False False,
           col ''provider'' (SQL_Enum [''MOCK'', ''STRIPE''] ''providername'' 40) False False,
           col ''encrypted_secret'' (SQL_String 2048) False False,
           col ''config'' SQL_JSON False False,
           col ''is_active'' SQL_Boolean False False,
           col ''sandbox'' SQL_Boolean False False,
           col ''id'' SQL_Uuid False False,
           col ''created_at'' SQL_DateTime False True,
           col ''updated_at'' SQL_DateTime False True],
        tab_pk = (''pk_provider_configs'', [''id'']),
        tab_uniques = [],
        tab_fks = [\<lparr>fk_name = ''fk_provider_configs_owner_id_users'', fk_column = ''owner_id'', fk_table = ''users'', fk_target = ''id'', fk_ondelete = ''CASCADE''\<rparr>],
        tab_indexes = [] \<rparr>,
      CreateIndex ''provider_configs'' \<lparr>ix_name = ''ix_provider_configs_owner_id'', ix_columns = [''owner_id''], ix_unique = False\<rparr>]"

definition create_refunds :: "ddl list" where
  "create_refunds =
     [CreateTable \<lparr> tab_name = ''refunds'',
        tab_columns =
          [col ''payment_id'' SQL_Uuid False False,
           col ''amount'' SQL_BigInteger False False,
           col ''currency'' (SQL_String 8) False False,
           col ''status'' (SQL_Enum [''PENDING'', ''SUCCEEDED'', ''FAILED''] ''refundstatus'' 20) False False,
           col ''reason'' (SQL_String 500) True False,
           col ''provider_reference'' (SQL_String 255) True False,
           col ''id'' SQL_Uuid False False,
           col ''created_at'' SQL_DateTime False True,
           col ''updated_at'' SQL_DateTime False True],
        tab_pk = (''pk_refunds'', [''id'']),
        tab_uniques = [],
        tab_fks = [\<lparr>fk_name = ''fk_refunds_payment_id_payments'', fk_column = ''payment_id'', fk_table = ''payments'', fk_target = ''id'', fk_ondelete = ''CASCADE''\<rparr>],
        tab_indexes = [] \<rparr>,
      CreateIndex ''refunds'' \<lparr>ix_name = ''ix_refunds_payment_id'', ix_columns = [''payment_id''], ix_unique = False\<rparr>]"

definition upgrade :: "ddl list" where
  "upgrade = create_users @ create_webhook_events @ create_api_keys @ create_audit_logs @ create_idempotency_keys @ create_payments @ create_provider_configs @ create_refunds"

definition downgrade :: "ddl list" where
  "downgrade =
     [DropIndex ''refunds'' ''ix_refunds_payment_id'',
      DropTable ''refunds'',
      DropIndex ''provider_configs'' ''ix_provider_configs_owner_id'',
      DropTable ''provider_configs'',
      DropIndex ''payments'' ''ix_payments_status'',
      DropIndex ''payments'' ''ix_payments_provider'',
      DropIndex ''payments'' ''ix_payments_owner_id'',
      DropTable ''payments'',
      DropIndex ''idempotency_keys'' ''ix_idempotency_keys_owner_id'',
      DropTable ''idempotency_keys'',
      DropIndex ''audit_logs'' ''ix_audit_logs_actor_id'',
      DropIndex ''audit_logs'' ''ix_audit_logs_action'',
      DropTable ''audit_logs'',
      DropIndex ''api_keys'' ''ix_api_keys_user_id'',
      DropIndex ''api_keys'' ''ix_api_keys_hashed_key'',
      DropTable ''api_keys'',
      DropIndex ''webhook_events'' ''ix_webhook_events_status'',
      DropIndex ''webhook_events'' ''ix_webhook_events_provider'',
      DropIndex ''webhook_events'' ''ix_webhook_events_event_id'',
      DropTable ''webhook_events'',
      DropIndex ''users'' ''ix_users_email'',
      DropTable ''users'']"


text \<open>\<open>Base.metadata.create_all\<close> makes the tables that are missing; the application runs it when it starts
  outside production, the seed script always.\<close>

definition create_all :: "schema \<Rightarrow> schema" where
  "create_all S = S @ filter (\<lambda>t. \<not> has_table (tab_name t) S) metadata"

definition lifespan_schema :: "Settings \<Rightarrow> schema \<Rightarrow> schema" where
  "lifespan_schema settings S = (if \<not> is_production settings then create_all S else S)"

section \<open>Agreement\<close>

definition same_table :: "sql_table \<Rightarrow> sql_table \<Rightarrow> bool" where
  "same_table t u \<longleftrightarrow>
     tab_name t = tab_name u \<and> tab_columns t = tab_columns u \<and> tab_pk t = tab_pk u \<and> tab_uniques t = tab_uniques u \<and>
     tab_fks t = tab_fks u \<and> set (tab_indexes t) = set (tab_indexes u)"

lemma upgrade_runs: "case run_ddl upgrade [] of None \<Rightarrow> False | Some S \<Rightarrow> list_all2 same_table S metadata \<and> run_ddl downgrade S = Some []"
  by code_simp

section \<open>Uniqueness\<close>

text \<open>What the rows hold in the columns that are texts or that some key or reference mentions; every other
  column is left out.\<close>

datatype cell = Null | CUuid uuid | CStr string | CProvider ProviderName

definition text_cell :: "string option \<Rightarrow> cell" where
  "text_cell x = (case x of None \<Rightarrow> Null | Some s \<Rightarrow> CStr s)"

fun cells :: "tables \<Rightarrow> string \<Rightarrow> (string \<rightharpoonup> cell) list" where
  "cells t name =
     (if name = ''users'' then map (\<lambda>r. [''id'' \<mapsto> CUuid (usr_id r), ''email'' \<mapsto> CStr (usr_email r),
        ''hashed_password'' \<mapsto> CStr (usr_hashed_password r), ''full_name'' \<mapsto> text_cell (usr_full_name r)]) (users t)
      else if name = ''api_keys'' then map (\<lambda>r. [''id'' \<mapsto> CUuid (key_id r), ''user_id'' \<mapsto> CUuid (key_user_id r),
        ''name'' \<mapsto> CStr (key_name r), ''hashed_key'' \<mapsto> CStr (key_hashed_key r),
        ''display_prefix'' \<mapsto> CStr (key_display_prefix r)]) (api_keys t)
      else if name = ''provider_configs'' then map (\<lambda>r. [''id'' \<mapsto> CUuid (cfg_id r), ''owner_id'' \<mapsto> CUuid (cfg_owner_id r),
        ''encrypted_secret'' \<mapsto> CStr (cfg_encrypted_secret r)]) (provider_configs t)
      else if name = ''payments'' then map (\<lambda>r. [''id'' \<mapsto> CUuid (pay_id r), ''owner_id'' \<mapsto> CUuid (pay_owner_id r),
        ''provider'' \<mapsto> CProvider (pay_provider r), ''provider_reference'' \<mapsto> text_cell (pay_provider_reference r),
        ''currency'' \<mapsto> CStr (pay_currency r), ''description'' \<mapsto> text_cell (pay_description r),
        ''customer_reference'' \<mapsto> text_cell (pay_customer_reference r),
        ''failure_reason'' \<mapsto> text_cell (pay_failure_reason r)]) (payments t)
      else if name = ''refunds'' then map (\<lambda>r. [''id'' \<mapsto> CUuid (rfd_id r), ''payment_id'' \<mapsto> CUuid (rfd_payment_id r),
        ''currency'' \<mapsto> CStr (rfd_currency r), ''reason'' \<mapsto> text_cell (rfd_reason r),
        ''provider_reference'' \<mapsto> text_cell (rfd_provider_reference r)]) (refunds t)
      else if name = ''idempotency_keys'' then map (\<lambda>r. [''id'' \<mapsto> CUuid (idk_id r), ''owner_id'' \<mapsto> CUuid (idk_owner_id r),
        ''endpoint'' \<mapsto> CStr (idk_endpoint r), ''key'' \<mapsto> CStr (idk_key r),
        ''request_hash'' \<mapsto> CStr (idk_request_hash r)]) (idempotency_keys t)
      else if name = ''webhook_events'' then map (\<lambda>r. [''id'' \<mapsto> CUuid (evt_id r), ''provider'' \<mapsto> CProvider (evt_provider r),
        ''event_id'' \<mapsto> CStr (evt_event_id r), ''event_type'' \<mapsto> CStr (evt_event_type r)]) (webhook_events t)
      else if name = ''audit_logs'' then map (\<lambda>r. [''id'' \<mapsto> CUuid (aud_id r),
        ''actor_id'' \<mapsto> (case aud_actor_id r of None \<Rightarrow> Null | Some i \<Rightarrow> CUuid i),
        ''resource_type'' \<mapsto> text_cell (aud_resource_type r), ''resource_id'' \<mapsto> text_cell (aud_resource_id r),
        ''correlation_id'' \<mapsto> text_cell (aud_correlation_id r)]) (audit_logs t)
      else [])"

declare cells.simps [simp del]

definition unique_keys :: "sql_table \<Rightarrow> string list list" where
  "unique_keys t = snd (tab_pk t) # map snd (tab_uniques t) @ map ix_columns (filter ix_unique (tab_indexes t))"

definition unique_key :: "string list \<Rightarrow> (string \<rightharpoonup> cell) list \<Rightarrow> bool" where
  \<comment> \<open>a key with a \<open>NULL\<close> in it collides with none\<close>
  "unique_key cols rows = distinct (filter (\<lambda>k. Some Null \<notin> set k) (map (\<lambda>r. map r cols) rows))"

definition satisfies :: "schema \<Rightarrow> tables \<Rightarrow> bool" where
  "satisfies S t \<longleftrightarrow> list_all (\<lambda>tab. list_all (\<lambda>key. unique_key key (cells t (tab_name tab))) (unique_keys tab)) S"

lemma migrated_keys:
  "map_option (map (\<lambda>t. (tab_name t, unique_keys t))) (run_ddl upgrade []) =
     Some [(''users'', [[''id''], [''email'']]),
           (''webhook_events'', [[''id''], [''provider'', ''event_id'']]),
           (''api_keys'', [[''id''], [''hashed_key'']]),
           (''audit_logs'', [[''id'']]),
           (''idempotency_keys'', [[''id''], [''owner_id'', ''endpoint'', ''key'']]),
           (''payments'', [[''id''], [''provider'', ''provider_reference'']]),
           (''provider_configs'', [[''id'']]),
           (''refunds'', [[''id'']])]"
  by code_simp

lemma unique_key_by:
  assumes "\<And>x. case f x of None \<Rightarrow> Some Null \<in> set (map (mk x) cols)
                      | Some v \<Rightarrow> map (mk x) cols = enc v \<and> Some Null \<notin> set (enc v)" and "inj enc"
  shows "unique_key cols (map mk xs) \<longleftrightarrow> unique_by f xs"
proof -
  have "filter (\<lambda>k. Some Null \<notin> set k) (map (\<lambda>r. map r cols) (map mk xs)) = map enc (List.map_filter f xs)"
  proof (induction xs)
    case (Cons x xs)
    then show ?case using assms(1) [of x] by (cases "f x") (simp_all add: List.map_filter_simps)
  qed (simp add: List.map_filter_simps)
  moreover have "inj_on enc (set (List.map_filter f xs))" using assms(2) by (rule inj_on_subset) simp
  ultimately show ?thesis by (simp add: unique_key_def unique_by_def distinct_map)
qed

lemma satisfies_keys:
  assumes "map (\<lambda>t. (tab_name t, unique_keys t)) S = ks"
  shows "satisfies S t \<longleftrightarrow> list_all (\<lambda>(name, keys). list_all (\<lambda>key. unique_key key (cells t name)) keys) ks"
  using assms by (auto simp: satisfies_def list_all_iff)

lemma key_columns:
  "(\<And>r. mk r c = Some (CUuid (f r))) \<Longrightarrow> unique_key [c] (map mk xs) = unique_by (Some \<circ> f) xs"
  "(\<And>r. mk r c = Some (CStr (g r))) \<Longrightarrow> unique_key [c] (map mk xs) = unique_by (Some \<circ> g) xs"
  "(\<And>r. mk r c = Some (CProvider (p r)) \<and> mk r d = Some (CStr (g r))) \<Longrightarrow>
     unique_key [c, d] (map mk xs) = unique_by (\<lambda>r. Some (p r, g r)) xs"
  "(\<And>r. mk r c = Some (CProvider (p r)) \<and> mk r d = Some (text_cell (h r))) \<Longrightarrow>
     unique_key [c, d] (map mk xs) = unique_by (\<lambda>r. map_option (Pair (p r)) (h r)) xs"
  "(\<And>r. mk r c = Some (CUuid (f r)) \<and> mk r d = Some (CStr (g r)) \<and> mk r e = Some (CStr (g' r))) \<Longrightarrow>
     unique_key [c, d, e] (map mk xs) = unique_by (\<lambda>r. Some (f r, g r, g' r)) xs"
  subgoal by (rule unique_key_by [where enc = "\<lambda>v. [Some (CUuid v)]"]) (auto simp: inj_def)
  subgoal by (rule unique_key_by [where enc = "\<lambda>v. [Some (CStr v)]"]) (auto simp: inj_def)
  subgoal by (rule unique_key_by [where enc = "\<lambda>v. [Some (CProvider (fst v)), Some (CStr (snd v))]"]) (auto simp: inj_def)
  subgoal by (rule unique_key_by [where enc = "\<lambda>v. [Some (CProvider (fst v)), Some (CStr (snd v))]"])
      (auto simp: inj_def text_cell_def split: option.splits)
  subgoal by (rule unique_key_by [where enc = "\<lambda>v. [Some (CUuid (fst v)), Some (CStr (fst (snd v))), Some (CStr (snd (snd v)))]"])
      (auto simp: inj_def)
  done

lemma keys_unique_ok:
  "unique_key [''id''] (cells t ''users'') = unique_by (Some \<circ> usr_id) (users t)"
  "unique_key [''email''] (cells t ''users'') = unique_by (Some \<circ> usr_email) (users t)"
  "unique_key [''id''] (cells t ''api_keys'') = unique_by (Some \<circ> key_id) (api_keys t)"
  "unique_key [''hashed_key''] (cells t ''api_keys'') = unique_by (Some \<circ> key_hashed_key) (api_keys t)"
  "unique_key [''id''] (cells t ''provider_configs'') = unique_by (Some \<circ> cfg_id) (provider_configs t)"
  "unique_key [''id''] (cells t ''payments'') = unique_by (Some \<circ> pay_id) (payments t)"
  "unique_key [''provider'', ''provider_reference''] (cells t ''payments'') =
     unique_by (\<lambda>p. map_option (Pair (pay_provider p)) (pay_provider_reference p)) (payments t)"
  "unique_key [''id''] (cells t ''refunds'') = unique_by (Some \<circ> rfd_id) (refunds t)"
  "unique_key [''id''] (cells t ''idempotency_keys'') = unique_by (Some \<circ> idk_id) (idempotency_keys t)"
  "unique_key [''owner_id'', ''endpoint'', ''key''] (cells t ''idempotency_keys'') =
     unique_by (\<lambda>k. Some (idk_owner_id k, idk_endpoint k, idk_key k)) (idempotency_keys t)"
  "unique_key [''id''] (cells t ''webhook_events'') = unique_by (Some \<circ> evt_id) (webhook_events t)"
  "unique_key [''provider'', ''event_id''] (cells t ''webhook_events'') =
     unique_by (\<lambda>e. Some (evt_provider e, evt_event_id e)) (webhook_events t)"
  "unique_key [''id''] (cells t ''audit_logs'') = unique_by (Some \<circ> aud_id) (audit_logs t)"
  by (simp add: cells.simps, rule key_columns, (simp; fail))+

lemma metadata_names:
  "map tab_name metadata = [''users'', ''webhook_events'', ''api_keys'', ''audit_logs'', ''idempotency_keys'', ''payments'',
     ''provider_configs'', ''refunds'']"
  by code_simp

lemma complete_schema:
  assumes "map (\<lambda>t. (tab_name t, unique_keys t)) S =
     [(''users'', a), (''webhook_events'', b), (''api_keys'', c), (''audit_logs'', d), (''idempotency_keys'', e),
      (''payments'', f), (''provider_configs'', g), (''refunds'', h)]"
  shows "filter (\<lambda>t. \<not> has_table (tab_name t) S) metadata = []"
proof -
  have "set (map tab_name S) = set (map fst (map (\<lambda>t. (tab_name t, unique_keys t)) S))" by (simp add: image_image)
  then have "set (map tab_name metadata) \<subseteq> set (map tab_name S)"
    unfolding assms by (simp add: metadata_names)
  then show ?thesis by (auto simp: has_table_def filter_empty_conv list_ex_iff)
qed

section \<open>Properties\<close>

text \<open>C24. The migration builds what the program maps.  Run on an empty database, \<open>upgrade\<close> succeeds and
  leaves exactly the tables the mapped classes declare, with the same columns, types, nullability,
  keys, references and indexes; \<open>downgrade\<close> then succeeds and leaves an empty database again.  A start of
  the application leaves a migrated database as it is, and outside production makes an empty one the
  same.  And the uniqueness the keys demand of the rows is the one this development assumes of a commit.\<close>

theorem migration_matches_models:
  "\<exists>S. run_ddl upgrade [] = Some S \<and> list_all2 same_table S metadata \<and> run_ddl downgrade S = Some [] \<and>
     lifespan_schema settings S = S \<and> lifespan_schema settings [] = (if is_production settings then [] else metadata) \<and>
     (\<forall>t. satisfies S t = unique_ok t)"
proof -
  obtain S where S: "run_ddl upgrade [] = Some S" "list_all2 same_table S metadata" "run_ddl downgrade S = Some []"
    using upgrade_runs by (auto split: option.splits)
  have "satisfies S t = unique_ok t" for t
    using migrated_keys S(1) by (simp add: satisfies_keys unique_ok_def keys_unique_ok) blast
  moreover have "create_all S = S"
    using migrated_keys S(1) by (simp add: create_all_def complete_schema)
  moreover have "create_all [] = metadata" by (simp add: create_all_def has_table_def)
  ultimately show ?thesis using S by (simp add: lifespan_schema_def)
qed

end
