(* ===== verification/Operations.thy ===== *)
theory Operations
  imports Middleware Migration
begin

text \<open>
  Around the service: the log processors of \<^verbatim>\<open>app/core/logging.py\<close>, the key generator of \<^verbatim>\<open>app/cli.py\<close> and
  the bootstrap script \<^verbatim>\<open>scripts/seed.py\<close>.
\<close>

section \<open>Log processors\<close>

type_synonym event_dict = "(string \<times> json) list"

definition SENSITIVE_KEYS :: "string list" where
  "SENSITIVE_KEYS =
     [''password'', ''secret'', ''token'', ''access_token'', ''refresh_token'', ''authorization'', ''api_key'', ''apikey'',
      ''card_number'', ''cvv'', ''cvc'', ''pan'', ''client_secret'', ''secret_encryption_key'', ''jwt_secret_key'']"

definition REDACTED :: string where
  "REDACTED = ''***redacted***''"

definition add_correlation_id :: "string \<Rightarrow> event_dict \<Rightarrow> event_dict" where
  "add_correlation_id cid event_dict =
     (if cid \<noteq> [] then dict_set ''correlation_id'' (JStr cid) event_dict else event_dict)"

definition redact_sensitive :: "event_dict \<Rightarrow> event_dict" where
  "redact_sensitive event_dict =
     map (\<lambda>(key, v). (key, if lower key \<in> set SENSITIVE_KEYS then JStr REDACTED else v)) event_dict"

text \<open>What the two leave of an entry: a sensitive key has lost its value, every other key keeps it.
  Only the keys of the entry itself are looked at, not those inside its values.\<close>

lemma redact_get:
  "map_of (redact_sensitive ev) k =
     (if lower k \<in> set SENSITIVE_KEYS then map_option (\<lambda>_. JStr REDACTED) (map_of ev k) else map_of ev k)"
  by (induction ev) (auto simp: redact_sensitive_def)

text \<open>
  \<open>configure_logging\<close>: the processors of an entry in their order, the library's own as parameters, and the
  threshold below which a call does nothing.
\<close>

record log_library =
  merge_contextvars :: "event_dict \<Rightarrow> event_dict"
  add_log_level :: "string \<Rightarrow> event_dict \<Rightarrow> event_dict"
  time_stamper :: "event_dict \<Rightarrow> event_dict"
  stack_info_renderer :: "event_dict \<Rightarrow> event_dict"
  json_renderer :: "event_dict \<Rightarrow> string"
  console_renderer :: "event_dict \<Rightarrow> string"

definition level_names :: "(string \<times> nat) list" where
  \<comment> \<open>\<open>logging.getLevelNamesMapping()\<close>\<close>
  "level_names = [(''CRITICAL'', 50), (''FATAL'', 50), (''ERROR'', 40), (''WARN'', 30), (''WARNING'', 30), (''INFO'', 20),
     (''DEBUG'', 10), (''NOTSET'', 0)]"

definition threshold :: "string \<Rightarrow> nat" where
  "threshold level = (case map_of level_names (upper level) of Some n \<Rightarrow> n | None \<Rightarrow> 20)"

definition method_level :: "string \<Rightarrow> nat" where
  \<comment> \<open>the level of the logger's method of that name\<close>
  "method_level meth = (if meth = ''exception'' then 40 else threshold meth)"

definition shared_processors :: "log_library \<Rightarrow> string \<Rightarrow> string \<Rightarrow> (event_dict \<Rightarrow> event_dict) list" where
  "shared_processors L cid meth =
     [merge_contextvars L, add_log_level L meth, time_stamper L, add_correlation_id cid, redact_sensitive,
      stack_info_renderer L]"

definition log_line :: "log_library \<Rightarrow> string \<Rightarrow> bool \<Rightarrow> string \<Rightarrow> string \<Rightarrow> event_dict \<Rightarrow> string option" where
  \<comment> \<open>a call of the logger's method \<open>meth\<close>: the line written, if one is\<close>
  "log_line L level json_logs cid meth event_dict =
     (if method_level meth < threshold level then None
      else let entry = fold (\<lambda>process e. process e) (shared_processors L cid meth) event_dict
           in Some (if json_logs then json_renderer L entry else console_renderer L entry))"

lemma add_correlation_get:
  "map_of (add_correlation_id cid ev) k = (if k = ''correlation_id'' \<and> cid \<noteq> [] then Some (JStr cid) else map_of ev k)"
  by (simp add: add_correlation_id_def)

lemma correlation_not_sensitive: "lower ''correlation_id'' \<notin> set SENSITIVE_KEYS"
  by code_simp

section \<open>The key generator\<close>

definition generate_key :: "'e platform \<Rightarrow> ('e world, exc, string) op" where
  "generate_key P w = (case urandom P 32 (env w) of (bs, e) \<Rightarrow> (Inr (b64encode bs), w\<lparr>env := e\<rparr>))"

section \<open>The seed script\<close>

text \<open>The work of its session; whether an administrator was created is what it prints.\<close>

definition seed :: "'e platform \<Rightarrow> string \<Rightarrow> string \<Rightarrow> ('e world, exc, bool) op" where
  "seed P admin_email admin_password =
     andThen (email_exists admin_email) (\<lambda>exists.
     if exists then return False
     else andThen (hash_password P admin_password) (\<lambda>hashed.
          andThen (add_row P UserRow (new_user admin_email hashed (Some ''Administrator'') ADMIN)) (\<lambda>_.
          return True)))"

interpretation seed_body: unit_of_work_body "seed P email password" for P email password
  by unfold_locales (auto simp: seed_def intro!: keeps_intros)

lemma seed_created:
  assumes "seed P email password w = (Inr True, v)" and "pending w = []"
  obtains hashed i now where "\<forall>u \<in> set (users (objs w)). usr_email u \<noteq> lower email" and "password \<noteq> []"
    and "view v = insert_row (UserRow (new_user email hashed (Some ''Administrator'') ADMIN i now)) (objs w)"
  using assms
  by (auto simp: seed_def email_exists_def hash_password_def op_splits view_def split: if_splits prod.splits)

lemma seed_again:
  assumes "\<forall>u \<in> set (users (objs w)). usr_email u \<noteq> lower email" and "password \<noteq> []" and "pending w = []"
  shows "\<exists>hashed i now v. seed P email password w = (Inr True, v) \<and>
    view v = insert_row (UserRow (new_user email hashed (Some ''Administrator'') ADMIN i now)) (objs w)"
proof -
  obtain h e where h: "argon2_hash P password (env w) = (h, e)" by fastforce
  obtain i e' where i: "uuid4 P e = (i, e')" by fastforce
  have "\<not> (\<exists>u \<in> set (users (objs w)). usr_email u = lower email)" using assms(1) by blast
  then show ?thesis
    using assms(2,3) h i by (simp add: seed_def email_exists_def hash_password_def add_row_def op_simps view_def Let_def) blast
qed

section \<open>Properties\<close>

text \<open>C25. What reaches the log.  A line is written exactly when the method's level reaches the configured one
  (an unknown level counts as \<open>INFO\<close>); in the entry it renders every key of the redaction list, in
  any casing, has lost its value, the correlation id of the request overrides the caller's, and every
  other key is untouched.  That is all redaction does: a secret one level down is written out.\<close>

theorem log_entries_redacted:
  "\<exists>e. log_line L level json_logs cid meth ev =
       (if method_level meth < threshold level then None
        else Some ((if json_logs then json_renderer L else console_renderer L) (stack_info_renderer L e))) \<and>
     (\<forall>k. map_of e k =
       (let v = map_of (time_stamper L (add_log_level L meth (merge_contextvars L ev))) k
        in if lower k \<in> set SENSITIVE_KEYS then map_option (\<lambda>_. JStr REDACTED) v
           else if k = ''correlation_id'' \<and> cid \<noteq> [] then Some (JStr cid) else v)) \<and>
     redact_sensitive [(''headers'', JObj [(''authorization'', JStr secret)])] = [(''headers'', JObj [(''authorization'', JStr secret)])]"
proof -
  let ?e = "redact_sensitive (add_correlation_id cid (time_stamper L (add_log_level L meth (merge_contextvars L ev))))"
  have "lower ''headers'' \<notin> set SENSITIVE_KEYS" by code_simp
  then have "redact_sensitive [(''headers'', JObj [(''authorization'', JStr secret)])] = [(''headers'', JObj [(''authorization'', JStr secret)])]"
    by (simp add: redact_sensitive_def)
  then show ?thesis
    using correlation_not_sensitive
    by (intro exI [of _ ?e]) (auto simp: log_line_def shared_processors_def Let_def redact_get add_correlation_get)
qed

text \<open>The seed script is idempotent for an address in lower case only.  After a run that created the
  administrator, a second run finds the account and changes nothing if the configured address is
  in lower case; otherwise it does not find the account it stored, tries to insert it again and
  fails on the unique address.\<close>

theorem seed_twice:
  assumes "session_scope P (seed P email password) w = (Inr True, v)" and "enforces_unique P" and "committed u = committed v"
  shows "committed (snd (session_scope P (seed P email password) u)) = committed v \<and>
    (if lower email = email then fst (session_scope P (seed P email password) u) = Inr False
     else \<exists>e. fst (session_scope P (seed P email password) u) = Inl e)"
proof -
  let ?w = "w\<lparr>objs := committed w, pending := []\<rparr>" and ?u = "u\<lparr>objs := committed u, pending := []\<rparr>"
  obtain x where run: "seed P email password ?w = (Inr True, x)" and v: "committed v = view x" and acc: "db_accepts P (view x)"
    using assms(1) by (rule session_scope_Inr)
  obtain hashed i now where none: "\<forall>k \<in> set (users (committed w)). usr_email k \<noteq> lower email" and pw: "password \<noteq> []"
    and x: "view x = insert_row (UserRow (new_user email hashed (Some ''Administrator'') ADMIN i now)) (committed w)"
    using seed_created [OF run] by auto
  let ?a = "new_user email hashed (Some ''Administrator'') ADMIN i now"
  have us: "users (committed u) = users (committed w) @ [?a]" "usr_email ?a = email"
    using assms(3) v x by (simp_all add: new_user_def)
  show ?thesis
  proof (cases "lower email = email")
    case True
    then have "seed P email password ?u = (Inr False, ?u)"
      using us by (simp add: seed_def email_exists_def op_simps)
    then show ?thesis using True acc v assms(3) by (simp add: unit_of_work Let_def)
  next
    case False
    then have "\<forall>k \<in> set (users (objs ?u)). usr_email k \<noteq> lower email" using none us by auto
    from seed_again [OF this pw, of P] obtain hashed' i' now' y where again: "seed P email password ?u = (Inr True, y)"
      and y: "view y = insert_row (UserRow (new_user email hashed' (Some ''Administrator'') ADMIN i' now')) (committed u)" by auto
    have "\<not> unique_ok (view y)"
      using us y by (simp add: unique_ok_def unique_by_def map_filter_Some new_user_def)
    then have "\<not> db_accepts P (view y)" using assms(2) by (auto simp: enforces_unique_def)
    then have "session_scope P (seed P email password) u = (Inl (Py IntegrityError), y\<lparr>objs := committed y, pending := []\<rparr>)"
      using again by (simp add: unit_of_work Let_def view_def)
    then show ?thesis using False seed_body.failure_leaves_no_trace assms(3) by fastforce
  qed
qed

theorem seed_twice_witness:
  "\<exists>v e. session_scope sandbox (seed sandbox ''Admin@x.io'' ''pass-word-1'') (sandbox_world Map.empty) = (Inr True, v) \<and>
     fst (session_scope sandbox (seed sandbox ''Admin@x.io'' ''pass-word-1'') v) = Inl e"
proof -
  have ok: "unique_ok (empty_tables\<lparr>users := [u]\<rparr>)" for u
    by (simp add: unique_ok_def unique_by_def map_filter_Some empty_tables_def List.map_filter_simps)
  have "\<exists>v. session_scope sandbox (seed sandbox ''Admin@x.io'' ''pass-word-1'') (sandbox_world Map.empty) = (Inr True, v)"
    using ok [unfolded empty_tables_def]
    by (simp add: unit_of_work seed_def email_exists_def hash_password_def add_row_def op_simps Let_def sandbox_steps
        sandbox_world_def empty_tables_def)
  then obtain v where run: "session_scope sandbox (seed sandbox ''Admin@x.io'' ''pass-word-1'') (sandbox_world Map.empty) = (Inr True, v)"
    by blast
  have "lower ''Admin@x.io'' \<noteq> ''Admin@x.io''" by code_simp
  then show ?thesis using seed_twice [OF run sandbox_assumptions(1) refl] run by auto
qed

text \<open>A generated key boots a production process.  What \<open>generate-key\<close> prints, 32 random bytes in
  URL-safe base64, is accepted as the master key: with it, its own JWT secret, debugging off and no
  wildcard origin, \<open>create_app\<close> passes the start-up check and builds a secret box with just those bytes.\<close>

theorem generated_key_boots:
  assumes "generate_key P w = (Inr key, v)" and "urandom P 32 (env w) = (bs, e)" and "length bs = 32"
    and "bs \<noteq> replicate 32 (CHR 0x00)" and "secret_encryption_key s = key"
    and "\<not> contains_str ''dev-only-insecure'' (jwt_secret_key s)" and "\<not> debug s" and "''*'' \<notin> set (cors_allow_origins s)"
  shows "\<exists>app limiter. create_app s = Inr (app, limiter) \<and>
    gm_secret_box (app_gateway app) = \<lparr>box_keys = [(''primary'', bs)], box_active_key_id = ''primary''\<rparr>"
proof -
  have "key = b64encode bs" using assms(1,2) by (simp add: generate_key_def)
  then have "encryption_key_bytes s = Inr bs" using assms(3,5) by (simp add: encryption_key_bytes_def)
  moreover have "assert_production_ready s = Inr ()"
    using assms(4,6-8) calculation by (simp add: assert_production_ready_def production_problems_def)
  ultimately show ?thesis using assms(3) by (simp add: create_app_def from_single_key_def SecretBox_init_def)
qed

theorem generated_key_boots_witness:
  "\<exists>key v app limiter. generate_key (sandbox\<lparr>urandom := (\<lambda>k n. (replicate k (CHR ''x''), n))\<rparr>) (sandbox_world Map.empty) = (Inr key, v) \<and>
     create_app (default_settings\<lparr>environment := PRODUCTION, jwt_secret_key := replicate 32 (CHR ''j''),
       secret_encryption_key := key, cors_allow_origins := []\<rparr>) = Inr (app, limiter)"
proof -
  let ?P = "sandbox\<lparr>urandom := (\<lambda>k n. (replicate k (CHR ''x''), n))\<rparr>" and ?w = "sandbox_world Map.empty"
  obtain key v where key: "generate_key ?P ?w = (Inr key, v)" by (simp add: generate_key_def)
  let ?s = "default_settings\<lparr>environment := PRODUCTION, jwt_secret_key := replicate 32 (CHR ''j''),
       secret_encryption_key := key, cors_allow_origins := []\<rparr>"
  have "\<not> contains_str ''dev-only-insecure'' (jwt_secret_key ?s)" by (simp add: numeral_eq_Suc starts_with_def)
  then show ?thesis
    using generated_key_boots [OF key, of "replicate 32 (CHR ''x'')" "env ?w" ?s] key by (simp add: default_settings_def) blast
qed

end
