(* ===== verification/Addresses.thy ===== *)
theory Addresses
  imports Hashing
begin

unbundle bit_operations_syntax

text \<open>
  The part of Python's \<open>ipaddress\<close> that the request guard uses: the two textual forms of an
  address, read and written, and the predicates that sort addresses into the blocks of the
  address registries (Python 3.12, the version of the container image).  The theory closes with
  the round trip of the text and with the blocks as intervals of integers.
\<close>

section \<open>Big-endian numbers\<close>

definition from_digits :: "nat \<Rightarrow> nat list \<Rightarrow> nat" where
  "from_digits B ds = foldl (\<lambda>n d. B * n + d) 0 ds"

primrec to_digits :: "nat \<Rightarrow> nat \<Rightarrow> nat \<Rightarrow> nat list" where
  "to_digits B 0 n = []"
| "to_digits B (Suc k) n = to_digits B k (n div B) @ [n mod B]"

lemma length_to_digits [simp]: "length (to_digits B k n) = k"
  by (induction k arbitrary: n) simp_all

lemma to_digits_bound: "0 < B \<Longrightarrow> d \<in> set (to_digits B k n) \<Longrightarrow> d < B"
  by (induction k arbitrary: n) auto

lemma from_to_digits: "from_digits B (to_digits B k n) = n mod B ^ k"
proof (induction k arbitrary: n)
  case (Suc k)
  then show ?case by (simp add: from_digits_def mod_mult2_eq)
qed (simp add: from_digits_def)

section \<open>Addresses and their text\<close>

datatype ip_address = IPv4Address "32 word" | IPv6Address "128 word" "string option"

definition join_on :: "char \<Rightarrow> string list \<Rightarrow> string" where
  "join_on d ws = concat (case ws of [] \<Rightarrow> [] | w # ws \<Rightarrow> w # map (\<lambda>v. d # v) ws)"

text \<open>\<open>_BaseV4._parse_octet\<close> and \<open>_ip_int_from_string\<close>; \<open>None\<close> stands for \<open>AddressValueError\<close>.\<close>

definition parse_octet :: "string \<Rightarrow> nat option" where
  "parse_octet s =
     (if s = [] \<or> \<not> list_all is_digit s \<or> length s > 3 \<or> s \<noteq> ''0'' \<and> take 1 s = ''0'' \<or> digits_val s > 255
      then None else Some (digits_val s))"

definition parse_v4 :: "string \<Rightarrow> 32 word option" where
  "parse_v4 s =
     (let octets = split_on CHR ''.'' s
      in if length octets \<noteq> 4 then None
         else map_option (\<lambda>ds. word_of_nat (from_digits 256 ds)) (those (map parse_octet octets)))"

fun show_hex :: "nat \<Rightarrow> string" where
  "show_hex n = (if n < 16 then [hex_char n] else show_hex (n div 16) @ [hex_char (n mod 16)])"

declare show_hex.simps [simp del]

definition parse_hextet :: "string \<Rightarrow> nat option" where
  "parse_hextet s =
     (if s = [] \<or> length s > 4 then None else map_option (from_digits 16) (those (map hex_val s)))"

text \<open>\<open>_BaseV6._ip_int_from_string\<close>: the parts between colons, an IPv4 tail as two parts of its
  own, and the place of \<open>::\<close>.\<close>

definition v4_tail :: "string list \<Rightarrow> string list option" where
  "v4_tail parts =
     (if CHR ''.'' \<in> set (last parts)
      then map_option (\<lambda>w. butlast parts @ map show_hex (to_digits 65536 2 (unat w))) (parse_v4 (last parts))
      else Some parts)"

definition hextets_value :: "string list \<Rightarrow> nat \<Rightarrow> string list \<Rightarrow> 128 word option" where
  "hextets_value hi skipped lo =
     (case (those (map parse_hextet hi), those (map parse_hextet lo)) of
        (Some h, Some l) \<Rightarrow> Some (word_of_nat (from_digits 65536 (h @ replicate skipped 0 @ l)))
      | _ \<Rightarrow> None)"

definition parse_parts6 :: "string list \<Rightarrow> 128 word option" where
  "parse_parts6 parts =
     (if length parts > 9 then None
      else case filter (\<lambda>i. parts ! i = []) [1 ..< length parts - 1] of
        [] \<Rightarrow> if length parts \<noteq> 8 \<or> hd parts = [] \<or> last parts = [] then None
              else hextets_value parts 0 []
      | [i] \<Rightarrow>
          (let hi = (if hd parts = [] then i - 1 else i);
               lo = (if last parts = [] then length parts - i - 2 else length parts - i - 1)
           in if hd parts = [] \<and> hi \<noteq> 0 \<or> last parts = [] \<and> lo \<noteq> 0 \<or> 8 < hi + lo + 1 then None
              else hextets_value (take hi parts) (8 - (hi + lo)) (drop (length parts - lo) parts))
      | _ \<Rightarrow> None)"

definition parse_v6 :: "string \<Rightarrow> 128 word option" where
  "parse_v6 s =
     (let parts = split_on CHR '':'' s
      in if length parts < 3 then None
         else case v4_tail parts of None \<Rightarrow> None | Some parts \<Rightarrow> parse_parts6 parts)"

definition ip_address :: "string \<Rightarrow> ip_address option" where
  \<comment> \<open>\<open>None\<close> is \<open>ValueError\<close>\<close>
  "ip_address s =
     (if CHR ''/'' \<in> set s then None
      else case parse_v4 s of
        Some w \<Rightarrow> Some (IPv4Address w)
      | None \<Rightarrow>
          (case partition_on CHR ''%'' s of (addr, sep, scope) \<Rightarrow>
             if sep \<noteq> [] \<and> (scope = [] \<or> CHR ''%'' \<in> set scope) then None
             else map_option (\<lambda>w. IPv6Address w (if sep = [] then None else Some scope)) (parse_v6 addr)))"

text \<open>\<open>_compress_hextets\<close>: the longest run of at least two zero groups becomes \<open>::\<close>.  The loop keeps
  the best run so far and the run it is in.\<close>

record zero_runs =
  best_start :: nat
  best_len :: nat
  run_len :: nat

definition run_step :: "zero_runs \<Rightarrow> nat \<times> string \<Rightarrow> zero_runs" where
  "run_step z = (\<lambda>(index, hextet).
     if hextet = ''0''
     then (let z = z\<lparr>run_len := run_len z + 1\<rparr>
           in if run_len z > best_len z
              then z\<lparr>best_len := run_len z, best_start := index + 1 - run_len z\<rparr> else z)
     else z\<lparr>run_len := 0\<rparr>)"

definition longest_zeros :: "string list \<Rightarrow> zero_runs" where
  "longest_zeros hs = foldl run_step \<lparr>best_start = 0, best_len = 0, run_len = 0\<rparr> (enumerate 0 hs)"

definition compress_hextets :: "string list \<Rightarrow> string list" where
  "compress_hextets hs =
     (let z = longest_zeros hs; s = best_start z; e = best_start z + best_len z
      in if best_len z > 1
         then (if s = 0 then [[]] else []) @ take s hs @ [[]] @ drop e hs @ (if e = length hs then [[]] else [])
         else hs)"

fun ip_str :: "ip_address \<Rightarrow> string" where
  "ip_str (IPv4Address w) = join_on CHR ''.'' (map show_nat (to_digits 256 4 (unat w)))"
| "ip_str (IPv6Address w scope) =
     join_on CHR '':'' (compress_hextets (map show_hex (to_digits 65536 8 (unat w)))) @
     (case scope of None \<Rightarrow> [] | Some z \<Rightarrow> CHR ''%'' # z)"

text \<open>What \<open>ip_address\<close> can return: a zone is neither empty nor contains \<open>%\<close> or \<open>/\<close>.\<close>

fun zone_ok :: "ip_address \<Rightarrow> bool" where
  "zone_ok (IPv4Address w) = True"
| "zone_ok (IPv6Address w scope) =
     (case scope of None \<Rightarrow> True | Some z \<Rightarrow> z \<noteq> [] \<and> CHR ''%'' \<notin> set z \<and> CHR ''/'' \<notin> set z)"

section \<open>Blocks of addresses\<close>

definition in_net :: "'a::len word \<times> nat \<Rightarrow> 'a word \<Rightarrow> bool" where
  "in_net n a \<longleftrightarrow> a AND NOT (mask (LENGTH('a) - snd n)) = fst n"

definition v4_net :: "nat list \<Rightarrow> nat \<Rightarrow> 32 word \<times> nat" where
  "v4_net octets len = (word_of_nat (from_digits 256 (octets @ replicate (4 - length octets) 0)), len)"

definition v6_net :: "nat list \<Rightarrow> nat \<Rightarrow> 128 word \<times> nat" where
  "v6_net hextets len = (word_of_nat (from_digits 65536 (hextets @ replicate (8 - length hextets) 0)), len)"

definition v4_private :: "(32 word \<times> nat) list" where
  "v4_private =
     [v4_net [0] 8, v4_net [10] 8, v4_net [127] 8, v4_net [169, 254] 16, v4_net [172, 16] 12,
      v4_net [192, 0, 0] 24, v4_net [192, 0, 0, 170] 31, v4_net [192, 0, 2] 24, v4_net [192, 168] 16,
      v4_net [198, 18] 15, v4_net [198, 51, 100] 24, v4_net [203, 0, 113] 24, v4_net [240] 4,
      v4_net [255, 255, 255, 255] 32]"

definition v4_private_exceptions :: "(32 word \<times> nat) list" where
  "v4_private_exceptions = [v4_net [192, 0, 0, 9] 32, v4_net [192, 0, 0, 10] 32]"

definition v6_private :: "(128 word \<times> nat) list" where
  "v6_private =
     [v6_net [0, 0, 0, 0, 0, 0, 0, 1] 128, v6_net [] 128, v6_net [0, 0, 0, 0, 0, 0xFFFF] 96,
      v6_net [0x64, 0xFF9B, 1] 48, v6_net [0x100] 64, v6_net [0x2001] 23, v6_net [0x2001, 0xDB8] 32,
      v6_net [0x2002] 16, v6_net [0xFC00] 7, v6_net [0xFE80] 10]"

definition v6_private_exceptions :: "(128 word \<times> nat) list" where
  "v6_private_exceptions =
     [v6_net [0x2001, 1, 0, 0, 0, 0, 0, 1] 128, v6_net [0x2001, 1, 0, 0, 0, 0, 0, 2] 128,
      v6_net [0x2001, 3] 32, v6_net [0x2001, 4, 0x112] 48, v6_net [0x2001, 0x20] 28, v6_net [0x2001, 0x30] 28]"

definition v6_reserved :: "(128 word \<times> nat) list" where
  "v6_reserved =
     [v6_net [] 8, v6_net [0x100] 8, v6_net [0x200] 7, v6_net [0x400] 6, v6_net [0x800] 5, v6_net [0x1000] 4,
      v6_net [0x4000] 3, v6_net [0x6000] 3, v6_net [0x8000] 3, v6_net [0xA000] 3, v6_net [0xC000] 3,
      v6_net [0xE000] 4, v6_net [0xF000] 5, v6_net [0xF800] 6, v6_net [0xFE00] 9]"

definition in_nets :: "('a::len word \<times> nat) list \<Rightarrow> 'a word \<Rightarrow> bool" where
  "in_nets ns a \<longleftrightarrow> list_ex (\<lambda>n. in_net n a) ns"

definition ipv4_mapped :: "128 word \<Rightarrow> 32 word option" where
  "ipv4_mapped w = (if drop_bit 32 w = 0xFFFF then Some (ucast w) else None)"

definition v4_is_private :: "32 word \<Rightarrow> bool" where
  "v4_is_private w \<longleftrightarrow> in_nets v4_private w \<and> \<not> in_nets v4_private_exceptions w"

fun is_private :: "ip_address \<Rightarrow> bool" where
  "is_private (IPv4Address w) = v4_is_private w"
| "is_private (IPv6Address w _) =
     (case ipv4_mapped w of
        Some v \<Rightarrow> v4_is_private v
      | None \<Rightarrow> in_nets v6_private w \<and> \<not> in_nets v6_private_exceptions w)"

fun is_loopback :: "ip_address \<Rightarrow> bool" where
  "is_loopback (IPv4Address w) = in_net (v4_net [127] 8) w"
| "is_loopback (IPv6Address w _) = (w = 1)"

fun is_link_local :: "ip_address \<Rightarrow> bool" where
  "is_link_local (IPv4Address w) = in_net (v4_net [169, 254] 16) w"
| "is_link_local (IPv6Address w _) = in_net (v6_net [0xFE80] 10) w"

fun is_multicast :: "ip_address \<Rightarrow> bool" where
  "is_multicast (IPv4Address w) = in_net (v4_net [224] 4) w"
| "is_multicast (IPv6Address w _) = in_net (v6_net [0xFF00] 8) w"

fun is_reserved :: "ip_address \<Rightarrow> bool" where
  "is_reserved (IPv4Address w) = in_net (v4_net [240] 4) w"
| "is_reserved (IPv6Address w _) = in_nets v6_reserved w"

fun is_unspecified :: "ip_address \<Rightarrow> bool" where
  "is_unspecified (IPv4Address w) = (w = 0)"
| "is_unspecified (IPv6Address w _) = (w = 0)"

section \<open>The text of an address reads back\<close>

lemma those_map_Some: "(\<And>x. x \<in> set xs \<Longrightarrow> f x = Some (g x)) \<Longrightarrow> those (map f xs) = Some (map g xs)"
  by (induction xs) auto

lemma map_map_id: "(\<And>x. x \<in> set xs \<Longrightarrow> f (g x) = Some x) \<Longrightarrow> those (map f (map g xs)) = Some xs"
  using those_map_Some [of xs "f \<circ> g" id] by simp

lemma join_on_simps [simp]:
  "join_on d [] = []" "join_on d [w] = w" "join_on d (w # v # ws) = w @ d # join_on d (v # ws)"
  by (simp_all add: join_on_def)

lemma split_join: "ws \<noteq> [] \<Longrightarrow> (\<And>w. w \<in> set ws \<Longrightarrow> d \<notin> set w) \<Longrightarrow> split_on d (join_on d ws) = ws"
proof (induction ws rule: induct_list012)
  case (3 w v ws)
  then show ?case by (simp add: split_on_append)
qed (simp_all add: split_on_none)

lemma set_join: "c \<noteq> d \<Longrightarrow> c \<in> set (join_on d ws) \<longleftrightarrow> (\<exists>w\<in>set ws. c \<in> set w)"
  by (induction ws rule: induct_list012) auto

lemma join_on_sep: "2 \<le> length ws \<Longrightarrow> d \<in> set (join_on d ws)"
  by (induction ws rule: induct_list012) auto

lemma split_on_char: "c \<in> set s \<Longrightarrow> c \<noteq> d \<Longrightarrow> \<exists>p\<in>set (split_on d s). c \<in> set p"
  by (induction s) (auto split: list.splits)

lemma partition_on_none: "d \<notin> set s \<Longrightarrow> partition_on d s = (s, [], [])"
  by (induction s) (auto simp: partition_on_def Let_def)

lemma to_digits_4: "to_digits B 4 n = [n div B div B div B mod B, n div B div B mod B, n div B mod B, n mod B]"
  by (simp add: numeral_eq_Suc)

lemma to_digits_8:
  "to_digits B 8 n =
    (let m = n div B div B div B div B
     in [m div B div B div B mod B, m div B div B mod B, m div B mod B, m mod B,
         n div B div B div B mod B, n div B div B mod B, n div B mod B, n mod B])"
  by (simp add: numeral_eq_Suc Let_def)

text \<open>Octets and hextets.\<close>

lemma parse_octet_show: "n < 256 \<Longrightarrow> parse_octet (show_nat n) = Some n"
proof -
  assume n: "n < 256"
  have "length (show_nat n) \<le> 3" using n by (simp add: show_nat.simps [of n] show_nat.simps [of "n div 10"] show_nat.simps [of "n div 10 div 10"])
  moreover have "take 1 (show_nat n) = ''0'' \<Longrightarrow> show_nat n = ''0''"
    using n by (auto simp: show_nat.simps [of n] show_nat.simps [of "n div 10"] show_nat.simps [of "n div 10 div 10"] digit_char_def
        split: if_splits dest!: arg_cong [where f = "of_char :: char \<Rightarrow> nat"])
  ultimately show ?thesis using n show_nat_digits [of _ n] by (auto simp: parse_octet_def list_all_iff)
qed

lemma show_hex_nonempty [simp]: "show_hex n \<noteq> []"
  by (subst show_hex.simps) simp

lemma show_hex_set: "c \<in> set (show_hex n) \<Longrightarrow> \<exists>d<16. c = hex_char d"
proof (induction n rule: less_induct)
  case (less n)
  show ?case
  proof (cases "n < 16")
    case False
    then have "c \<in> set (show_hex (n div 16)) \<or> c = hex_char (n mod 16)"
      using less(2) by (auto simp: show_hex.simps [of n])
    moreover have "\<exists>d<16. hex_char (n mod 16) = hex_char d" by (intro exI [of _ "n mod 16"]) simp
    ultimately show ?thesis using less(1) [of "n div 16"] False by fastforce
  qed (use less(2) in \<open>auto simp: show_hex.simps [of n]\<close>)
qed

lemma hex_char_plain: "d < 16 \<Longrightarrow> hex_char d \<notin> {CHR ''.'', CHR '':'', CHR ''/'', CHR ''%''}"
  by (auto simp: hex_char_def dest: arg_cong [where f = "of_char :: char \<Rightarrow> nat"])

lemma show_hex_plain: "c \<in> {CHR ''.'', CHR '':'', CHR ''/'', CHR ''%''} \<Longrightarrow> c \<notin> set (show_hex n)"
proof
  assume "c \<in> {CHR ''.'', CHR '':'', CHR ''/'', CHR ''%''}" and "c \<in> set (show_hex n)"
  then obtain d where "d < 16" "c = hex_char d" using show_hex_set by auto
  then show False using hex_char_plain [of d] \<open>c \<in> {CHR ''.'', CHR '':'', CHR ''/'', CHR ''%''}\<close> by simp
qed

lemma those_snoc: "those (xs @ [y]) = (case (those xs, y) of (Some as, Some a) \<Rightarrow> Some (as @ [a]) | _ \<Rightarrow> None)"
  by (induction xs) (auto split: option.splits)

lemma those_show_hex: "\<exists>ds. those (map hex_val (show_hex n)) = Some ds \<and> from_digits 16 ds = n"
proof (induction n rule: less_induct)
  case (less n)
  show ?case
  proof (cases "n < 16")
    case True
    then show ?thesis by (simp add: show_hex.simps [of n] hex_val_char from_digits_def)
  next
    case False
    then obtain ds where "those (map hex_val (show_hex (n div 16))) = Some ds" "from_digits 16 ds = n div 16"
      using less [of "n div 16"] by auto
    then show ?thesis using False
      by (intro exI [of _ "ds @ [n mod 16]"])
        (simp add: show_hex.simps [of n] those_snoc hex_val_char from_digits_def)
  qed
qed

lemma parse_hextet_show: "n < 65536 \<Longrightarrow> parse_hextet (show_hex n) = Some n"
proof -
  assume n: "n < 65536"
  have "length (show_hex n) \<le> 4"
    using n by (simp add: show_hex.simps [of n] show_hex.simps [of "n div 16"] show_hex.simps [of "n div 16 div 16"]
        show_hex.simps [of "n div 16 div 16 div 16"])
  moreover obtain ds where "those (map hex_val (show_hex n)) = Some ds" "from_digits 16 ds = n"
    using those_show_hex by blast
  ultimately show ?thesis by (simp add: parse_hextet_def)
qed

text \<open>The loop of \<open>_compress_hextets\<close> finds a block of zero groups.\<close>

definition zero_block :: "string list \<Rightarrow> nat \<Rightarrow> nat \<Rightarrow> bool" where
  "zero_block hs s e \<longleftrightarrow> s \<le> e \<and> e \<le> length hs \<and> (\<forall>i\<in>{s..<e}. hs ! i = ''0'')"

lemma longest_zeros_block:
  "zero_block hs (best_start (longest_zeros hs)) (best_start (longest_zeros hs) + best_len (longest_zeros hs)) \<and>
   run_len (longest_zeros hs) \<le> length hs \<and> zero_block hs (length hs - run_len (longest_zeros hs)) (length hs)"
proof (induction hs rule: rev_induct)
  case Nil
  show ?case by (simp add: longest_zeros_def zero_block_def)
next
  case (snoc x hs)
  have step: "longest_zeros (hs @ [x]) = run_step (longest_zeros hs) (length hs, x)"
    by (simp add: longest_zeros_def enumerate_append_eq)
  have grow: "zero_block (hs @ [x]) s e" if "zero_block hs s e" for s e
    using that by (auto simp: zero_block_def nth_append)
  have next_zero: "zero_block (hs @ [x]) s (Suc (length hs))" if "zero_block hs s (length hs)" "x = ''0''" for s
    using that by (auto simp: zero_block_def nth_append less_Suc_eq)
  show ?case
    using snoc grow [of "best_start (longest_zeros hs)"] next_zero [of "length hs - run_len (longest_zeros hs)"]
    by (auto simp: step run_step_def Let_def zero_block_def Suc_diff_le nth_append)
qed

lemma compress_cases:
  "compress_hextets hs = hs \<or>
   (\<exists>s e. zero_block hs s e \<and> s + 1 < e \<and> compress_hextets hs =
      (if take s hs = [] then [[]] else []) @ take s hs @ [[]] @ drop e hs @ (if drop e hs = [] then [[]] else []))"
proof (cases "best_len (longest_zeros hs) > 1")
  case True
  let ?s = "best_start (longest_zeros hs)" and ?e = "best_start (longest_zeros hs) + best_len (longest_zeros hs)"
  have "zero_block hs ?s ?e" using longest_zeros_block [of hs] by simp
  then show ?thesis using True
    by (intro disjI2 exI [of _ ?s] exI [of _ ?e]) (auto simp: compress_hextets_def Let_def zero_block_def)
qed (simp add: compress_hextets_def Let_def)

lemma zero_block_split:
  "zero_block hs s e \<Longrightarrow> hs = take s hs @ replicate (e - s) ''0'' @ drop e hs"
  by (rule nth_equalityI) (auto simp: zero_block_def nth_append)

text \<open>The parser puts the zero groups back.\<close>

lemma filter_upt_single:
  assumes "m \<le> k" and "k < n" and "\<And>j. m \<le> j \<Longrightarrow> j < n \<Longrightarrow> P j \<longleftrightarrow> j = k"
  shows "filter P [m..<n] = [k]"
proof -
  have "[m..<n] = [m..<k] @ [k] @ [Suc k..<n]" using assms(1,2) by (metis append.assoc append_Cons append_Nil le_Suc_ex less_imp_le upt_add_eq_append upt_conv_Cons)
  moreover have "filter P [m..<k] = []" "filter P [Suc k..<n] = []" "P k"
    using assms by (auto simp: filter_empty_conv)
  ultimately show ?thesis by simp
qed

lemma parse_parts6_skip:
  assumes "[] \<notin> set A" and "[] \<notin> set B" and "length A + length B \<le> 6"
  shows "parse_parts6 ((if A = [] then [[]] else []) @ A @ [[]] @ B @ (if B = [] then [[]] else [])) =
    hextets_value A (8 - (length A + length B)) B" (is "parse_parts6 ?parts = _")
proof -
  let ?i = "if A = [] then 1 else length A"
  have ne: "A ! j \<noteq> []" if "j < length A" for j using assms(1) that nth_mem by metis
  have ne': "B ! j \<noteq> []" if "j < length B" for j using assms(2) that nth_mem by metis
  have "filter (\<lambda>i. ?parts ! i = []) [1 ..< length ?parts - 1] = [?i]"
    by (cases "A = []"; cases "B = []"; rule filter_upt_single) (auto simp: nth_append nth_Cons' ne ne' Suc_le_eq)
  moreover have "hd ?parts = [] \<longleftrightarrow> A = []" using assms(1) by (cases A) auto
  moreover have "last B \<noteq> []" if "B \<noteq> []" using assms(2) last_in_set [OF that] by metis
  then have "last ?parts = [] \<longleftrightarrow> B = []" by auto
  ultimately show ?thesis using assms(3) by (auto simp: parse_parts6_def Let_def)
qed

lemma hextets_value_show:
  assumes "\<And>d. d \<in> set xs \<union> set ys \<Longrightarrow> d < 65536"
  shows "hextets_value (map show_hex xs) k (map show_hex ys) = Some (word_of_nat (from_digits 65536 (xs @ replicate k 0 @ ys)))"
  using assms map_map_id [of xs parse_hextet show_hex] map_map_id [of ys parse_hextet show_hex]
  by (simp add: hextets_value_def parse_hextet_show)

lemma show_hex_0 [simp]: "show_hex 0 = ''0''"
  by code_simp

lemma show_hex_zero: "d < 65536 \<Longrightarrow> show_hex d = ''0'' \<longleftrightarrow> d = 0"
  using parse_hextet_show [of d] parse_hextet_show [of 0] by auto

lemma parse_compressed:
  assumes "length ds = 8" and "\<And>d. d \<in> set ds \<Longrightarrow> d < 65536"
  shows "parse_parts6 (compress_hextets (map show_hex ds)) = Some (word_of_nat (from_digits 65536 ds)) \<and>
    3 \<le> length (compress_hextets (map show_hex ds)) \<and>
    (\<forall>p\<in>set (compress_hextets (map show_hex ds)). p = [] \<or> p \<in> range show_hex)"
  using compress_cases [of "map show_hex ds"]
proof (elim disjE exE conjE)
  let ?hs = "map show_hex ds"
  assume same: "compress_hextets ?hs = ?hs"
  have "filter (\<lambda>i. ?hs ! i = []) [1 ..< length ?hs - 1] = []" using assms(1) by (auto simp: filter_empty_conv)
  moreover have "hd ?hs \<noteq> []" "last ?hs \<noteq> []" using assms(1) by (cases ds; simp add: last_map)+
  ultimately have "parse_parts6 ?hs = hextets_value ?hs 0 (map show_hex [])" using assms(1) by (simp add: parse_parts6_def)
  then show ?thesis using assms same hextets_value_show [of ds "[]" 0] by auto
next
  let ?hs = "map show_hex ds"
  fix s e
  assume block: "zero_block ?hs s e" and long: "s + 1 < e"
    and parts: "compress_hextets ?hs = (if take s ?hs = [] then [[]] else []) @ take s ?hs @ [[]] @ drop e ?hs @
      (if drop e ?hs = [] then [[]] else [])"
  have zero: "ds ! i = 0" if "s \<le> i" "i < e" for i
    using block that assms show_hex_zero [of "ds ! i"] by (auto simp: zero_block_def)
  have ds: "take s ds @ replicate (e - s) 0 @ drop e ds = ds"
    using block assms(1) zero by (intro nth_equalityI) (auto simp: zero_block_def nth_append)
  have e: "e \<le> 8" using block assms(1) by (simp add: zero_block_def)
  have "parse_parts6 (compress_hextets ?hs) =
      hextets_value (take s ?hs) (8 - (length (take s ?hs) + length (drop e ?hs))) (drop e ?hs)"
    unfolding parts by (rule parse_parts6_skip) (use long e assms(1) in \<open>auto simp: take_map drop_map dest: sym [of "[]"]\<close>)
  also have "\<dots> = Some (word_of_nat (from_digits 65536 ds))"
    using assms long e hextets_value_show [of "take s ds" "drop e ds" "e - s"]
    by (auto simp: take_map drop_map ds dest: in_set_takeD in_set_dropD)
  finally show ?thesis using long e assms(1) by (auto simp: parts take_map drop_map dest: in_set_takeD in_set_dropD)
qed

lemma parse_v6_str: "parse_v6 (join_on CHR '':'' (compress_hextets (map show_hex (to_digits 65536 8 (unat w))))) = Some w"
    (is "parse_v6 (join_on _ ?parts) = _")
  and v6_str_plain: "c \<in> {CHR ''/'', CHR ''%''} \<Longrightarrow>
    c \<notin> set (join_on CHR '':'' (compress_hextets (map show_hex (to_digits 65536 8 (unat w)))))"
  and v6_str_colon: "CHR '':'' \<in> set (join_on CHR '':'' (compress_hextets (map show_hex (to_digits 65536 8 (unat w)))))"
proof -
  have "from_digits 65536 (to_digits 65536 8 (unat w)) = unat w"
    using unsigned_less [of w, where ?'a = nat] by (simp add: from_to_digits)
  then have p: "parse_parts6 ?parts = Some w" "3 \<le> length ?parts" "\<And>p. p \<in> set ?parts \<Longrightarrow> p = [] \<or> p \<in> range show_hex"
    using parse_compressed [of "to_digits 65536 8 (unat w)"] to_digits_bound [of 65536 _ 8 "unat w"] by auto
  then have plain: "c \<notin> set p" if "p \<in> set ?parts" "c \<in> {CHR ''.'', CHR '':'', CHR ''/'', CHR ''%''}" for p c
    using p(3) [OF that(1)] show_hex_plain [OF that(2)] by auto
  have "last ?parts \<in> set ?parts" using p(2) by (intro last_in_set) auto
  then have "v4_tail ?parts = Some ?parts" using plain by (auto simp: v4_tail_def)
  moreover have "split_on CHR '':'' (join_on CHR '':'' ?parts) = ?parts" using p(2) plain by (intro split_join) auto
  ultimately show "parse_v6 (join_on CHR '':'' ?parts) = Some w" using p(1,2) by (simp add: parse_v6_def)
  show "c \<notin> set (join_on CHR '':'' ?parts)" if "c \<in> {CHR ''/'', CHR ''%''}"
    using that plain by (auto simp: set_join)
  show "CHR '':'' \<in> set (join_on CHR '':'' ?parts)" using p(2) by (intro join_on_sep) simp
qed

lemma show_hex_chars: "c \<in> set (show_hex n) \<Longrightarrow> is_hex_char c"
  using show_hex_set by fastforce

lemma v6_str_chars: "c \<in> set (ip_str (IPv6Address w None)) \<Longrightarrow> is_hex_char c \<or> c = CHR '':''"
proof (rule ccontr)
  assume c: "c \<in> set (ip_str (IPv6Address w None))" and "\<not> (is_hex_char c \<or> c = CHR '':'')"
  moreover have "p = [] \<or> p \<in> range show_hex" if "p \<in> set (compress_hextets (map show_hex (to_digits 65536 8 (unat w))))" for p
    using that parse_compressed [of "to_digits 65536 8 (unat w)"] to_digits_bound [of 65536 _ 8 "unat w"] by auto
  ultimately show False using show_hex_chars by (force simp: set_join)
qed

lemma v4_str_chars: "c \<in> set (ip_str (IPv4Address w)) \<Longrightarrow> is_digit c \<or> c = CHR ''.''"
  using show_nat_digits by (cases "c = CHR ''.''") (auto simp: set_join)

lemma parse_v4_colon: "CHR '':'' \<in> set s \<Longrightarrow> parse_v4 s = None"
proof -
  assume "CHR '':'' \<in> set s"
  then obtain p where "p \<in> set (split_on CHR ''.'' s)" "CHR '':'' \<in> set p" using split_on_char by blast
  then have "None \<in> set (map parse_octet (split_on CHR ''.'' s))"
    by (force simp: parse_octet_def list_all_iff is_digit_def)
  moreover have "None \<in> set xs \<Longrightarrow> those xs = None" for xs :: "nat option list" by (induction xs) (auto split: option.splits)
  ultimately show ?thesis by (auto simp: parse_v4_def Let_def)
qed

lemma parse_v4_str: "parse_v4 (ip_str (IPv4Address w)) = Some w"
  and v4_str_plain: "CHR ''/'' \<notin> set (ip_str (IPv4Address w))"
proof -
  let ?ds = "to_digits 256 4 (unat w)"
  have digits: "is_digit c" if "c \<in> set p" "p \<in> set (map show_nat ?ds)" for c p using that show_nat_digits by auto
  have dot: "\<not> is_digit CHR ''.''" "\<not> is_digit CHR ''/''" by (simp_all add: is_digit_def)
  have "split_on CHR ''.'' (join_on CHR ''.'' (map show_nat ?ds)) = map show_nat ?ds"
    by (rule split_join) (use digits dot(1) in \<open>auto simp flip: length_0_conv\<close>)
  moreover have "those (map parse_octet (map show_nat ?ds)) = Some ?ds"
    by (rule map_map_id) (use to_digits_bound [of 256 _ 4 "unat w"] parse_octet_show in auto)
  moreover have "from_digits 256 ?ds = unat w" using unsigned_less [of w, where ?'a = nat] by (simp add: from_to_digits)
  ultimately show "parse_v4 (ip_str (IPv4Address w)) = Some w" by (simp add: parse_v4_def)
  show "CHR ''/'' \<notin> set (ip_str (IPv4Address w))" using digits dot(2) by (auto simp: set_join)
qed

theorem ip_address_str: "zone_ok a \<Longrightarrow> ip_address (ip_str a) = Some a"
proof (cases a)
  case (IPv4Address w)
  then show ?thesis using parse_v4_str [of w] v4_str_plain [of w] by (simp add: ip_address_def del: ip_str.simps)
next
  case (IPv6Address w scope)
  let ?t = "join_on CHR '':'' (compress_hextets (map show_hex (to_digits 65536 8 (unat w))))"
  have v4: "parse_v4 (?t @ z) = None" for z using v6_str_colon [of w] by (intro parse_v4_colon) simp
  have "partition_on CHR ''%'' ?t = (?t, [], [])"
    using v6_str_plain [of "CHR ''%''" w] by (intro partition_on_none) simp
  moreover have "partition_on CHR ''%'' (?t @ CHR ''%'' # z) = (?t, ''%'', z)" for z
    using v6_str_plain [of "CHR ''%''" w] by (simp add: partition_on_append)
  moreover assume "zone_ok a"
  ultimately show ?thesis
    using IPv6Address v4 [of "[]"] v4 v6_str_plain [of "CHR ''/''" w] parse_v6_str [of w]
    by (auto simp: ip_address_def split: option.splits)
qed

lemma partition_on_set: "partition_on d s = (h, m, t) \<Longrightarrow> set t \<subseteq> set s"
  by (auto simp: partition_on_def Let_def dest!: in_set_dropD set_dropWhileD)

lemma ip_address_zone: "ip_address s = Some a \<Longrightarrow> zone_ok a"
proof (cases "parse_v4 s")
  case None
  assume some: "ip_address s = Some a"
  obtain h m z where p: "partition_on CHR ''%'' s = (h, m, z)" by (metis surj_pair)
  then show ?thesis using some None partition_on_set [OF p] by (auto simp: ip_address_def split: if_splits)
qed (auto simp: ip_address_def split: if_splits)

section \<open>Blocks as intervals\<close>

lemma in_net_div: "in_net (p, len) w \<longleftrightarrow> unat p = unat w div 2 ^ (LENGTH('a) - len) * 2 ^ (LENGTH('a) - len)"
  for w :: "'a::len word"
proof -
  let ?k = "LENGTH('a) - len"
  have "w AND NOT (mask ?k) = push_bit ?k (drop_bit ?k w)" by (rule bit_eqI) (auto simp: bit_simps)
  moreover have "unat (push_bit ?k (drop_bit ?k w)) = unat w div 2 ^ ?k * 2 ^ ?k"
  proof -
    have "unat w div 2 ^ ?k * 2 ^ ?k \<le> unat w" by simp
    then have "unat w div 2 ^ ?k * 2 ^ ?k < 2 ^ LENGTH('a)" by (rule le_less_trans) (rule unsigned_less)
    moreover have "unat (push_bit ?k (drop_bit ?k w)) = take_bit LENGTH('a) (push_bit ?k (drop_bit ?k (take_bit LENGTH('a) (unat w))))"
      by (simp only: unsigned_push_bit_eq unsigned_drop_bit_eq)
    moreover have "take_bit LENGTH('a) (unat w) = unat w" by (rule take_bit_nat_eq_self) (rule unsigned_less)
    ultimately show ?thesis by (simp only: drop_bit_eq_div push_bit_eq_mult take_bit_nat_eq_self)
  qed
  ultimately show ?thesis by (auto simp: in_net_def word_unat_eq_iff)
qed

lemma block_interval: "(m::nat) = x div K * K \<longleftrightarrow> m \<le> x \<and> x < m + K" if "m mod K = 0" "0 < K"
proof
  assume "m = x div K * K"
  then show "m \<le> x \<and> x < m + K" using mod_less_divisor [OF that(2), of x] div_mult_mod_eq [of x K] by linarith
next
  assume x: "m \<le> x \<and> x < m + K"
  have "K dvd m" using that(1) by (simp add: mod_eq_0_iff_dvd)
  then obtain q where q: "m = K * q" by (rule dvdE)
  then have "x div K = q" using x that(2) by (intro div_nat_eqI) (simp_all add: mult.commute)
  then show "m = x div K * K" using q by simp
qed

lemma in_net_interval:
  "unat p mod 2 ^ (LENGTH('a) - len) = 0 \<Longrightarrow>
   in_net (p, len) w \<longleftrightarrow> unat p \<le> unat w \<and> unat w < unat p + 2 ^ (LENGTH('a) - len)"
  for w :: "'a::len word"
  using block_interval [of "unat p" "2 ^ (LENGTH('a) - len)" "unat w"] by (simp add: in_net_div)

end
