(* ===== verification/Address_Blocks.thy ===== *)
theory Address_Blocks
  imports Addresses
begin

text \<open>
  Which addresses Python takes for public, as intervals of integers: the reference against which
  the request guard is checked.  The predicates of \<open>ipaddress\<close> test membership in some forty
  networks by masking; here each verdict is a short list of first and last addresses.
\<close>

section \<open>Which addresses pass\<close>

text \<open>The blocks that pass, first and last address.  Of IPv4 it is easier to list what does not.\<close>

definition blocked_v4 :: "(nat list \<times> nat list) list" where
  "blocked_v4 =
     [([0, 0, 0, 0], [0, 255, 255, 255]), ([10, 0, 0, 0], [10, 255, 255, 255]), ([127, 0, 0, 0], [127, 255, 255, 255]),
      ([169, 254, 0, 0], [169, 254, 255, 255]), ([172, 16, 0, 0], [172, 31, 255, 255]),
      ([192, 0, 0, 0], [192, 0, 0, 8]), ([192, 0, 0, 11], [192, 0, 0, 255]), ([192, 0, 2, 0], [192, 0, 2, 255]),
      ([192, 168, 0, 0], [192, 168, 255, 255]), ([198, 18, 0, 0], [198, 19, 255, 255]),
      ([198, 51, 100, 0], [198, 51, 100, 255]), ([203, 0, 113, 0], [203, 0, 113, 255]),
      ([224, 0, 0, 0], [255, 255, 255, 255])]"

definition full6 :: "nat list \<Rightarrow> nat" where
  "full6 hs = from_digits 65536 (hs @ replicate (8 - length hs) 0xFFFF)"

definition base6 :: "nat list \<Rightarrow> nat" where
  "base6 hs = from_digits 65536 (hs @ replicate (8 - length hs) 0)"

definition passing_v6 :: "(nat list \<times> nat list) list" where
  "passing_v6 =
     [([0x2000], [0x2000]), ([0x2001, 1, 0, 0, 0, 0, 0, 1], [0x2001, 1, 0, 0, 0, 0, 0, 2]),
      ([0x2001, 3], [0x2001, 3]), ([0x2001, 4, 0x112], [0x2001, 4, 0x112]), ([0x2001, 0x20], [0x2001, 0x3F]),
      ([0x2001, 0x200], [0x2001, 0xDB7]), ([0x2001, 0xDB9], [0x2001]), ([0x2003], [0x3FFF]), ([0xFEC0], [0xFEFF])]"

fun passes :: "ip_address \<Rightarrow> bool" where
  "passes (IPv4Address w) =
     (\<not> list_ex (\<lambda>(lo, hi). from_digits 256 lo \<le> unat w \<and> unat w \<le> from_digits 256 hi) blocked_v4)"
| "passes (IPv6Address w _) = list_ex (\<lambda>(lo, hi). base6 lo \<le> unat w \<and> unat w \<le> full6 hi) passing_v6"

lemma v4_in_net:
  assumes "from_digits 256 (ds @ replicate (4 - length ds) 0) < 2 ^ 32"
    and "from_digits 256 (ds @ replicate (4 - length ds) 0) mod 2 ^ (32 - len) = 0"
  shows "in_net (v4_net ds len) w \<longleftrightarrow>
    from_digits 256 (ds @ replicate (4 - length ds) 0) \<le> unat w \<and>
    unat w < from_digits 256 (ds @ replicate (4 - length ds) 0) + 2 ^ (32 - len)"
  using in_net_interval [of "word_of_nat (from_digits 256 (ds @ replicate (4 - length ds) 0)) :: 32 word" len w] assms
  by (simp add: v4_net_def unsigned_of_nat take_bit_nat_eq_self)

lemma v6_in_net:
  assumes "base6 ds < 2 ^ 128" and "base6 ds mod 2 ^ (128 - len) = 0"
  shows "in_net (v6_net ds len) w \<longleftrightarrow> base6 ds \<le> unat w \<and> unat w < base6 ds + 2 ^ (128 - len)"
  using in_net_interval [of "word_of_nat (base6 ds) :: 128 word" len w] assms
  by (simp add: v6_net_def base6_def unsigned_of_nat take_bit_nat_eq_self)

lemma zeros:
  "replicate 2 x = [x, x]" "replicate 3 x = [x, x, x]" "replicate 4 x = [x, x, x, x]" "replicate 5 x = [x, x, x, x, x]"
  "replicate 6 x = [x, x, x, x, x, x]" "replicate 7 x = [x, x, x, x, x, x, x]" "replicate 8 x = [x, x, x, x, x, x, x, x]"
  by (simp_all add: numeral_eq_Suc)

lemmas v4_blocks = v4_is_private_def in_nets_def v4_private_def v4_private_exceptions_def v4_in_net from_digits_def
  zeros blocked_v4_def

lemma public_v4: "(\<not> (v4_is_private w \<or> is_loopback (IPv4Address w) \<or> is_link_local (IPv4Address w) \<or>
    is_multicast (IPv4Address w) \<or> is_reserved (IPv4Address w) \<or> is_unspecified (IPv4Address w))) \<longleftrightarrow> passes (IPv4Address w)"
proof -
  have zero: "w = 0 \<longleftrightarrow> unat w = 0" by (simp add: unat_eq_0)
  have "unat w < 2 ^ 32" using unsigned_less [of w, where ?'a = nat] by simp
  consider "unat w = 3221225481" | "unat w = 3221225482" | "unat w \<noteq> 3221225481" "unat w \<noteq> 3221225482" by blast
  then show ?thesis
  proof cases
    case 3
    then have ex: "\<not> in_nets v4_private_exceptions w" by (simp add: v4_blocks)
    show ?thesis
    proof
      assume "passes (IPv4Address w)"
      then show "\<not> (v4_is_private w \<or> is_loopback (IPv4Address w) \<or> is_link_local (IPv4Address w) \<or>
          is_multicast (IPv4Address w) \<or> is_reserved (IPv4Address w) \<or> is_unspecified (IPv4Address w))"
        using 3 \<open>unat w < 2 ^ 32\<close> unfolding v4_is_private_def zero
        by (simp add: v4_blocks zero) (intro conjI impI; elim conjE; simp)
    next
      assume "\<not> (v4_is_private w \<or> is_loopback (IPv4Address w) \<or> is_link_local (IPv4Address w) \<or>
          is_multicast (IPv4Address w) \<or> is_reserved (IPv4Address w) \<or> is_unspecified (IPv4Address w))"
      then show "passes (IPv4Address w)"
        using 3 ex \<open>unat w < 2 ^ 32\<close> unfolding v4_is_private_def zero
        by (simp add: v4_blocks zero) (elim conjE; intro conjI impI; simp)
    qed
  qed (simp_all add: v4_blocks zero)
qed

lemmas v6_blocks = in_nets_def v6_private_def v6_private_exceptions_def v6_reserved_def v6_in_net base6_def full6_def
  from_digits_def zeros passing_v6_def

lemma unat_drop: "unat (drop_bit n w) = unat w div 2 ^ n" for w :: "'a::len word"
proof -
  have "take_bit LENGTH('a) (unat w) = unat w" by (rule take_bit_nat_eq_self) (rule unsigned_less)
  then show ?thesis by (simp only: unsigned_drop_bit_eq) (simp only: drop_bit_eq_div)
qed

lemma mapped_reserved: "ipv4_mapped w = Some v \<Longrightarrow> in_nets v6_reserved w \<and> \<not> passes (IPv6Address w z)"
proof -
  assume "ipv4_mapped w = Some v"
  then have "unat (drop_bit 32 w) = 0xFFFF" by (simp add: ipv4_mapped_def split: if_splits)
  then have "unat w div 2 ^ 32 = 0xFFFF" by (simp only: unat_drop)
  then have "unat w < 2 ^ 48" by simp
  then show ?thesis by (simp add: v6_blocks)
qed

text \<open>The reserved blocks cover everything below \<open>2000::\<close>, from \<open>4000::\<close> to \<open>fbff::\<close> and the start of \<open>fe00::\<close>.\<close>

lemma reserved_low: "unat w < 42535295865117307932921825928971026432 \<Longrightarrow> in_nets v6_reserved w"
proof -
  assume "unat w < 42535295865117307932921825928971026432"
  then consider "unat w < 1329227995784915872903807060280344576"
    | "1329227995784915872903807060280344576 \<le> unat w" "unat w < 2658455991569831745807614120560689152"
    | "2658455991569831745807614120560689152 \<le> unat w" "unat w < 5316911983139663491615228241121378304"
    | "5316911983139663491615228241121378304 \<le> unat w" "unat w < 10633823966279326983230456482242756608"
    | "10633823966279326983230456482242756608 \<le> unat w" "unat w < 21267647932558653966460912964485513216"
    | "21267647932558653966460912964485513216 \<le> unat w" "unat w < 42535295865117307932921825928971026432" by linarith
  then show ?thesis by cases (simp_all add: v6_blocks)
qed

lemma reserved_mid: "85070591730234615865843651857942052864 \<le> unat w \<Longrightarrow> unat w < 334965454937798799971759379190646833152 \<Longrightarrow> in_nets v6_reserved w"
proof -
  assume "85070591730234615865843651857942052864 \<le> unat w" and "unat w < 334965454937798799971759379190646833152"
  then consider "85070591730234615865843651857942052864 \<le> unat w" "unat w < 127605887595351923798765477786913079296"
    | "127605887595351923798765477786913079296 \<le> unat w" "unat w < 170141183460469231731687303715884105728"
    | "170141183460469231731687303715884105728 \<le> unat w" "unat w < 212676479325586539664609129644855132160"
    | "212676479325586539664609129644855132160 \<le> unat w" "unat w < 255211775190703847597530955573826158592"
    | "255211775190703847597530955573826158592 \<le> unat w" "unat w < 297747071055821155530452781502797185024"
    | "297747071055821155530452781502797185024 \<le> unat w" "unat w < 319014718988379809496913694467282698240"
    | "319014718988379809496913694467282698240 \<le> unat w" "unat w < 329648542954659136480144150949525454848"
    | "329648542954659136480144150949525454848 \<le> unat w" "unat w < 334965454937798799971759379190646833152" by linarith
  then show ?thesis by cases (simp_all add: v6_blocks)
qed

definition public_v6 :: "128 word \<Rightarrow> bool" where
  "public_v6 w \<longleftrightarrow> \<not> (in_nets v6_private w \<and> \<not> in_nets v6_private_exceptions w \<or> in_net (v6_net [0xFE80] 10) w \<or>
     in_net (v6_net [0xFF00] 8) w \<or> in_nets v6_reserved w)"

text \<open>The verdicts with the networks computed, once for all cases.\<close>

lemma v6_private_iff: "in_nets v6_private w \<longleftrightarrow>
    Suc 0 \<le> unat w \<and> unat w < Suc (Suc 0) \<or>
    0x00000000000000000000000000000000 \<le> unat w \<and> unat w < 0x1 \<or>
    0x00000000000000000000ffff00000000 \<le> unat w \<and> unat w < 0x1000000000000 \<or>
    0x0064ff9b000100000000000000000000 \<le> unat w \<and> unat w < 0x64ff9b000200000000000000000000 \<or>
    0x01000000000000000000000000000000 \<le> unat w \<and> unat w < 0x1000000000000010000000000000000 \<or>
    0x20010000000000000000000000000000 \<le> unat w \<and> unat w < 0x20010200000000000000000000000000 \<or>
    0x20010db8000000000000000000000000 \<le> unat w \<and> unat w < 0x20010db9000000000000000000000000 \<or>
    0x20020000000000000000000000000000 \<le> unat w \<and> unat w < 0x20030000000000000000000000000000 \<or>
    0xfc000000000000000000000000000000 \<le> unat w \<and> unat w < 0xfe000000000000000000000000000000 \<or>
    0xfe800000000000000000000000000000 \<le> unat w \<and> unat w < 0xfec00000000000000000000000000000"
  by (simp add: v6_blocks)

lemma v6_private_exceptions_iff: "in_nets v6_private_exceptions w \<longleftrightarrow>
    0x20010001000000000000000000000001 \<le> unat w \<and> unat w < 0x20010001000000000000000000000002 \<or>
    0x20010001000000000000000000000002 \<le> unat w \<and> unat w < 0x20010001000000000000000000000003 \<or>
    0x20010003000000000000000000000000 \<le> unat w \<and> unat w < 0x20010004000000000000000000000000 \<or>
    0x20010004011200000000000000000000 \<le> unat w \<and> unat w < 0x20010004011300000000000000000000 \<or>
    0x20010020000000000000000000000000 \<le> unat w \<and> unat w < 0x20010030000000000000000000000000 \<or>
    0x20010030000000000000000000000000 \<le> unat w \<and> unat w < 0x20010040000000000000000000000000"
  by (simp add: v6_blocks)

lemma v6_reserved_iff: "in_nets v6_reserved w \<longleftrightarrow>
    0x00000000000000000000000000000000 \<le> unat w \<and> unat w < 0x1000000000000000000000000000000 \<or>
    0x01000000000000000000000000000000 \<le> unat w \<and> unat w < 0x2000000000000000000000000000000 \<or>
    0x02000000000000000000000000000000 \<le> unat w \<and> unat w < 0x4000000000000000000000000000000 \<or>
    0x04000000000000000000000000000000 \<le> unat w \<and> unat w < 0x8000000000000000000000000000000 \<or>
    0x08000000000000000000000000000000 \<le> unat w \<and> unat w < 0x10000000000000000000000000000000 \<or>
    0x10000000000000000000000000000000 \<le> unat w \<and> unat w < 0x20000000000000000000000000000000 \<or>
    0x40000000000000000000000000000000 \<le> unat w \<and> unat w < 0x60000000000000000000000000000000 \<or>
    0x60000000000000000000000000000000 \<le> unat w \<and> unat w < 0x80000000000000000000000000000000 \<or>
    0x80000000000000000000000000000000 \<le> unat w \<and> unat w < 0xa0000000000000000000000000000000 \<or>
    0xa0000000000000000000000000000000 \<le> unat w \<and> unat w < 0xc0000000000000000000000000000000 \<or>
    0xc0000000000000000000000000000000 \<le> unat w \<and> unat w < 0xe0000000000000000000000000000000 \<or>
    0xe0000000000000000000000000000000 \<le> unat w \<and> unat w < 0xf0000000000000000000000000000000 \<or>
    0xf0000000000000000000000000000000 \<le> unat w \<and> unat w < 0xf8000000000000000000000000000000 \<or>
    0xf8000000000000000000000000000000 \<le> unat w \<and> unat w < 0xfc000000000000000000000000000000 \<or>
    0xfe000000000000000000000000000000 \<le> unat w \<and> unat w < 0xfe800000000000000000000000000000"
  by (simp add: v6_blocks)

lemma v6_link_multicast_iff:
  "in_net (v6_net [0xFE80] 10) w \<longleftrightarrow> 0xfe800000000000000000000000000000 \<le> unat w \<and> unat w < 0xfec00000000000000000000000000000"
  "in_net (v6_net [0xFF00] 8) w \<longleftrightarrow> 0xff000000000000000000000000000000 \<le> unat w \<and> unat w < 0x100000000000000000000000000000000"
  by (simp_all add: v6_blocks)

lemmas public_v6_iff = public_v6_def v6_private_iff v6_private_exceptions_iff v6_reserved_iff v6_link_multicast_iff

lemma passes_v6_iff: "passes (IPv6Address w z) \<longleftrightarrow>
    0x20000000000000000000000000000000 \<le> unat w \<and> unat w \<le> 0x2000ffffffffffffffffffffffffffff \<or>
    0x20010001000000000000000000000001 \<le> unat w \<and> unat w \<le> 0x20010001000000000000000000000002 \<or>
    0x20010003000000000000000000000000 \<le> unat w \<and> unat w \<le> 0x20010003ffffffffffffffffffffffff \<or>
    0x20010004011200000000000000000000 \<le> unat w \<and> unat w \<le> 0x200100040112ffffffffffffffffffff \<or>
    0x20010020000000000000000000000000 \<le> unat w \<and> unat w \<le> 0x2001003fffffffffffffffffffffffff \<or>
    0x20010200000000000000000000000000 \<le> unat w \<and> unat w \<le> 0x20010db7ffffffffffffffffffffffff \<or>
    0x20010db9000000000000000000000000 \<le> unat w \<and> unat w \<le> 0x2001ffffffffffffffffffffffffffff \<or>
    0x20030000000000000000000000000000 \<le> unat w \<and> unat w \<le> 0x3fffffffffffffffffffffffffffffff \<or>
    0xfec00000000000000000000000000000 \<le> unat w \<and> unat w \<le> 0xfeffffffffffffffffffffffffffffff"
  by (simp add: v6_blocks)

lemma public_v6_passes:
  assumes "public_v6 w"
  shows "passes (IPv6Address w z)"
proof -
  have "unat w < 2 ^ 128" using unsigned_less [of w, where ?'a = nat] by simp
  moreover have "\<not> in_nets v6_reserved w" using assms by (simp add: public_v6_def)
  ultimately have x: "42535295865117307932921825928971026432 \<le> unat w" "unat w < 85070591730234615865843651857942052864 \<or> 334965454937798799971759379190646833152 \<le> unat w" "unat w < 340282366920938463463374607431768211456"
    using reserved_low [of w] reserved_mid [of w] not_le by auto
  show ?thesis
  proof (cases "unat w < 85070591730234615865843651857942052864")
    case True
    then consider "42535295865117307932921825928971026432 \<le> unat w" "unat w < 42540488161975842760550356425300246528"
      | "42540488161975842760550356425300246528 \<le> unat w" "unat w < 42540528726795050063891204319802818560"
      | "42540528726795050063891204319802818560 \<le> unat w" "unat w < 42540766411282592856903984951653826560"
      | "42540766411282592856903984951653826560 \<le> unat w" "unat w < 42540766490510755371168322545197776896"
      | "42540766490510755371168322545197776896 \<le> unat w" "unat w < 42545680458834377588178886921629466624"
      | "42545680458834377588178886921629466624 \<le> unat w" "unat w < 42550872755692912415807417417958686720"
      | "42550872755692912415807417417958686720 \<le> unat w" "unat w < 85070591730234615865843651857942052864" using x(1) by linarith
    then show ?thesis using assms by cases (simp_all add: public_v6_iff passes_v6_iff del: passes.simps, linarith?)
  next
    case False
    then consider "334965454937798799971759379190646833152 \<le> unat w" "unat w < 337623910929368631717566993311207522304"
      | "337623910929368631717566993311207522304 \<le> unat w" "unat w < 338288524927261089654018896841347694592"
      | "338288524927261089654018896841347694592 \<le> unat w" "unat w < 338620831926207318622244848606417780736"
      | "338620831926207318622244848606417780736 \<le> unat w" "unat w < 338953138925153547590470800371487866880"
      | "338953138925153547590470800371487866880 \<le> unat w" "unat w < 340282366920938463463374607431768211456" using x(2,3) by linarith
    then show ?thesis using assms by cases (simp_all add: public_v6_iff passes_v6_iff del: passes.simps)
  qed
qed

lemma passes_public_v6: "passes (IPv6Address w z) \<Longrightarrow> public_v6 w"
  unfolding passes_v6_iff by (elim disjE conjE; simp add: public_v6_iff; linarith?)

end
