(* ===== verification/Ssrf.thy ===== *)
theory Ssrf
  imports Address_Blocks Py_Json
begin

text \<open>
  \<open>app/security/ssrf.py\<close>, the guard for outbound requests to addresses a user supplies: the parts
  of a URL as \<open>urllib.parse.urlsplit\<close> of Python 3.12 gives them, the resolver as a parameter, the
  checks in the order of the code, and the blocks of addresses that pass as intervals.  Nothing in
  the repository calls the guard; it is a library function for webhook endpoints to come.
\<close>

section \<open>\<open>urlsplit\<close>\<close>

definition is_alpha :: "char \<Rightarrow> bool" where
  "is_alpha c = (let n = of_char c :: nat in 65 \<le> n \<and> n \<le> 90 \<or> 97 \<le> n \<and> n \<le> 122)"

definition is_scheme_char :: "char \<Rightarrow> bool" where
  "is_scheme_char c \<longleftrightarrow> is_alpha c \<or> is_digit c \<or> c \<in> {CHR ''+'', CHR ''-'', CHR ''.''}"

definition after_last :: "char \<Rightarrow> string \<Rightarrow> string" where
  \<comment> \<open>\<open>s.rpartition(d)[2]\<close>\<close>
  "after_last d s = rev (takeWhile (\<lambda>c. c \<noteq> d) (rev s))"

definition host_info :: "string \<Rightarrow> string \<times> string option" where
  \<comment> \<open>\<open>_NetlocResultMixinStr._hostinfo\<close>\<close>
  "host_info netloc =
     (case partition_on CHR ''['' (after_last CHR ''@'' netloc) of (before, open_br, bracketed) \<Rightarrow>
        let (hostname, port) =
          (if open_br \<noteq> []
           then (case partition_on CHR '']'' bracketed of (h, _, rest) \<Rightarrow> (h, snd (snd (partition_on CHR '':'' rest))))
           else (case partition_on CHR '':'' before of (h, _, p) \<Rightarrow> (h, p)))
        in (hostname, if port = [] then None else Some port))"

definition check_bracketed_host :: "string \<Rightarrow> unit result" where
  "check_bracketed_host h =
     (if take 1 h = ''v''
      then (case partition_on CHR ''.'' (drop 1 h) of (hex, dot, rest) \<Rightarrow>
              if hex \<noteq> [] \<and> list_all (\<lambda>c. hex_val c \<noteq> None) hex \<and> rest \<noteq> [] \<and> (CHR 0x0A) \<notin> set rest
              then Inr () else Inl (Py ValueError))
      else (case ip_address h of Some (IPv6Address _ _) \<Rightarrow> Inr () | _ \<Rightarrow> Inl (Py ValueError)))"

definition check_bracketed_netloc :: "string \<Rightarrow> unit result" where
  "check_bracketed_netloc netloc =
     (case partition_on CHR ''['' (after_last CHR ''@'' netloc) of (before, open_br, bracketed) \<Rightarrow>
        if open_br \<noteq> []
        then (if before \<noteq> [] then Inl (Py ValueError)
              else case partition_on CHR '']'' bracketed of (h, _, port) \<Rightarrow>
                if port \<noteq> [] \<and> take 1 port \<noteq> '':'' then Inl (Py ValueError) else check_bracketed_host h)
        else check_bracketed_host (fst (partition_on CHR '':'' before)))"

text \<open>Scheme and network location; the guard reads nothing else of the split.\<close>

record SplitResult =
  sr_scheme :: string
  sr_netloc :: string

definition urlsplit :: "string \<Rightarrow> SplitResult result" where
  "urlsplit url =
     (let url = filter (\<lambda>c. c \<notin> {CHR 0x09, CHR 0x0D, CHR 0x0A}) (dropWhile (\<lambda>c. (of_char c :: nat) \<le> 32) url);
          (before, colon, after) = partition_on CHR '':'' url;
          (scheme, rest) =
            (if colon \<noteq> [] \<and> before \<noteq> [] \<and> is_alpha (hd before) \<and> list_all is_scheme_char before
             then (lower before, after) else ([], url))
      in if take 2 rest = ''//''
         then (let netloc = takeWhile (\<lambda>c. c \<notin> {CHR ''/'', CHR ''?'', CHR ''#''}) (drop 2 rest);
                   parts = \<lparr>sr_scheme = scheme, sr_netloc = netloc\<rparr>
               in if (CHR ''['' \<in> set netloc) \<noteq> (CHR '']'' \<in> set netloc) then Inl (Py ValueError)
                  else if CHR ''['' \<in> set netloc
                  then (case check_bracketed_netloc netloc of Inl e \<Rightarrow> Inl e | Inr _ \<Rightarrow> Inr parts)
                  else Inr parts)
         else Inr \<lparr>sr_scheme = scheme, sr_netloc = []\<rparr>)"

definition url_hostname :: "SplitResult \<Rightarrow> string option" where
  "url_hostname parts =
     (let h = fst (host_info (sr_netloc parts))
      in if h = [] then None
         else (case partition_on CHR ''%'' h of (name, percent, zone) \<Rightarrow> Some (lower name @ percent @ zone)))"

definition url_port :: "SplitResult \<Rightarrow> nat option result" where
  "url_port parts =
     (case snd (host_info (sr_netloc parts)) of
        None \<Rightarrow> Inr None
      | Some p \<Rightarrow> if list_all is_digit p \<and> digits_val p \<le> 65535 then Inr (Some (digits_val p))
                  else Inl (Py ValueError))"

section \<open>The guard\<close>

datatype dns_answer = Infos "string list" | Gaierror | Idna_error

record ValidatedTarget =
  vt_url :: string
  vt_host :: string
  vt_port :: nat
  vt_ip_addresses :: "string list"

definition ALLOWED_SCHEMES :: "bool \<Rightarrow> string list" where
  "ALLOWED_SCHEMES allow_http = (if allow_http then [''http'', ''https''] else [''https''])"

definition ALLOWED_PORTS :: "nat list" where
  "ALLOWED_PORTS = [80, 443]"

definition is_public_ip :: "string \<Rightarrow> bool result" where
  "is_public_ip ip =
     (case ip_address ip of
        None \<Rightarrow> Inl (Py ValueError)
      | Some addr \<Rightarrow> Inr (\<not> (is_private addr \<or> is_loopback addr \<or> is_link_local addr \<or> is_multicast addr \<or>
                            is_reserved addr \<or> is_unspecified addr)))"

text \<open>\<open>dns\<close> stands for \<open>getaddrinfo\<close>: the addresses it lists, the resolver's error, or the
  \<open>UnicodeError\<close> of a name that is no domain name.  The set becomes a tuple in some order.\<close>

definition resolve :: "(string \<Rightarrow> dns_answer) \<Rightarrow> string \<Rightarrow> string list result" where
  "resolve dns host =
     (case dns host of
        Infos ips \<Rightarrow> Inr (remdups ips)
      | Gaierror \<Rightarrow> Inl (err ValidationError (''could not resolve host '' @ repr_str host))
      | Idna_error \<Rightarrow> Inl (Py UnicodeError))"

fun check_public :: "exc \<Rightarrow> string list \<Rightarrow> unit result" where
  "check_public blocked [] = Inr ()"
| "check_public blocked (ip # ips) =
     (case is_public_ip ip of Inl e \<Rightarrow> Inl e | Inr b \<Rightarrow> if b then check_public blocked ips else Inl blocked)"

definition blocked_error :: "string \<Rightarrow> string list \<Rightarrow> exc" where
  "blocked_error host addresses =
     err_with ValidationError ''URL resolves to a non-public address and is blocked (SSRF protection)''
       [(''host'', JStr host), (''resolved'', JArr (map JStr addresses))]"

definition validate_public_url :: "(string \<Rightarrow> dns_answer) \<Rightarrow> string \<Rightarrow> bool \<Rightarrow> ValidatedTarget result" where
  "validate_public_url dns url allow_http =
     (case urlsplit url of Inl e \<Rightarrow> Inl e | Inr parts \<Rightarrow>
      if sr_scheme parts \<notin> set (ALLOWED_SCHEMES allow_http)
      then Inl (err_with ValidationError (''URL scheme '' @ repr_str (sr_scheme parts) @ '' is not allowed'')
                 [(''allowed'', JArr (map JStr (ALLOWED_SCHEMES allow_http)))])
      else (case url_hostname parts of
        None \<Rightarrow> Inl (err ValidationError ''URL is missing a host'')
      | Some host \<Rightarrow>
      (case url_port parts of Inl e \<Rightarrow> Inl e | Inr p \<Rightarrow>
       let port = (case p of Some n \<Rightarrow> if n \<noteq> 0 then n else if sr_scheme parts = ''https'' then 443 else 80
                          | None \<Rightarrow> if sr_scheme parts = ''https'' then 443 else 80)
       in if port \<notin> set ALLOWED_PORTS
          then Inl (err_with ValidationError (''port '' @ show_nat port @ '' is not allowed'')
                     [(''allowed'', JArr (map (\<lambda>n. JInt (int n)) ALLOWED_PORTS))])
          else (case (case ip_address host of Some literal \<Rightarrow> Inr [ip_str literal] | None \<Rightarrow> resolve dns host) of
            Inl e \<Rightarrow> Inl e
          | Inr addresses \<Rightarrow>
              if addresses = []
              then Inl (err ValidationError (''host '' @ repr_str host @ '' did not resolve to any address''))
              else (case check_public (blocked_error host addresses) addresses of
                Inl e \<Rightarrow> Inl e
              | Inr _ \<Rightarrow> Inr \<lparr>vt_url = url, vt_host = host, vt_port = port, vt_ip_addresses = addresses\<rparr>)))))"

lemma is_public_ip_str: "zone_ok a \<Longrightarrow> is_public_ip (ip_str a) = Inr (passes a)"
proof (cases a)
  case (IPv4Address w)
  moreover assume "zone_ok a"
  ultimately show ?thesis using public_v4 [of w] by (simp add: is_public_ip_def ip_address_str del: passes.simps ip_str.simps)
next
  case (IPv6Address w z)
  have reserved: "in_nets v6_reserved w" if "unat w \<le> 1" using that by (intro reserved_low) simp
  have "w = 1 \<longrightarrow> in_nets v6_reserved w" "w = 0 \<longrightarrow> in_nets v6_reserved w" using reserved by (auto simp: unat_1)
  then have "is_public_ip (ip_str a) = Inr (public_v6 w)" if "zone_ok a" "ipv4_mapped w = None"
    using IPv6Address ip_address_str [OF that(1)] that(2) by (auto simp: is_public_ip_def public_v6_def simp del: ip_str.simps)
  moreover have "is_public_ip (ip_str a) = Inr False \<and> \<not> passes a" if "zone_ok a" "ipv4_mapped w = Some v" for v
    using IPv6Address ip_address_str [OF that(1)] mapped_reserved [OF that(2), of z]
    by (simp add: is_public_ip_def del: ip_str.simps passes.simps)
  moreover have "passes a = public_v6 w" using IPv6Address public_v6_passes passes_public_v6 by blast
  moreover assume "zone_ok a"
  ultimately show ?thesis by (cases "ipv4_mapped w") simp_all
qed

section \<open>URLs with an address for a host\<close>

definition plain :: "char \<Rightarrow> bool" where
  \<comment> \<open>a character that keeps its place in a network location\<close>
  "plain c \<longleftrightarrow> c \<notin> {CHR 0x09, CHR 0x0D, CHR 0x0A, CHR ''/'', CHR ''?'', CHR ''#'', CHR ''@'', CHR ''['', CHR '']'', CHR ''%''}"

lemma hex_plain: "is_hex_char c \<Longrightarrow> plain c \<and> c \<noteq> CHR ''.'' \<and> c \<noteq> CHR '':'' \<and> lower_char c = c"
  by (auto simp: plain_def is_hex_char_def lower_char_def Let_def)

lemma digit_hex: "is_digit c \<Longrightarrow> is_hex_char c"
  by (simp add: is_digit_def is_hex_char_def Let_def)

lemma v4_plain: "c \<in> set (ip_str (IPv4Address w)) \<Longrightarrow> plain c \<and> c \<noteq> CHR '':'' \<and> lower_char c = c"
  by (drule v4_str_chars, erule disjE, use hex_plain [OF digit_hex] in blast) (simp add: plain_def lower_char_def)

lemma v6_plain: "c \<in> set (ip_str (IPv6Address w None)) \<Longrightarrow> plain c \<and> lower_char c = c"
  by (drule v6_str_chars, erule disjE, use hex_plain in blast) (simp add: plain_def lower_char_def)

lemma urlsplit_https:
  assumes "\<forall>c\<in>set h. c \<notin> {CHR 0x09, CHR 0x0D, CHR 0x0A, CHR ''/'', CHR ''?'', CHR ''#''}"
    and "CHR ''['' \<in> set h \<longleftrightarrow> CHR '']'' \<in> set h"
    and "CHR ''['' \<in> set h \<Longrightarrow> check_bracketed_netloc h = Inr ()"
  shows "urlsplit (''https://'' @ h @ CHR ''/'' # path) = Inr \<lparr>sr_scheme = ''https'', sr_netloc = h\<rparr>"
proof -
  let ?f = "filter (\<lambda>c. c \<notin> {CHR 0x09, CHR 0x0D, CHR 0x0A})"
  have f: "?f h = h" using assms(1) by (auto simp: filter_id_conv)
  have p: "partition_on CHR '':'' (''https'' @ CHR '':'' # ''//'' @ h @ CHR ''/'' # ?f path) = (''https'', '':'', ''//'' @ h @ CHR ''/'' # ?f path)"
    by (rule partition_on_append) simp
  have t: "takeWhile (\<lambda>c. c \<notin> {CHR ''/'', CHR ''?'', CHR ''#''}) (h @ CHR ''/'' # ?f path) = h"
    using assms(1) by (subst takeWhile_append2) auto
  have "?f (dropWhile (\<lambda>c. (of_char c :: nat) \<le> 32) (''https://'' @ h @ CHR ''/'' # path)) = ''https'' @ CHR '':'' # ''//'' @ h @ CHR ''/'' # ?f path"
    using f by simp
  moreover have "lower ''https'' = ''https''" "list_all is_scheme_char ''https''" "is_alpha CHR ''h''"
    by code_simp+
  ultimately show ?thesis
    using assms(2,3) t unfolding urlsplit_def by (simp only: Let_def p prod.case) simp
qed

lemma after_last_none: "d \<notin> set s \<Longrightarrow> after_last d s = s"
proof -
  assume "d \<notin> set s"
  then have "takeWhile (\<lambda>c. c \<noteq> d) (rev s) = rev s" by (subst takeWhile_eq_all_conv) auto
  then show ?thesis unfolding after_last_def by (simp only: rev_rev_ident)
qed

lemma lower_same: "(\<And>c. c \<in> set s \<Longrightarrow> lower_char c = c) \<Longrightarrow> lower s = s"
  by (simp add: lower_def map_idI)

lemma plain_chars: "plain c \<Longrightarrow> c \<notin> {CHR 0x09, CHR 0x0D, CHR 0x0A, CHR ''/'', CHR ''?'', CHR ''#''}"
  "\<not> plain CHR ''@''" "\<not> plain CHR ''[''" "\<not> plain CHR '']''" "\<not> plain CHR ''%''"
  by (simp_all add: plain_def)

lemma host_v4:
  assumes "\<And>c. c \<in> set h \<Longrightarrow> plain c \<and> c \<noteq> CHR '':''"
  shows "host_info h = (h, None)"
proof -
  have "CHR ''@'' \<notin> set h" "CHR ''['' \<notin> set h" "CHR '':'' \<notin> set h" using assms plain_chars by blast+
  then show ?thesis by (simp add: host_info_def after_last_none partition_on_none)
qed

lemma host_v6:
  assumes "\<And>c. c \<in> set h \<Longrightarrow> plain c"
  shows "host_info (CHR ''['' # h @ '']'') = (h, None)"
    and "partition_on CHR ''['' (after_last CHR ''@'' (CHR ''['' # h @ '']'')) = ([], ''['', h @ '']'')"
    and "partition_on CHR '']'' (h @ '']'') = (h, '']'', [])"
proof -
  have no: "CHR ''@'' \<notin> set h" "CHR '']'' \<notin> set h" using assms plain_chars by blast+
  show b: "partition_on CHR ''['' (after_last CHR ''@'' (CHR ''['' # h @ '']'')) = ([], ''['', h @ '']'')"
    using no(1) partition_on_append [of "CHR ''[''" "[]" "h @ '']''"] by (simp add: after_last_none)
  show p: "partition_on CHR '']'' (h @ '']'') = (h, '']'', [])" using partition_on_append [OF no(2), of "[]"] by simp
  show "host_info (CHR ''['' # h @ '']'') = (h, None)" by (simp add: host_info_def b p partition_on_none)
qed

text \<open>An address for a host: the resolver is not asked and the verdict is the reference's.\<close>

lemma literal_target:
  assumes "urlsplit url = Inr \<lparr>sr_scheme = ''https'', sr_netloc = n\<rparr>" and "fst (host_info n) = ip_str a"
    and "url_port \<lparr>sr_scheme = ''https'', sr_netloc = n\<rparr> = Inr p" and "p \<in> {None, Some 0}"
    and "zone_ok a" and "\<And>c. c \<in> set (ip_str a) \<Longrightarrow> plain c \<and> lower_char c = c" and "ip_str a \<noteq> []"
  shows "validate_public_url dns url allow_http =
    (if passes a then Inr \<lparr>vt_url = url, vt_host = ip_str a, vt_port = 443, vt_ip_addresses = [ip_str a]\<rparr>
     else Inl (blocked_error (ip_str a) [ip_str a]))"
proof -
  have "CHR ''%'' \<notin> set (ip_str a)" using assms(6) plain_chars(5) by blast
  then have host: "url_hostname \<lparr>sr_scheme = ''https'', sr_netloc = n\<rparr> = Some (ip_str a)"
    using assms(2,6,7) by (simp add: url_hostname_def partition_on_none lower_same)
  show ?thesis
    using assms(1,3,4) host ip_address_str [OF assms(5)] is_public_ip_str [OF assms(5)]
    by (auto simp: validate_public_url_def ALLOWED_SCHEMES_def ALLOWED_PORTS_def)
qed

lemma v4_str_nonempty: "ip_str (IPv4Address w) \<noteq> []"
  using parse_v4_str [of w] by (auto simp: parse_v4_def simp del: ip_str.simps)

lemma literal_v4:
  "validate_public_url dns (''https://'' @ ip_str (IPv4Address w) @ CHR ''/'' # path) allow_http =
     (if passes (IPv4Address w)
      then Inr \<lparr>vt_url = ''https://'' @ ip_str (IPv4Address w) @ CHR ''/'' # path, vt_host = ip_str (IPv4Address w),
                vt_port = 443, vt_ip_addresses = [ip_str (IPv4Address w)]\<rparr>
      else Inl (blocked_error (ip_str (IPv4Address w)) [ip_str (IPv4Address w)]))"
proof -
  let ?a = "IPv4Address w"
  have p4: "plain c" "c \<noteq> CHR '':''" "lower_char c = c" if "c \<in> set (ip_str ?a)" for c using v4_plain [OF that] by auto
  have brackets: "CHR ''['' \<notin> set (ip_str ?a)" "CHR '']'' \<notin> set (ip_str ?a)"
    using p4(1) plain_chars(3,4) by blast+
  have "urlsplit (''https://'' @ ip_str ?a @ CHR ''/'' # path) = Inr \<lparr>sr_scheme = ''https'', sr_netloc = ip_str ?a\<rparr>"
    by (rule urlsplit_https) (use p4(1) plain_chars(1) brackets in blast)+
  then show ?thesis
    using host_v4 [of "ip_str ?a"] p4 v4_str_nonempty [of w]
    by (intro literal_target [of _ "ip_str ?a" _ None]) (auto simp: url_port_def simp del: ip_str.simps)
qed

lemma literal_v6:
  "validate_public_url dns (''https://['' @ ip_str (IPv6Address v None) @ '']/'' @ path) allow_http =
     (if passes (IPv6Address v None)
      then Inr \<lparr>vt_url = ''https://['' @ ip_str (IPv6Address v None) @ '']/'' @ path, vt_host = ip_str (IPv6Address v None),
                vt_port = 443, vt_ip_addresses = [ip_str (IPv6Address v None)]\<rparr>
      else Inl (blocked_error (ip_str (IPv6Address v None)) [ip_str (IPv6Address v None)]))"
proof -
  let ?b = "IPv6Address v None"
  let ?n = "CHR ''['' # ip_str ?b @ '']''"
  have p6: "plain c" "lower_char c = c" if "c \<in> set (ip_str ?b)" for c using v6_plain [OF that] by auto
  have nonempty: "ip_str ?b \<noteq> []" using v6_str_colon [of v] by auto
  have "take 1 (ip_str ?b) \<noteq> ''v''"
    using v6_str_chars [of "CHR ''v''" v] by (cases "ip_str ?b") (auto simp: is_hex_char_def simp del: ip_str.simps)
  then have "check_bracketed_netloc ?n = Inr ()"
    using host_v6(2,3) [of "ip_str ?b"] p6(1) ip_address_str [of ?b]
    by (simp add: check_bracketed_netloc_def check_bracketed_host_def del: ip_str.simps)
  then have "urlsplit (''https://'' @ ?n @ CHR ''/'' # path) = Inr \<lparr>sr_scheme = ''https'', sr_netloc = ?n\<rparr>"
    by (intro urlsplit_https) (use p6(1) plain_chars(1) in auto)
  then have "validate_public_url dns (''https://'' @ ?n @ CHR ''/'' # path) allow_http =
     (if passes ?b
      then Inr \<lparr>vt_url = ''https://'' @ ?n @ CHR ''/'' # path, vt_host = ip_str ?b, vt_port = 443, vt_ip_addresses = [ip_str ?b]\<rparr>
      else Inl (blocked_error (ip_str ?b) [ip_str ?b]))"
    using host_v6(1) [of "ip_str ?b"] p6 nonempty
    by (intro literal_target [of _ ?n _ None]) (auto simp: url_port_def simp del: ip_str.simps)
  then show ?thesis by (simp del: ip_str.simps passes.simps)
qed

lemma resolve_Inr: "resolve dns host = Inr ips \<Longrightarrow> \<exists>xs. dns host = Infos xs \<and> set ips = set xs"
  by (auto simp: resolve_def split: dns_answer.splits)

lemma check_public_passes: "check_public blocked ips = Inr () \<Longrightarrow> s \<in> set ips \<Longrightarrow> \<exists>a. ip_address s = Some a \<and> passes a"
proof (induction ips)
  case (Cons ip ips)
  then have "is_public_ip ip = Inr True" "check_public blocked ips = Inr ()" by (auto split: sum.splits if_splits)
  moreover from this obtain a where a: "ip_address ip = Some a" by (auto simp: is_public_ip_def split: option.splits)
  moreover have "is_public_ip ip = is_public_ip (ip_str a)"
    using a ip_address_str [OF ip_address_zone [OF a]] by (simp add: is_public_ip_def)
  ultimately show ?case using Cons is_public_ip_str [OF ip_address_zone [OF a]] by (auto simp del: passes.simps)
qed simp

lemma chars:
  "char_of (48 :: nat) = CHR ''0''" "char_of (49 :: nat) = CHR ''1''" "char_of (99 :: nat) = CHR ''c''"
  "char_of (101 :: nat) = CHR ''e''" "char_of (102 :: nat) = CHR ''f''"
  by code_simp+

lemmas address_eval = zeros ip_address_def parse_v4_def parse_octet_def digits_val_def from_digits_def partition_on_def parse_v6_def
  v4_tail_def parse_parts6_def hextets_value_def parse_hextet_def hex_val_def digit_val_def is_digit_def

lemmas url_eval = urlsplit_def partition_on_def is_alpha_def is_scheme_char_def is_digit_def lower_def lower_char_def
  url_hostname_def url_port_def host_info_def after_last_def ALLOWED_SCHEMES_def ALLOWED_PORTS_def digits_val_def digit_val_def

section \<open>Properties\<close>

text \<open>C22. The guard decides an address in a URL exactly.  For every IPv4 address and every IPv6 address written as
  the host of an \<open>https\<close> URL, whatever the resolver would say and whatever the path, the guard
  accepts the URL precisely when the address lies outside the blocks of the reference (which
  masking over forty networks computes), and otherwise refuses it with the SSRF error.\<close>

theorem literal_hosts_decided:
  "validate_public_url dns (''https://'' @ ip_str (IPv4Address w) @ CHR ''/'' # path) allow_http =
     (if passes (IPv4Address w)
      then Inr \<lparr>vt_url = ''https://'' @ ip_str (IPv4Address w) @ CHR ''/'' # path, vt_host = ip_str (IPv4Address w),
                vt_port = 443, vt_ip_addresses = [ip_str (IPv4Address w)]\<rparr>
      else Inl (blocked_error (ip_str (IPv4Address w)) [ip_str (IPv4Address w)])) \<and>
   validate_public_url dns (''https://['' @ ip_str (IPv6Address v None) @ '']/'' @ path) allow_http =
     (if passes (IPv6Address v None)
      then Inr \<lparr>vt_url = ''https://['' @ ip_str (IPv6Address v None) @ '']/'' @ path, vt_host = ip_str (IPv6Address v None),
                vt_port = 443, vt_ip_addresses = [ip_str (IPv6Address v None)]\<rparr>
      else Inl (blocked_error (ip_str (IPv6Address v None)) [ip_str (IPv6Address v None)]))"
  by (intro conjI literal_v4 literal_v6)

text \<open>C21. What the guard accepts.  Whatever the URL, the resolver's answer and the mode, an accepted target has
  the URL it was given, an allowed scheme and port, a host, and at least one address; every
  address in it lies outside the blocked blocks; and the addresses are the literal itself when
  the host is one, and otherwise all the resolver listed, none left out.\<close>

theorem accepted_target_public:
  assumes "validate_public_url dns url allow_http = Inr t"
  shows "vt_url t = url \<and> (\<exists>parts. urlsplit url = Inr parts \<and> sr_scheme parts \<in> set (ALLOWED_SCHEMES allow_http)) \<and>
    vt_port t \<in> {80, 443} \<and> vt_ip_addresses t \<noteq> [] \<and>
    (\<forall>s\<in>set (vt_ip_addresses t). \<exists>a. ip_address s = Some a \<and> passes a) \<and>
    (case ip_address (vt_host t) of
       Some literal \<Rightarrow> vt_ip_addresses t = [ip_str literal]
     | None \<Rightarrow> \<exists>ips. dns (vt_host t) = Infos ips \<and> set (vt_ip_addresses t) = set ips)"
proof -
  obtain parts where parts: "urlsplit url = Inr parts" "sr_scheme parts \<in> set (ALLOWED_SCHEMES allow_http)"
    using assms by (auto simp: validate_public_url_def split: sum.splits if_splits)
  obtain ips where ips: "(case ip_address (vt_host t) of Some literal \<Rightarrow> Inr [ip_str literal] | None \<Rightarrow> resolve dns (vt_host t)) = Inr ips"
    "ips \<noteq> []" "check_public (blocked_error (vt_host t) ips) ips = Inr ()" "vt_ip_addresses t = ips" "vt_url t = url"
    "vt_port t \<in> set ALLOWED_PORTS"
    using assms parts unfolding validate_public_url_def
    by (auto simp: Let_def split: sum.splits if_splits option.splits)
  then have "\<forall>s\<in>set ips. \<exists>a. ip_address s = Some a \<and> passes a" using check_public_passes by blast
  then show ?thesis using ips parts resolve_Inr [of dns "vt_host t" ips] by (auto simp: ALLOWED_PORTS_def split: option.splits)
qed

theorem accepted_target_public_witness:
  "\<exists>t. validate_public_url (\<lambda>h. Infos [''8.8.8.8'', ''2001:4860:4860::8888'']) ''https://dns.google/x'' False = Inr t \<and>
     set (vt_ip_addresses t) = {''8.8.8.8'', ''2001:4860:4860::8888''} \<and> vt_port t \<in> {80, 443}"
proof -
  let ?dns = "\<lambda>h. Infos [''8.8.8.8'', ''2001:4860:4860::8888'']"
  let ?t = "\<lparr>vt_url = ''https://dns.google/x'', vt_host = ''dns.google'', vt_port = 443,
    vt_ip_addresses = [''8.8.8.8'', ''2001:4860:4860::8888'']\<rparr>"
  have "ip_address ''8.8.8.8'' = Some (IPv4Address 0x08080808)" by (simp add: address_eval)
  moreover have "ip_address ''2001:4860:4860::8888'' = Some (IPv6Address 0x20014860486000000000000000008888 None)"
    by (simp add: address_eval)
  ultimately have public: "is_public_ip ''8.8.8.8'' = Inr True" "is_public_ip ''2001:4860:4860::8888'' = Inr True"
    using is_public_ip_str [of "IPv4Address 0x08080808"] ip_address_str [of "IPv4Address 0x08080808"]
      is_public_ip_str [of "IPv6Address 0x20014860486000000000000000008888 None"]
      ip_address_str [of "IPv6Address 0x20014860486000000000000000008888 None"]
    by (simp_all add: is_public_ip_def blocked_v4_def passing_v6_def from_digits_def base6_def full6_def zeros del: ip_str.simps)
  have "ip_address ''dns.google'' = None" by (simp add: address_eval)
  then have run: "validate_public_url ?dns ''https://dns.google/x'' False = Inr ?t"
    by (simp add: validate_public_url_def url_eval public resolve_def)
  then have "vt_port ?t \<in> {80, 443}" using accepted_target_public [OF run] by blast
  then show ?thesis using run by (intro exI [of _ ?t]) auto
qed


end
