(* ===== verification/Demo.thy ===== *)
theory Demo
  imports Replay
begin

text \<open>
  \<^verbatim>\<open>scripts/demo.py\<close>: a client that drives the interface from the registration of an account to a partial
  refund.  It is modelled on the requests it sends and the lines it displays (label and value; colours
  and headings are left out, and so is what was displayed before an exception).  The identifiers the
  client draws for its e-mail address and its key are arguments.  A pause of the client passes on the
  server's clock.  Reading an identifier out of a path is the web framework's, a parameter
  \<open>path_id\<close> that answers an identifier or what is wrong with it.
\<close>

section \<open>The client\<close>

definition PAUSE :: rat where
  "PAUSE = 11 / 10"

definition demo_email :: "uuid \<Rightarrow> string" where
  "demo_email u = ''demo-'' @ take 8 (uuid_hex u) @ ''@example.com''"

definition demo_password :: string where
  "demo_password = ''correct horse battery staple''"

definition demo_body :: CreatePaymentRequest where
  "demo_body = \<lparr> cpr_currency = ''USD'', cpr_provider = MOCK, cpr_amount_minor = 24999,
     cpr_capture_method = MANUAL, cpr_method_type = PaymentMethodType.CARD, cpr_payment_method_token = None,
     cpr_description = Some ''Annual subscription'', cpr_customer_reference = None, cpr_metadata = [] \<rparr>"

definition demo_refund_body :: CreateRefundRequest where
  "demo_refund_body = \<lparr>crr_amount_minor = Some 9999, crr_reason = Some ''requested_by_customer''\<rparr>"

text \<open>\<open>client.post(...).json()\<close>: the status of the answer is not looked at.\<close>

definition send :: "'e platform \<Rightarrow> App \<Rightarrow> headers \<Rightarrow> call \<Rightarrow> ('e world, exc, json) op" where
  "send P app hs c = (\<lambda>w. case run_call P app hs c w of (resp, v) \<Rightarrow> (Inr (snd resp), v))"

type_synonym path_id = "string \<Rightarrow> (string list \<times> string \<times> string) list + uuid"

definition send_on ::
  "'e platform \<Rightarrow> App \<Rightarrow> path_id \<Rightarrow> headers \<Rightarrow> string \<Rightarrow> (uuid \<Rightarrow> call) \<Rightarrow> ('e world, exc, json) op" where
  "send_on P app path_id hs s c =
     (case path_id s of
        Inr i \<Rightarrow> send P app hs (c i)
      | Inl es \<Rightarrow> (\<lambda>w. (Inr (snd (error_answer (correlation_id w) (RequestValidationError es))), w)))"

definition step :: "'e platform \<Rightarrow> ('e world, exc, unit) op" where
  "step P = world_sleep P PAUSE"

definition field :: "json \<Rightarrow> string \<Rightarrow> ('e world, exc, json) op" where
  "field j name = lift_result (json_index j name)"

definition nested :: "json \<Rightarrow> string \<Rightarrow> string \<Rightarrow> ('e world, exc, json) op" where
  "nested j outer inner = andThen (field j outer) (\<lambda>x. field x inner)"

fun elided :: "json \<Rightarrow> string result" where
  \<comment> \<open>\<open>token[:38] + "..."\<close>\<close>
  "elided (JStr s) = Inr (take 38 s @ ''...'')"
| "elided (JObj kvs) = Inl (Py (KeyError ''slice(None, 38, None)''))"
| "elided _ = Inl (Py TypeError)"

type_synonym display = "(string \<times> string) list"

definition authenticated :: "'e platform \<Rightarrow> App \<Rightarrow> string \<Rightarrow> ('e world, exc, display \<times> headers) op" where
  \<comment> \<open>step 1: the lines shown and the headers the client sends from now on\<close>
  "authenticated P app email =
     andThen (step P) (\<lambda>_.
     andThen (send P app [] (Register \<lparr>reg_email = email, reg_password = demo_password, reg_full_name = None\<rparr>)) (\<lambda>_.
     andThen (send P app [] (Login \<lparr>log_email = email, log_password = demo_password\<rparr>)) (\<lambda>login.
     andThen (field login ''access_token'') (\<lambda>token.
     andThen (lift_result (elided token)) (\<lambda>shown.
     return ([(''user'', email), (''token'', shown)], [(''authorization'', ''Bearer '' @ py_str token)]))))))"

definition created :: "'e platform \<Rightarrow> App \<Rightarrow> headers \<Rightarrow> string \<Rightarrow> ('e world, exc, display \<times> json) op" where
  \<comment> \<open>steps 2 and 3: the payment, sent twice, and how many there are\<close>
  "created P app hs key =
     (let keyed = hs @ [(''idempotency-key'', key)]
      in andThen (step P) (\<lambda>_.
         andThen (send P app keyed (CreatePayment demo_body)) (\<lambda>first.
         andThen (field first ''id'') (\<lambda>first_id.
         andThen (nested first ''amount'' ''display'') (\<lambda>amount.
         andThen (field first ''status'') (\<lambda>status.
         andThen (step P) (\<lambda>_.
         andThen (step P) (\<lambda>_.
         andThen (send P app keyed (CreatePayment demo_body)) (\<lambda>second.
         andThen (field second ''id'') (\<lambda>second_id.
         andThen (send P app hs (ListPayments None 50 0)) (\<lambda>page.
         andThen (nested page ''meta'' ''total'') (\<lambda>total.
         return ([(''Idempotency-Key'', key), (''payment id'', py_str first_id), (''amount'', py_str amount),
            (''status'', py_str status), (''payment id'', py_str second_id),
            (''same payment?'', if second_id = first_id then ''YES - no double charge'' else ''NO - BUG''),
            (''payments on file'', py_str total @ ''  (two requests, one payment)'')], first_id)))))))))))))"

definition settled :: "'e platform \<Rightarrow> App \<Rightarrow> path_id \<Rightarrow> headers \<Rightarrow> json \<Rightarrow> ('e world, exc, display) op" where
  \<comment> \<open>steps 4 to 6: capture, partial refund, final state\<close>
  "settled P app path_id hs first_id =
     andThen (step P) (\<lambda>_.
     andThen (send_on P app path_id hs (py_str first_id) (\<lambda>i. CapturePayment i None)) (\<lambda>cap.
     andThen (field cap ''status'') (\<lambda>cap_status.
     andThen (step P) (\<lambda>_.
     andThen (send_on P app path_id hs (py_str first_id) (\<lambda>i. CreateRefund i demo_refund_body)) (\<lambda>ref.
     andThen (field ref ''id'') (\<lambda>ref_id.
     andThen (nested ref ''amount'' ''display'') (\<lambda>ref_amount.
     andThen (field ref ''status'') (\<lambda>ref_status.
     andThen (send_on P app path_id hs (py_str first_id) GetPayment) (\<lambda>final.
     andThen (step P) (\<lambda>_.
     andThen (field final ''status'') (\<lambda>final_status.
     andThen (nested final ''amount_captured'' ''display'') (\<lambda>captured.
     andThen (nested final ''amount_refunded'' ''display'') (\<lambda>refunded.
     return [(''status'', py_str cap_status), (''refund id'', py_str ref_id), (''refunded'', py_str ref_amount),
        (''status'', py_str ref_status), (''payment status'', py_str final_status), (''captured'', py_str captured),
        (''refunded'', py_str refunded), (''state machine'', ''authorized -> captured -> partially_refunded'')])))))))))))))"

definition demo_main ::
  "'e platform \<Rightarrow> App \<Rightarrow> path_id \<Rightarrow> uuid \<Rightarrow> uuid \<Rightarrow> ('e world, exc, display) op" where
  "demo_main P app path_id email_id idem_id =
     andThen (authenticated P app (demo_email email_id)) (\<lambda>(account, hs).
     andThen (created P app hs (uuid_str idem_id)) (\<lambda>(charge, first_id).
     andThen (settled P app path_id hs first_id) (\<lambda>rest.
     return (account @ charge @ rest))))"

section \<open>A run of the example platform\<close>

lemma token_steps:
  "uuid4 token_sandbox n = (of_nat n, Suc n)" "db_accepts token_sandbox t = unique_ok t"
  "argon2_hash token_sandbox plain n = (plain, n)" "time_time token_sandbox n = 1700000000 + of_nat n"
  "db_now token_sandbox n = 1700000000 + of_nat n" "async_sleep token_sandbox d n = Suc n"
  "argon2_verify token_sandbox h plain = (if h = plain then Inr True else Inl VerifyMismatchError)"
  "argon2_needs_rehash token_sandbox h = Inr False" "isoformat token_sandbox x = show_int \<lfloor>x\<rfloor>"
  by (simp_all add: token_sandbox_def sandbox_def)

lemma one_row: "length xs \<le> 1 \<Longrightarrow> unique_by f xs"
  by (cases xs) (auto simp: unique_by_def List.map_filter_simps split: option.splits)

definition few :: "tables \<Rightarrow> bool" where
  "few t \<longleftrightarrow> length (users t) \<le> 1 \<and> api_keys t = [] \<and> provider_configs t = [] \<and> length (payments t) \<le> 1 \<and>
     length (refunds t) \<le> 1 \<and> length (idempotency_keys t) \<le> 1 \<and> webhook_events t = [] \<and> distinct (map aud_id (audit_logs t))"

lemma few_unique: "few t \<Longrightarrow> unique_ok t"
  by (auto simp: few_def unique_ok_def one_row map_filter_Some) (auto simp: unique_by_def map_filter_Some)

text \<open>The database between two requests: the clock, the rows, and a closed circuit.\<close>

definition stage :: "nat \<Rightarrow> User list \<Rightarrow> Payment list \<Rightarrow> Refund list \<Rightarrow> IdempotencyKey list \<Rightarrow> nat world \<Rightarrow> bool" where
  "stage n us ps rs ks w \<longleftrightarrow> env w = n \<and> users (committed w) = us \<and> payments (committed w) = ps \<and>
     refunds (committed w) = rs \<and> idempotency_keys (committed w) = ks \<and> few (committed w) \<and>
     (\<forall>a \<in> set (audit_logs (committed w)). unat (aud_id a) < n) \<and> cb_state (get_breaker sandbox_gateway MOCK w) \<noteq> OPEN"

definition fresh_session :: "'e world \<Rightarrow> 'e world" where
  "fresh_session w = w\<lparr>objs := committed w, pending := []\<rparr>"

text \<open>What an endpoint leaves in its session is what the next request finds.\<close>

lemma send_stage:
  assumes "endpoint_of token_sandbox demo_app hs c (fresh_session w) = (Inr resp, v)" and "few (view v)"
    and "\<forall>a \<in> set (audit_logs (view v)). unat (aud_id a) < env v" and "cb_state (get_breaker sandbox_gateway MOCK v) \<noteq> OPEN"
  shows "\<exists>x. send token_sandbox demo_app hs c w = (Inr (snd resp), x) \<and>
    stage (env v) (users (view v)) (payments (view v)) (refunds (view v)) (idempotency_keys (view v)) x"
  using assms few_unique [OF assms(2)]
  by (simp add: send_def run_call_def unit_of_work fresh_session_def view_def Let_def token_steps(2) stage_def get_breaker_def)

lemma stage_step: "stage n us ps rs ks w \<Longrightarrow> step token_sandbox w = (Inr (), w\<lparr>env := Suc n\<rparr>) \<and> stage (Suc n) us ps rs ks (w\<lparr>env := Suc n\<rparr>)"
  by (auto simp: stage_def step_def world_sleep_def op_simps token_steps get_breaker_def)

lemma of_nat_uuid: "n < 2 ^ 64 \<Longrightarrow> unat (of_nat n :: uuid) = n"
  by (simp add: unat_of_nat take_bit_nat_eq_self order.strict_trans)

lemma opened:
  assumes "stage n us ps rs ks w"
  shows "env (fresh_session w) = n" "pending (fresh_session w) = []" "objs (fresh_session w) = committed w"
    "view (fresh_session w) = committed w" "users (committed w) = us" "payments (committed w) = ps" "refunds (committed w) = rs"
    "idempotency_keys (committed w) = ks" "few (committed w)" "cb_state (get_breaker sandbox_gateway MOCK (fresh_session w)) \<noteq> OPEN"
  using assms by (simp_all add: stage_def fresh_session_def get_breaker_def)

text \<open>A request that only reads.\<close>

lemma read_stage:
  assumes "stage n us ps rs ks w" and "endpoint_of token_sandbox demo_app hs c (fresh_session w) = (Inr resp, fresh_session w)"
  shows "\<exists>x. send token_sandbox demo_app hs c w = (Inr (snd resp), x) \<and> stage n us ps rs ks x"
  using send_stage [OF assms(2)] opened [OF assms(1)] assms(1) by (auto simp: stage_def)

text \<open>A request that changes rows and appends an audit entry.\<close>

lemma audited_stage:
  assumes "stage n us ps rs ks w" and "endpoint_of token_sandbox demo_app hs c (fresh_session w) = (Inr resp, v)"
    and "few (objs v)" and "audit_logs (objs v) = audit_logs (committed w)" and "pending v = [AuditLogRow a]"
    and "aud_id a = of_nat k" and "n \<le> k" and "k < env v" and "env v < 2 ^ 32"
    and "cb_state (get_breaker sandbox_gateway MOCK v) \<noteq> OPEN"
  shows "\<exists>x. send token_sandbox demo_app hs c w = (Inr (snd resp), x) \<and>
    stage (env v) (users (objs v)) (payments (objs v)) (refunds (objs v)) (idempotency_keys (objs v)) x"
proof -
  have view: "view v = (objs v)\<lparr>audit_logs := audit_logs (objs v) @ [a]\<rparr>" using assms(5) by (simp add: view_def)
  have new: "unat (aud_id a) = k" using assms(6,8,9) of_nat_uuid [of k] by simp
  have "few (view v)" "\<forall>a \<in> set (audit_logs (view v)). unat (aud_id a) < env v"
    using assms(1,3,4,7,8) new by (auto simp: view few_def stage_def)
  from send_stage [OF assms(2) this assms(10)] show ?thesis by (simp add: view)
qed

section \<open>Account and token\<close>

lemma register_stage:
  assumes "stage n [] [] [] [] w" and "n < 2 ^ 31" and "reg_password r \<noteq> []"
  shows "\<exists>resp u v. send token_sandbox demo_app [] (Register r) w = (Inr resp, v) \<and> stage (n + 2) [u] [] [] [] v \<and>
    usr_email u = strip (lower (reg_email r)) \<and> usr_hashed_password u = reg_password r \<and> usr_role u = MERCHANT \<and>
    usr_is_active u \<and> usr_failed_login_attempts u = 0"
proof -
  let ?u = "new_user (strip (lower (reg_email r))) (reg_password r) (reg_full_name r) MERCHANT (of_nat n) (1700000001 + of_nat n)"
  note t = opened [OF assms(1)]
  have few: "few ((committed w)\<lparr>users := [?u]\<rparr>)" using t(9) by (simp add: few_def)
  have "\<exists>v a. endpoint_of token_sandbox demo_app [] (Register r) (fresh_session w) = (Inr (201, user_response token_sandbox ?u), v) \<and>
      env v = n + 2 \<and> objs v = (committed w)\<lparr>users := [?u]\<rparr> \<and> pending v = [AuditLogRow a] \<and>
      breakers v = breakers (fresh_session w) \<and> aud_id a = of_nat (n + 1)"
    using t assms(3) few_unique [OF few]
    by (simp add: api_register_def register_def Let_def email_exists_def hash_password_def audit_record_def add_row_def
        flush_def op_simps token_steps)
  then obtain v a where run: "endpoint_of token_sandbox demo_app [] (Register r) (fresh_session w) = (Inr (201, user_response token_sandbox ?u), v)"
    and v: "env v = n + 2" "objs v = (committed w)\<lparr>users := [?u]\<rparr>" "pending v = [AuditLogRow a]"
      "breakers v = breakers (fresh_session w)" "aud_id a = of_nat (n + 1)" by blast
  from audited_stage [OF assms(1) run _ _ v(3,5)] few v t assms(2) obtain x where
    "send token_sandbox demo_app [] (Register r) w = (Inr (user_response token_sandbox ?u), x)" "stage (n + 2) [?u] [] [] [] x"
    by (auto simp: get_breaker_def)
  then show ?thesis by (intro exI conjI) (assumption, assumption, simp_all add: new_user_def)
qed

text \<open>A token that authenticates a user as long as the clock is before a limit.\<close>

definition valid_token :: "string \<Rightarrow> User \<Rightarrow> nat \<Rightarrow> nat \<Rightarrow> bool" where
  "valid_token token u lo hi \<longleftrightarrow> token \<noteq> [] \<and>
     (\<forall>x :: nat world. lo \<le> env x \<longrightarrow> env x < hi \<longrightarrow> users (objs x) = [u] \<longrightarrow>
        user_from_access_token token_sandbox default_settings token x = (Inr u, x))"

lemma issued_valid:
  assumes "create_access_token token_sandbox default_settings (uuid_str (usr_id u)) scopes w = (Inr token, v)"
    and "env w < 2 ^ 32" and "usr_is_active u"
  shows "valid_token token u (env w) (env w + 900)"
proof -
  have now: "unix_now token_sandbox w = 1700000000 + int (env w)"
    by (simp add: unix_now_def token_steps)
  have ttl: "access_token_ttl_seconds default_settings = 900" by (simp add: default_settings_def)
  have "user_from_access_token token_sandbox default_settings token x = (Inr u, x)"
    if "env w \<le> env x" "env x < env w + 900" "users (objs x) = [u]" for x :: "nat world"
  proof -
    have "of_int (unix_now token_sandbox w) \<le> time_time token_sandbox (env x)"
      "time_time token_sandbox (env x) < of_int (unix_now token_sandbox w + 900)"
      using that(1,2) unfolding now by (simp_all add: token_steps)
    moreover have "0 \<le> unix_now token_sandbox w + 900" "unix_now token_sandbox w + 900 \<le> 253402300799"
      using assms(2) unfolding now by simp_all
    ultimately obtain claims where "decode token_sandbox default_settings token ACCESS x = (Inr claims, x)"
      "tkc_subject claims = uuid_str (usr_id u)"
      using token_read_back [OF assms(1) [unfolded create_access_token_def ttl] token_sandbox_faithful, of x ACCESS] by auto
    then show ?thesis
      using assms(3) that(3) by (simp add: user_from_access_token_def op_simps active_user_def get_by_id_def)
  qed
  moreover have "token \<noteq> []"
  proof -
    have "show_nat k \<noteq> []" for k by (subst show_nat.simps) simp
    then show ?thesis
      using assms(1) by (auto simp: create_access_token_def issue_def token_sandbox_def demo_encode_def split: prod.splits)
  qed
  ultimately show ?thesis by (simp add: valid_token_def)
qed

lemma login_stage:
  assumes "stage n [u] [] [] [] w" and "n < 2 ^ 31" and "usr_email u = strip (lower (log_email r))"
    and "usr_hashed_password u = log_password r" and "log_password r \<noteq> []" and "usr_is_active u" and "usr_failed_login_attempts u = 0"
  shows "\<exists>tokens v. send token_sandbox demo_app [] (Login r) w = (Inr (token_response tokens), v) \<and> stage (n + 3) [u] [] [] [] v \<and>
    valid_token (tp_access_token tokens) u (n + 1) (901 + n)"
proof -
  note t = opened [OF assms(1)]
  have same: "u\<lparr>usr_failed_login_attempts := 0\<rparr> = u" using assms(7) by simp
  have "\<exists>v a. authenticate token_sandbox (log_email r) (log_password r) (fresh_session w) = (Inr u, v) \<and> env v = n + 1 \<and>
      objs v = committed w \<and> pending v = [AuditLogRow a] \<and> breakers v = breakers (fresh_session w) \<and> aud_id a = of_nat n"
    using t assms(3-7) same
    by (simp add: authenticate_def get_by_email_def select_one_eq scalar_one_or_none_def op_simps Let_def verify_password_def
        needs_rehash_def token_steps put_user_def audit_record_def add_row_def replace_by_def MAX_FAILED_LOGINS_def ensure_def)
  then obtain v a where run: "authenticate token_sandbox (log_email r) (log_password r) (fresh_session w) = (Inr u, v)"
    and v: "env v = n + 1" "objs v = committed w" "pending v = [AuditLogRow a]" "breakers v = breakers (fresh_session w)"
      "aud_id a = of_nat n" by blast
  obtain token x where tok: "create_access_token token_sandbox default_settings (uuid_str (usr_id u)) (scopes_for_role (usr_role u)) v = (Inr token, x)"
    unfolding create_access_token_def by (rule issue_returns)
  then have x: "x = v\<lparr>env := n + 2\<rparr>" using v(1) by (auto simp: create_access_token_def issue_def token_steps)
  obtain other y where ref: "create_refresh_token token_sandbox default_settings (uuid_str (usr_id u)) x = (Inr other, y)"
    unfolding create_refresh_token_def by (rule issue_returns)
  then have y: "y = v\<lparr>env := n + 3\<rparr>" using x by (auto simp: create_refresh_token_def issue_def token_steps)
  let ?tokens = "\<lparr>tp_access_token = token, tp_refresh_token = other\<rparr>"
  have "endpoint_of token_sandbox demo_app [] (Login r) (fresh_session w) = (Inr (200, token_response ?tokens), y)"
    using run tok ref by (simp add: api_login_def issue_tokens_def op_simps demo_app_def)
  from audited_stage [OF assms(1) this, where a = a and k = n] y v t assms(2) obtain z where
    "send token_sandbox demo_app [] (Login r) w = (Inr (token_response ?tokens), z)" "stage (n + 3) [u] [] [] [] z"
    by (auto simp: get_breaker_def)
  moreover have "valid_token token u (n + 1) (901 + n)"
    using issued_valid [OF tok] assms(2,6) v(1) by simp
  ultimately show ?thesis by (intro exI conjI) (assumption, assumption, simp)
qed

definition bearer :: "string \<Rightarrow> headers" where
  "bearer token = [(''authorization'', ''Bearer '' @ token)]"

text \<open>A merchant's token, good at a clock reading; what it is good for.\<close>

definition signed_in :: "string \<Rightarrow> User \<Rightarrow> nat \<Rightarrow> bool" where
  "signed_in token u n \<longleftrightarrow> usr_role u = MERCHANT \<and> n < 2 ^ 31 \<and> (\<exists>lo hi. valid_token token u lo hi \<and> lo \<le> n \<and> n < hi)"

lemma bearer_scope:
  assumes "stage n [u] ps rs ks w" and "signed_in token u n" and "map_of hs ''x-api-key'' = None"
    and "map_of hs ''authorization'' = Some (''Bearer '' @ token)"
    and "scope \<in> {SCOPE_PAYMENTS_WRITE, SCOPE_PAYMENTS_READ, SCOPE_REFUNDS_WRITE}"
  shows "require_scope token_sandbox demo_app hs scope (fresh_session w) = (Inr u, fresh_session w)"
proof -
  have "has_scope (scopes_for_role MERCHANT) scope" using assms(5) by (auto simp: has_scope_def)
  moreover have "partition_on (CHR '' '') (''Bearer '' @ token) = (''Bearer'', '' '', token)"
    using partition_on_append [of "CHR '' ''" "''Bearer''" token] by simp
  moreover have "lower ''Bearer'' = ''bearer''" by code_simp
  moreover obtain lo hi where "valid_token token u lo hi" "lo \<le> n" "n < hi" using assms(2) by (auto simp: signed_in_def)
  ultimately show ?thesis
    using assms(2-4) opened [OF assms(1)]
    by (simp add: require_scope_def get_current_user_def nonempty_def header_get_def op_simps valid_token_def demo_app_def signed_in_def)
qed

text \<open>A provider call on a closed circuit, with what it does to clock and session.\<close>

lemma execute_once:
  assumes "cb_state (get_breaker gm provider w) \<noteq> OPEN" and "1 \<le> provider_max_retries (gm_settings gm)"
    and "env_only operation" and "\<And>x. env x = env w \<Longrightarrow> \<exists>x'. operation x = (Inr a, x') \<and> env x' = e"
  shows "\<exists>v. execute P gm provider operation w = (Inr a, v) \<and> env v = e \<and> same_session w v \<and>
    cb_state (get_breaker gm provider v) \<noteq> OPEN"
proof -
  let ?w = "snd (breaker_for gm provider w :: (exc + unit) \<times> 'a world)"
  have present: "breakers ?w provider \<noteq> None" and same: "get_breaker gm provider ?w = get_breaker gm provider w" and "env ?w = env w"
    by (auto simp: breaker_for_def op_simps get_breaker_def split: option.splits)
  then obtain u where op: "operation ?w = (Inr a, u)" "env u = e" using assms(4) by blast
  have "[1..provider_max_retries (gm_settings gm)] = 1 # [2..provider_max_retries (gm_settings gm)]"
    using assms(2) by (simp add: upto_rec1)
  then have retry: "with_retry P gm provider operation ?w = (Inr a, u)"
    using op by (simp add: with_retry_def retry_async_def op_simps guarded_def)
  have "breaker_call (get_breaker gm provider) (put_breaker provider) (\<lambda>w. monotonic P (env w))
      (with_retry P gm provider operation) ?w = (Inr a, put_breaker provider (on_success (get_breaker gm provider u)) u)"
    using table_breaker.call_closed [of gm provider ?w P "with_retry P gm provider operation"] present same retry assms(1)
    by simp
  moreover have exec: "execute P gm provider operation w = execute P gm provider operation ?w"
    by (auto simp: execute_def breaker_for_def op_simps split: option.splits)
  ultimately obtain v where v: "execute P gm provider operation w = (Inr a, v)" "env v = e" "breakers v provider = Some (on_success (get_breaker gm provider u))"
    using op(2) execute_eq [OF present, of gm P operation] by (auto simp: put_breaker_def)
  then show ?thesis using execute_env_only [OF assms(3) v(1)] by (auto simp: get_breaker_def on_success_def)
qed

lemma demo_gateway: "app_gateway demo_app = sandbox_gateway" "1 \<le> provider_max_retries (gm_settings sandbox_gateway)"
  by (simp_all add: demo_app_def sandbox_gateway_def default_settings_def)

lemma create_eval:
  assumes "env x = n" and "pending x = []" and "payments (objs x) = []" and "few (objs x)"
    and "cb_state (get_breaker sandbox_gateway MOCK x) \<noteq> OPEN" and "is_positive m"
  shows "\<exists>p a v. create_payment token_sandbox sandbox_gateway u MOCK m MANUAL mt None descr cust [] key x = (Inr p, v) \<and>
    env v = n + 3 \<and> objs v = (objs x)\<lparr>payments := [p]\<rparr> \<and> pending v = [AuditLogRow a] \<and> aud_id a = of_nat (n + 2) \<and>
    cb_state (get_breaker sandbox_gateway MOCK v) \<noteq> OPEN \<and> pay_id p = of_nat n \<and> pay_owner_id p = usr_id u \<and>
    pay_provider p = MOCK \<and> pay_amount p = minor_units m \<and> pay_currency p = currency m \<and> pay_status p = AUTHORIZED \<and>
    pay_amount_captured p = 0 \<and> pay_amount_refunded p = 0"
proof -
  let ?p0 = "new_payment u MOCK m MANUAL mt descr cust [] (of_nat n) (1700000000 + of_nat (Suc n))"
  let ?w1 = "x\<lparr>env := Suc n, pending := [PaymentRow ?p0]\<rparr>"
  let ?w2 = "x\<lparr>env := Suc n, objs := (objs x)\<lparr>payments := [?p0]\<rparr>, pending := []\<rparr>"
  let ?ctx = "\<lparr> ctx_secret = MOCK_SANDBOX_SECRET, ctx_sandbox = True, ctx_config = [], ctx_http = gm_http sandbox_gateway \<rparr>"
  let ?rq = "\<lparr> cr_amount = m, cr_capture_method = MANUAL, cr_method_type = mt,
      cr_payment_method_token = None, cr_description = descr,
      cr_customer_reference = cust, cr_idempotency_key = key, cr_metadata = [] \<rparr>"
  let ?ref = "''mock_pay'' @ ''_'' @ take 24 (uuid_hex (of_nat (Suc n)))"
  let ?c = "\<lparr> chg_reference = ?ref, chg_status = AUTHORIZED, chg_amount_captured = 0,
      chg_raw = JObj [(''simulated'', JBool True), (''captured'', JBool False)], chg_failure_reason = None \<rparr>"
  have add: "add_row token_sandbox PaymentRow (new_payment u MOCK m MANUAL mt descr cust []) x = (Inr ?p0, ?w1)"
    using assms(1,2) by (simp add: add_row_def Let_def token_steps)
  have "unique_ok ((objs x)\<lparr>payments := [?p0]\<rparr>)" using assms(4) by (intro few_unique) (simp add: few_def)
  then have flush: "flush token_sandbox ?w1 = (Inr (), ?w2)" using assms(3) by (simp add: flush_def token_steps)
  have get: "get_provider token_sandbox sandbox_gateway (usr_id u) MOCK ?w2 = (Inr (MockProvider token_sandbox ?ctx), ?w2)"
    using assms(4) by (intro mock_unconfigured) (simp add: few_def)
  have op: "ad_create_payment (MockProvider token_sandbox ?ctx) ?rq = mock_create_payment token_sandbox ?rq" by (simp add: MockProvider_def)
  have "env_only (mock_create_payment token_sandbox ?rq)" using mock.create_env [of token_sandbox ?ctx ?rq] op by simp
  then obtain v where exec: "execute token_sandbox sandbox_gateway MOCK (mock_create_payment token_sandbox ?rq) ?w2 = (Inr ?c, v)"
    and v: "env v = Suc (Suc n)" "same_session ?w2 v" "cb_state (get_breaker sandbox_gateway MOCK v) \<noteq> OPEN"
    using execute_once [of sandbox_gateway MOCK ?w2 "mock_create_payment token_sandbox ?rq" ?c "Suc (Suc n)" token_sandbox] assms(5)
    by (auto simp: demo_gateway get_breaker_def mock_create_payment_def new_reference_def op_simps token_steps should_fail_def)
  have v': "objs v = (objs x)\<lparr>payments := [?p0]\<rparr>" "pending v = []" using v(2) by (simp_all add: same_session_def)
  show ?thesis
    using assms(6) v(1,3) v'
    by (simp only: create_payment_def ensure_def assms(6) if_True andThen_return
        andThen_step [of "add_row token_sandbox PaymentRow (new_payment u MOCK m MANUAL mt descr cust [])" x, OF add]
        andThen_step [of "flush token_sandbox" ?w1, OF flush] andThen_step [of "get_provider token_sandbox sandbox_gateway (usr_id u) MOCK" ?w2, OF get] op
        andThen_step [of "execute token_sandbox sandbox_gateway MOCK (mock_create_payment token_sandbox ?rq)" ?w2, OF exec])
      (simp add: op_simps put_payment_def payment_metric_def inc_def audit_record_def add_row_def Let_def token_steps
        assert_transition_def can_transition_def new_payment_def apply_charge_def replace_by_def get_breaker_def)
qed

section \<open>The requests with a payment\<close>

lemma usd: "is_supported_currency ''USD''" "upper ''USD'' = ''USD''" "exponent_for ''USD'' = Inr 2"
  by (code_simp, code_simp, code_simp)

lemma usd_money: "Money a ''USD'' = Inr \<lparr>minor_units = a, currency = ''USD''\<rparr>"
  by (simp add: Money_def Money_init_def usd Let_def)

definition money_json :: "int \<Rightarrow> string \<Rightarrow> json" where
  "money_json a text = JObj [(''minor_units'', JInt a), (''currency'', JStr ''USD''), (''display'', JStr text)]"

lemma money_shown:
  "money_out 24999 ''USD'' = Inr (money_json 24999 ''249.99 USD'')"
  "money_out 9999 ''USD'' = Inr (money_json 9999 ''99.99 USD'')"
  "money_out 0 ''USD'' = Inr (money_json 0 ''0.00 USD'')"
proof -
  have f: "format \<lparr>minor_units = a, currency = ''USD''\<rparr> = Inr (show_int (\<bar>a\<bar> div 100) @ ''.'' @
      [digit_char (nat (\<bar>a\<bar> div 10 mod 10)), digit_char (nat (\<bar>a\<bar> mod 10))] @ '' USD'')"
    if "0 \<le> a" "a < 10 ^ 28" for a
    using format_cents [of "\<lparr>minor_units = a, currency = ''USD''\<rparr>"] usd(3) that by simp
  show "money_out 24999 ''USD'' = Inr (money_json 24999 ''249.99 USD'')"
    "money_out 9999 ''USD'' = Inr (money_json 9999 ''99.99 USD'')"
    "money_out 0 ''USD'' = Inr (money_json 0 ''0.00 USD'')"
    by (simp_all add: money_out_def usd_money f money_json_def show_int_def show_nat_step)
qed

lemma json_fields [simp]:
  "field (JObj kvs) name w = (case map_of kvs name of Some x \<Rightarrow> (Inr x, w) | None \<Rightarrow> (Inl (Py (KeyError name)), w))"
  "nested (JObj [(outer, money_json a text)]) outer ''display'' w = (Inr (JStr text), w)"
  by (auto simp: field_def nested_def json_index_def money_json_def op_simps split: option.splits)

text \<open>What the client reads in the answer that shows a payment or a refund.\<close>

definition dollar_payment :: "Payment \<Rightarrow> bool" where
  "dollar_payment p \<longleftrightarrow> pay_currency p = ''USD'' \<and> pay_amount p = 24999 \<and> pay_amount_captured p \<in> {0, 24999} \<and>
     pay_amount_refunded p \<in> {0, 9999}"

definition dollars :: "int \<Rightarrow> string" where
  "dollars a = (if a = 24999 then ''249.99 USD'' else if a = 9999 then ''99.99 USD'' else ''0.00 USD'')"

definition shows_payment :: "json \<Rightarrow> Payment \<Rightarrow> bool" where
  "shows_payment j p \<longleftrightarrow>
     json_index j ''id'' = Inr (JStr (uuid_str (pay_id p))) \<and>
     json_index j ''status'' = Inr (JStr (PaymentStatus_value (pay_status p))) \<and>
     json_index j ''amount'' = Inr (money_json (pay_amount p) (dollars (pay_amount p))) \<and>
     json_index j ''amount_captured'' = Inr (money_json (pay_amount_captured p) (dollars (pay_amount_captured p))) \<and>
     json_index j ''amount_refunded'' = Inr (money_json (pay_amount_refunded p) (dollars (pay_amount_refunded p)))"

lemma payment_shown:
  assumes "dollar_payment p"
  shows "\<exists>j. payment_to_response P p = Inr j \<and> shows_payment j p"
  using assms
  by (auto simp: dollar_payment_def payment_to_response_def money_shown shows_payment_def json_index_def dollars_def)

lemma create_stage:
  assumes "stage n [u] [] [] [] w" and "signed_in token u n" and "key \<noteq> []"
  shows "\<exists>j p k v. send token_sandbox demo_app (bearer token @ [(''idempotency-key'', key)]) (CreatePayment demo_body) w = (Inr j, v) \<and>
    stage (n + 4) [u] [p] [] [k] v \<and> shows_payment j p \<and> dollar_payment p \<and> pay_provider p = MOCK \<and> pay_owner_id p = usr_id u \<and>
    pay_status p = AUTHORIZED \<and> pay_amount_captured p = 0 \<and> pay_amount_refunded p = 0 \<and>
    answers k (usr_id u) CREATE_ENDPOINT key (dump_create demo_body) \<and> idk_response_body k = j"
proof -
  let ?w = "fresh_session w" and ?t = "committed w" and ?hs = "bearer token @ [(''idempotency-key'', key)]"
  let ?m = "\<lparr>minor_units = 24999, currency = ''USD''\<rparr>"
  note t = opened [OF assms(1)]
  have auth: "require_scope token_sandbox demo_app ?hs SCOPE_PAYMENTS_WRITE ?w = (Inr u, ?w)"
    by (rule bearer_scope [OF assms(1,2)]) (simp_all add: bearer_def)
  obtain p a v where run: "create_payment token_sandbox sandbox_gateway u MOCK ?m MANUAL PaymentMethodType.CARD None
      (Some ''Annual subscription'') None [] (Some key) ?w = (Inr p, v)"
    and v: "env v = n + 3" "objs v = ?t\<lparr>payments := [p]\<rparr>" "pending v = [AuditLogRow a]" "aud_id a = of_nat (n + 2)"
      "cb_state (get_breaker sandbox_gateway MOCK v) \<noteq> OPEN"
    and p: "pay_owner_id p = usr_id u" "pay_provider p = MOCK" "pay_amount p = 24999" "pay_currency p = ''USD''"
      "pay_status p = AUTHORIZED" "pay_amount_captured p = 0" "pay_amount_refunded p = 0"
    using create_eval [of ?w n ?m u PaymentMethodType.CARD "Some ''Annual subscription''" None "Some key"] t
    by (auto simp: is_positive_def)
  have dp: "dollar_payment p" using p by (simp add: dollar_payment_def)
  then obtain j where j: "payment_to_response token_sandbox p = Inr j" "shows_payment j p" using payment_shown by blast
  have act: "charge_action token_sandbox demo_app u demo_body (Some key) ?w = (Inr j, v)"
    using run j(1) by (simp add: charge_action_def demo_body_def usd_money op_simps demo_gateway)
  define k where "k = new_record (usr_id u) CREATE_ENDPOINT key (dump_create demo_body) 201 j (of_nat (n + 3))"
  let ?t' = "?t\<lparr>payments := [p], audit_logs := audit_logs ?t @ [a], idempotency_keys := [k]\<rparr>"
  have "unat (aud_id a) = n + 2" using v(4) assms(2) of_nat_uuid [of "n + 2"] by (simp add: signed_in_def)
  then have few: "few ?t'" "\<forall>a \<in> set (audit_logs ?t'). unat (aud_id a) < n + 4"
    using assms(1) by (auto simp: few_def stage_def)
  have "\<exists>x. store token_sandbox (usr_id u) CREATE_ENDPOINT key (dump_create demo_body) 201 j v = (Inr (), x) \<and>
      env x = n + 4 \<and> view x = ?t' \<and> breakers x = breakers v"
    using few_unique [OF few(1)] v(1-3) t(8)
    by (simp add: store_def op_simps add_row_def flush_def Let_def token_steps k_def view_def)
  then obtain x where st: "store token_sandbox (usr_id u) CREATE_ENDPOINT key (dump_create demo_body) 201 j v = (Inr (), x)"
    and x: "env x = n + 4" "view x = ?t'" "breakers x = breakers v" by blast
  have "endpoint_of token_sandbox demo_app ?hs (CreatePayment demo_body) ?w = (Inr (201, j), x)"
    using charge_endpoint.ran [OF auth, of key demo_body] act st t(3,8) assms(3)
    by (simp add: bearer_def with_idempotency_def lookup_eq scalar_one_or_none_def op_simps stored_def)
  from send_stage [OF this] few x v(5) t obtain z where
    "send token_sandbox demo_app ?hs (CreatePayment demo_body) w = (Inr j, z)" "stage (n + 4) [u] [p] [] [k] z"
    by (auto simp: get_breaker_def)
  moreover have "answers k (usr_id u) CREATE_ENDPOINT key (dump_create demo_body)" "idk_response_body k = j"
    by (simp_all add: k_def new_record_def answers_def)
  ultimately show ?thesis using j(2) dp p by blast
qed

lemma retry_stage:
  assumes "stage n [u] ps rs [k] w" and "signed_in token u n" and "key \<noteq> []"
    and "answers k (usr_id u) CREATE_ENDPOINT key (dump_create demo_body)"
  shows "\<exists>v. send token_sandbox demo_app (bearer token @ [(''idempotency-key'', key)]) (CreatePayment demo_body) w =
      (Inr (idk_response_body k), v) \<and> stage n [u] ps rs [k] v"
proof -
  let ?hs = "bearer token @ [(''idempotency-key'', key)]"
  have auth: "require_scope token_sandbox demo_app ?hs SCOPE_PAYMENTS_WRITE (fresh_session w) = (Inr u, fresh_session w)"
    by (rule bearer_scope [OF assms(1,2)]) (simp_all add: bearer_def)
  have "endpoint_of token_sandbox demo_app ?hs (CreatePayment demo_body) (fresh_session w) =
      (Inr (idk_response_status k, idk_response_body k), fresh_session w)"
    using charge_endpoint.repetition_answered [OF auth, of key k demo_body] assms(3,4) opened [OF assms(1)]
    by (simp add: bearer_def unique_records_def)
  from read_stage [OF assms(1) this] show ?thesis by simp
qed

lemma list_stage:
  assumes "stage n [u] [p] rs ks w" and "signed_in token u n" and "dollar_payment p" and "pay_owner_id p = usr_id u"
  shows "\<exists>page v. send token_sandbox demo_app (bearer token) (ListPayments None 50 0) w = (Inr page, v) \<and>
    stage n [u] [p] rs ks v \<and> (\<forall>x :: nat world. nested page ''meta'' ''total'' x = (Inr (JInt 1), x))"
proof -
  have auth: "require_scope token_sandbox demo_app (bearer token) SCOPE_PAYMENTS_READ (fresh_session w) = (Inr u, fresh_session w)"
    by (rule bearer_scope [OF assms(1,2)]) (simp_all add: bearer_def)
  obtain j where j: "payment_to_response token_sandbox p = Inr j" using payment_shown [OF assms(3)] by blast
  let ?page = "JObj [(''items'', JArr [j]), (''meta'', JObj [(''total'', JInt 1), (''limit'', JInt 50), (''offset'', JInt 0)])]"
  have "endpoint_of token_sandbox demo_app (bearer token) (ListPayments None 50 0) (fresh_session w) = (Inr (200, ?page), fresh_session w)"
    using auth opened [OF assms(1)] j assms(4)
    by (simp add: api_list_payments_def op_simps list_payments_def list_for_owner_def collect_def Let_def)
  from read_stage [OF assms(1) this] obtain v where
    "send token_sandbox demo_app (bearer token) (ListPayments None 50 0) w = (Inr ?page, v)" "stage n [u] [p] rs ks v" by auto
  moreover have "nested ?page ''meta'' ''total'' x = (Inr (JInt 1), x)" for x :: "nat world"
    by (simp add: nested_def op_simps)
  ultimately show ?thesis by blast
qed

lemma payment_found:
  "stage n us [p] rs ks w \<Longrightarrow> pay_owner_id p = usr_id u \<Longrightarrow>
     get_for_owner (pay_id p) (usr_id u) (fresh_session w) = (Inr (Some p), fresh_session w)"
  using opened [of n us "[p]" rs ks w] by (simp add: get_for_owner_def select_one_eq scalar_one_or_none_def)

lemma get_stage:
  assumes "stage n [u] [p] rs ks w" and "signed_in token u n" and "dollar_payment p" and "pay_owner_id p = usr_id u"
  shows "\<exists>j v. send token_sandbox demo_app (bearer token) (GetPayment (pay_id p)) w = (Inr j, v) \<and>
    stage n [u] [p] rs ks v \<and> shows_payment j p"
proof -
  have auth: "require_scope token_sandbox demo_app (bearer token) SCOPE_PAYMENTS_READ (fresh_session w) = (Inr u, fresh_session w)"
    by (rule bearer_scope [OF assms(1,2)]) (simp_all add: bearer_def)
  obtain j where j: "payment_to_response token_sandbox p = Inr j" "shows_payment j p" using payment_shown [OF assms(3)] by blast
  have "endpoint_of token_sandbox demo_app (bearer token) (GetPayment (pay_id p)) (fresh_session w) = (Inr (200, j), fresh_session w)"
    using auth payment_found [OF assms(1,4)] j(1) by (simp add: api_get_payment_def op_simps get_payment_def require_payment_def)
  from read_stage [OF assms(1) this] show ?thesis using j(2) by auto
qed

text \<open>The sandbox adapter of a tenant without configuration.\<close>

definition sandbox_adapter :: "nat BasePaymentProvider" where
  "sandbox_adapter = MockProvider token_sandbox \<lparr> ctx_secret = MOCK_SANDBOX_SECRET, ctx_sandbox = True, ctx_config = [],
     ctx_http = gm_http sandbox_gateway \<rparr>"

lemma adapter_found:
  "stage n us ps rs ks w \<Longrightarrow> get_provider token_sandbox sandbox_gateway i MOCK (fresh_session w) = (Inr sandbox_adapter, fresh_session w)"
  using opened [of n us ps rs ks w] by (simp add: sandbox_adapter_def few_def mock_unconfigured)

lemma adapter_steps:
  "ad_capture sandbox_adapter = mock_capture" "ad_refund sandbox_adapter = mock_refund token_sandbox"
  "env_only (ad_capture sandbox_adapter r m)" "env_only (ad_refund sandbox_adapter r m reason)"
  unfolding sandbox_adapter_def by (simp_all add: MockProvider_def mock.capture_env [unfolded MockProvider_def, simplified]
      mock.refund_env [unfolded MockProvider_def, simplified])

lemma capture_eval:
  assumes "stage n [u] [p] rs ks w" and "dollar_payment p" and "pay_owner_id p = usr_id u" and "pay_provider p = MOCK"
    and "pay_status p = AUTHORIZED"
  shows "\<exists>v a. capture_payment token_sandbox sandbox_gateway u (pay_id p) None (fresh_session w) =
      (Inr (p\<lparr>pay_status := CAPTURED, pay_amount_captured := 24999\<rparr>), v) \<and> env v = n + 1 \<and>
    objs v = (committed w)\<lparr>payments := [p\<lparr>pay_status := CAPTURED, pay_amount_captured := 24999\<rparr>]\<rparr> \<and>
    pending v = [AuditLogRow a] \<and> aud_id a = of_nat n \<and> cb_state (get_breaker sandbox_gateway MOCK v) \<noteq> OPEN"
proof -
  let ?w = "fresh_session w" and ?m = "\<lparr>minor_units = 24999, currency = ''USD''\<rparr>"
  let ?ref = "case pay_provider_reference p of None \<Rightarrow> [] | Some r \<Rightarrow> r"
  let ?c = "\<lparr> chg_reference = ?ref, chg_status = CAPTURED, chg_amount_captured = 24999,
      chg_raw = JObj [(''simulated'', JBool True)], chg_failure_reason = None \<rparr>"
  note t = opened [OF assms(1)]
  have p: "pay_currency p = ''USD''" "pay_amount p = 24999" using assms(2) by (simp_all add: dollar_payment_def)
  obtain x where exec: "execute token_sandbox sandbox_gateway MOCK (ad_capture sandbox_adapter ?ref ?m) ?w = (Inr ?c, x)"
    and x: "env x = n" "same_session ?w x" "cb_state (get_breaker sandbox_gateway MOCK x) \<noteq> OPEN"
    using execute_once [OF t(10) demo_gateway(2) adapter_steps(3), of ?ref ?m ?c n token_sandbox] t(1)
    by (auto simp: adapter_steps(1) mock_capture_def op_simps)
  have "objs x = committed w" "pending x = []" using x(2) t by (simp_all add: same_session_def)
  then show ?thesis
    using payment_found [OF assms(1,3)] adapter_found [OF assms(1)] exec x(1,3) t(6) assms(4,5)
    by (simp add: capture_payment_def require_payment_def op_simps ensure_def usd_money p assert_transition_def can_transition_def
        put_payment_def payment_metric_def inc_def audit_record_def add_row_def token_steps replace_by_def Let_def get_breaker_def)
qed

lemma capture_stage:
  assumes "stage n [u] [p] rs ks w" and "signed_in token u n" and "dollar_payment p" and "pay_owner_id p = usr_id u"
    and "pay_provider p = MOCK" and "pay_status p = AUTHORIZED"
  shows "\<exists>j v. send token_sandbox demo_app (bearer token) (CapturePayment (pay_id p) None) w = (Inr j, v) \<and>
    stage (n + 1) [u] [p\<lparr>pay_status := CAPTURED, pay_amount_captured := 24999\<rparr>] rs ks v \<and>
    shows_payment j (p\<lparr>pay_status := CAPTURED, pay_amount_captured := 24999\<rparr>)"
proof -
  let ?p = "p\<lparr>pay_status := CAPTURED, pay_amount_captured := 24999\<rparr>"
  note t = opened [OF assms(1)]
  have auth: "require_scope token_sandbox demo_app (bearer token) SCOPE_PAYMENTS_WRITE (fresh_session w) = (Inr u, fresh_session w)"
    by (rule bearer_scope [OF assms(1,2)]) (simp_all add: bearer_def)
  obtain v a where run: "capture_payment token_sandbox sandbox_gateway u (pay_id p) None (fresh_session w) = (Inr ?p, v)"
    and v: "env v = n + 1" "objs v = (committed w)\<lparr>payments := [?p]\<rparr>" "pending v = [AuditLogRow a]" "aud_id a = of_nat n"
      "cb_state (get_breaker sandbox_gateway MOCK v) \<noteq> OPEN"
    using capture_eval [OF assms(1,3-6)] by blast
  have "dollar_payment ?p" using assms(3) by (simp add: dollar_payment_def)
  then obtain j where j: "payment_to_response token_sandbox ?p = Inr j" "shows_payment j ?p" using payment_shown by blast
  have end_run: "endpoint_of token_sandbox demo_app (bearer token) (CapturePayment (pay_id p) None) (fresh_session w) = (Inr (200, j), v)"
    using auth payment_found [OF assms(1,4)] run j(1)
    by (simp add: api_capture_payment_def op_simps get_payment_def require_payment_def demo_gateway)
  from audited_stage [OF assms(1) end_run _ _ v(3,4)] v t assms(2) obtain z where
    "send token_sandbox demo_app (bearer token) (CapturePayment (pay_id p) None) w = (Inr j, z)" "stage (n + 1) [u] [?p] rs ks z"
    by (auto simp: few_def signed_in_def)
  then show ?thesis using j(2) by blast
qed

lemma refund_eval:
  assumes "stage n [u] [p] [] ks w" and "dollar_payment p" and "pay_owner_id p = usr_id u" and "pay_provider p = MOCK"
    and "pay_status p = CAPTURED" and "pay_amount_captured p = 24999" and "pay_amount_refunded p = 0"
  shows "\<exists>r v a. create_refund token_sandbox sandbox_gateway u (pay_id p) (Some 9999) reason (fresh_session w) = (Inr r, v) \<and>
    env v = n + 3 \<and> objs v = (committed w)\<lparr>payments := [p\<lparr>pay_amount_refunded := 9999, pay_status := PARTIALLY_REFUNDED\<rparr>], refunds := [r]\<rparr> \<and>
    pending v = [AuditLogRow a] \<and> aud_id a = of_nat (n + 2) \<and> cb_state (get_breaker sandbox_gateway MOCK v) \<noteq> OPEN \<and>
    rfd_payment_id r = pay_id p \<and> rfd_amount r = 9999 \<and> rfd_currency r = ''USD'' \<and> rfd_status r = REFUND_SUCCEEDED"
proof -
  let ?w = "fresh_session w" and ?m = "\<lparr>minor_units = 9999, currency = ''USD''\<rparr>"
  let ?ref = "case pay_provider_reference p of None \<Rightarrow> [] | Some r \<Rightarrow> r"
  let ?c = "\<lparr> prf_reference = ''mock_ref'' @ ''_'' @ take 24 (uuid_hex (of_nat n)), prf_status = ''succeeded'', prf_amount = 9999,
        prf_raw = JObj [(''simulated'', JBool True), (''payment'', JStr ?ref), (''reason'', opt_str reason)] \<rparr>"
  let ?p = "p\<lparr>pay_amount_refunded := 9999, pay_status := PARTIALLY_REFUNDED\<rparr>"
  note t = opened [OF assms(1)]
  have p: "pay_currency p = ''USD''" using assms(2) by (simp add: dollar_payment_def)
  obtain x where exec: "execute token_sandbox sandbox_gateway MOCK (ad_refund sandbox_adapter ?ref ?m reason) ?w = (Inr ?c, x)"
    and x: "env x = Suc n" "same_session ?w x" "cb_state (get_breaker sandbox_gateway MOCK x) \<noteq> OPEN"
    using execute_once [OF t(10) demo_gateway(2) adapter_steps(4), of ?ref ?m reason ?c "Suc n" token_sandbox] t(1)
    by (auto simp: adapter_steps(2) mock_refund_def new_reference_def op_simps token_steps)
  have "unique_ok ((committed w)\<lparr>payments := [?p], refunds := [r]\<rparr>)" for r using t(9) by (intro few_unique) (simp add: few_def)
  moreover have "objs x = committed w" "pending x = []" using x(2) t by (simp_all add: same_session_def)
  ultimately show ?thesis
    using payment_found [OF assms(1,3)] adapter_found [OF assms(1)] exec x(1,3) t(6,7) assms(4-7)
    by (simp add: create_refund_def op_simps ensure_def usd_money p assert_transition_def can_transition_def REFUNDABLE_STATES_def
        amount_refundable_def is_positive_def flush_def put_payment_def payment_metric_def inc_def audit_record_def add_row_def
        token_steps replace_by_def Let_def get_breaker_def)
qed

lemma refund_stage:
  assumes "stage n [u] [p] [] ks w" and "signed_in token u n" and "dollar_payment p" and "pay_owner_id p = usr_id u"
    and "pay_provider p = MOCK" and "pay_status p = CAPTURED" and "pay_amount_captured p = 24999" and "pay_amount_refunded p = 0"
  shows "\<exists>j r v. send token_sandbox demo_app (bearer token) (CreateRefund (pay_id p) demo_refund_body) w = (Inr j, v) \<and>
    stage (n + 3) [u] [p\<lparr>pay_amount_refunded := 9999, pay_status := PARTIALLY_REFUNDED\<rparr>] [r] ks v \<and>
    rfd_payment_id r = pay_id p \<and> rfd_amount r = 9999 \<and>
    json_index j ''id'' = Inr (JStr (uuid_str (rfd_id r))) \<and> json_index j ''status'' = Inr (JStr ''succeeded'') \<and>
    json_index j ''amount'' = Inr (money_json 9999 ''99.99 USD'')"
proof -
  let ?p = "p\<lparr>pay_amount_refunded := 9999, pay_status := PARTIALLY_REFUNDED\<rparr>"
  note t = opened [OF assms(1)]
  have auth: "require_scope token_sandbox demo_app (bearer token) SCOPE_REFUNDS_WRITE (fresh_session w) = (Inr u, fresh_session w)"
    by (rule bearer_scope [OF assms(1,2)]) (simp_all add: bearer_def)
  obtain r v a where run: "create_refund token_sandbox sandbox_gateway u (pay_id p) (Some 9999) (Some ''requested_by_customer'')
      (fresh_session w) = (Inr r, v)"
    and v: "env v = n + 3" "objs v = (committed w)\<lparr>payments := [?p], refunds := [r]\<rparr>" "pending v = [AuditLogRow a]"
      "aud_id a = of_nat (n + 2)" "cb_state (get_breaker sandbox_gateway MOCK v) \<noteq> OPEN"
    and r: "rfd_payment_id r = pay_id p" "rfd_amount r = 9999" "rfd_currency r = ''USD''" "rfd_status r = REFUND_SUCCEEDED"
    using refund_eval [OF assms(1,3-8), of "Some ''requested_by_customer''"] by blast
  obtain j where j: "refund_to_response token_sandbox r = Inr j" "json_index j ''id'' = Inr (JStr (uuid_str (rfd_id r)))"
    "json_index j ''status'' = Inr (JStr ''succeeded'')" "json_index j ''amount'' = Inr (money_json 9999 ''99.99 USD'')"
    using r by (simp add: refund_to_response_def money_shown json_index_def)
  have end_run: "endpoint_of token_sandbox demo_app (bearer token) (CreateRefund (pay_id p) demo_refund_body) (fresh_session w) = (Inr (201, j), v)"
    using auth run j(1)
    by (simp add: api_create_refund_def op_simps with_idempotency_def refund_action_def demo_refund_body_def stored_def demo_gateway bearer_def)
  from audited_stage [OF assms(1) end_run _ _ v(3,4)] v t assms(2) obtain z where
    "send token_sandbox demo_app (bearer token) (CreateRefund (pay_id p) demo_refund_body) w = (Inr j, z)" "stage (n + 3) [u] [?p] [r] ks z"
    by (auto simp: few_def signed_in_def)
  then show ?thesis using j(2-4) r(1,2) by blast
qed

section \<open>The client's steps\<close>

lemma field_read: "json_index j name = Inr x \<Longrightarrow> field j name w = (Inr x, w)"
  by (simp add: field_def op_simps)

lemma nested_read: "json_index j outer = Inr (money_json a text) \<Longrightarrow> nested j outer ''display'' w = (Inr (JStr text), w)"
  by (simp add: nested_def op_simps field_def json_index_def money_json_def)

lemma signed_in_window:
  assumes "n < 2 ^ 30" and "usr_role u = MERCHANT" and "valid_token token u lo hi" and "lo \<le> n" and "n + 10 < hi" and "i \<le> 10"
  shows "signed_in token u (n + i)"
  unfolding signed_in_def using assms by (intro conjI exI [of _ lo] exI [of _ hi]) simp_all

lemma demo_email_plain: "strip (lower (demo_email u)) = demo_email u"
proof -
  have "lower_char (hex_char i) = hex_char i \<and> \<not> is_space (hex_char i)" if "i < 16" for i
    using that by (auto simp: hex_char_def lower_char_def is_space_def Let_def)
  then have "\<forall>c \<in> set (uuid_hex u). lower_char c = c \<and> \<not> is_space c" by (simp add: uuid_hex_def)
  moreover have "\<forall>c \<in> set ''demo-@example.com''. lower_char c = c \<and> \<not> is_space c" by code_simp
  moreover have "set (demo_email u) \<subseteq> set (uuid_hex u) \<union> set ''demo-@example.com''"
    by (auto simp: demo_email_def dest: in_set_takeD)
  ultimately have plain: "lower_char c = c \<and> \<not> is_space c" if "c \<in> set (demo_email u)" for c using that by blast
  then have "lower (demo_email u) = demo_email u" by (simp add: lower_def map_idI)
  then show ?thesis using plain strip_none by simp
qed

lemma stage_pause:
  "stage n us ps rs ks w \<Longrightarrow> \<exists>v. step token_sandbox w = (Inr (), v) \<and> stage (n + 1) us ps rs ks v"
  using stage_step [of n us ps rs ks w] by auto

lemma authenticated_runs:
  assumes "stage n [] [] [] [] w" and "n < 2 ^ 30"
  shows "\<exists>shown token u v. authenticated token_sandbox demo_app email w = (Inr ([(''user'', email), (''token'', shown)], bearer token), v) \<and>
    stage (n + 6) [u] [] [] [] v \<and> usr_role u = MERCHANT \<and> usr_email u = strip (lower email) \<and> valid_token token u (n + 4) (n + 900)"
proof -
  let ?r = "\<lparr>reg_email = email, reg_password = demo_password, reg_full_name = None\<rparr>"
  have pw: "demo_password \<noteq> []" by (simp add: demo_password_def)
  obtain w1 where s1: "step token_sandbox w = (Inr (), w1)" "stage (n + 1) [] [] [] [] w1" using stage_pause [OF assms(1)] by blast
  obtain resp u w2 where s2: "send token_sandbox demo_app [] (Register ?r) w1 = (Inr resp, w2)" "stage (n + 3) [u] [] [] [] w2"
    and u: "usr_email u = strip (lower email)" "usr_hashed_password u = demo_password" "usr_role u = MERCHANT" "usr_is_active u"
      "usr_failed_login_attempts u = 0"
    using register_stage [OF s1(2), of ?r] assms(2) pw by (auto simp: numeral_3_eq_3)
  obtain tokens w3 where s3: "send token_sandbox demo_app [] (Login \<lparr>log_email = email, log_password = demo_password\<rparr>) w2 =
      (Inr (token_response tokens), w3)" "stage (n + 6) [u] [] [] [] w3" "valid_token (tp_access_token tokens) u (n + 4) (n + 904)"
    using login_stage [OF s2(2), of "\<lparr>log_email = email, log_password = demo_password\<rparr>"] assms(2) pw u by (auto simp: add.commute)
  have "valid_token (tp_access_token tokens) u (n + 4) (n + 900)" using s3(3) by (auto simp: valid_token_def)
  moreover have "authenticated token_sandbox demo_app email w =
      (Inr ([(''user'', email), (''token'', take 38 (tp_access_token tokens) @ ''...'')], bearer (tp_access_token tokens)), w3)"
    using s1(1) s2(1) s3(1) by (simp add: authenticated_def op_simps token_response_def bearer_def py_str_def)
  ultimately show ?thesis using s3(2) u(1,3) by blast
qed

lemma created_runs:
  assumes "stage n [u] [] [] [] w" and "n < 2 ^ 30" and "usr_role u = MERCHANT" and "valid_token token u lo hi" and "lo \<le> n" and "n + 10 < hi"
    and "key \<noteq> []"
  shows "\<exists>p k v. created token_sandbox demo_app (bearer token) key w =
      (Inr ([(''Idempotency-Key'', key), (''payment id'', uuid_str (pay_id p)), (''amount'', ''249.99 USD''), (''status'', ''authorized''),
         (''payment id'', uuid_str (pay_id p)), (''same payment?'', ''YES - no double charge''),
         (''payments on file'', ''1  (two requests, one payment)'')], JStr (uuid_str (pay_id p))), v) \<and>
    stage (n + 7) [u] [p] [] [k] v \<and> dollar_payment p \<and> pay_provider p = MOCK \<and> pay_owner_id p = usr_id u \<and>
    pay_status p = AUTHORIZED \<and> pay_amount_captured p = 0 \<and> pay_amount_refunded p = 0"
proof -
  let ?hs = "bearer token @ [(''idempotency-key'', key)]"
  note signed = signed_in_window [OF assms(2-6)]
  obtain w1 where s1: "step token_sandbox w = (Inr (), w1)" "stage (n + 1) [u] [] [] [] w1" using stage_pause [OF assms(1)] by blast
  obtain j p k w2 where s2: "send token_sandbox demo_app ?hs (CreatePayment demo_body) w1 = (Inr j, w2)" "stage (n + 5) [u] [p] [] [k] w2"
    and j: "shows_payment j p"
    and p: "dollar_payment p" "pay_provider p = MOCK" "pay_owner_id p = usr_id u" "pay_status p = AUTHORIZED" "pay_amount_captured p = 0"
      "pay_amount_refunded p = 0"
    and k: "answers k (usr_id u) CREATE_ENDPOINT key (dump_create demo_body)" "idk_response_body k = j"
    using create_stage [OF s1(2) signed assms(7)] by (auto simp: add.commute)
  obtain w3 where s3: "step token_sandbox w2 = (Inr (), w3)" "stage (n + 6) [u] [p] [] [k] w3"
    using stage_pause [OF s2(2)] by (auto simp: add.commute)
  obtain w4 where s4: "step token_sandbox w3 = (Inr (), w4)" "stage (n + 7) [u] [p] [] [k] w4"
    using stage_pause [OF s3(2)] by (auto simp: add.commute)
  obtain w5 where s5: "send token_sandbox demo_app ?hs (CreatePayment demo_body) w4 = (Inr j, w5)" "stage (n + 7) [u] [p] [] [k] w5"
    using retry_stage [OF s4(2) signed assms(7) k(1)] k(2) by auto
  obtain page w6 where s6: "send token_sandbox demo_app (bearer token) (ListPayments None 50 0) w5 = (Inr page, w6)" "stage (n + 7) [u] [p] [] [k] w6"
    and total: "\<And>x :: nat world. nested page ''meta'' ''total'' x = (Inr (JInt 1), x)"
    using list_stage [OF s5(2) signed p(1,3)] by auto
  have fields: "\<And>x :: nat world. field j ''id'' x = (Inr (JStr (uuid_str (pay_id p))), x)"
    "\<And>x :: nat world. nested j ''amount'' ''display'' x = (Inr (JStr ''249.99 USD''), x)"
    "\<And>x :: nat world. field j ''status'' x = (Inr (JStr ''authorized''), x)"
    using j p(1,4) by (auto simp: shows_payment_def dollar_payment_def dollars_def intro!: field_read nested_read)
  have "py_str (JInt 1) = ''1''" by (simp add: py_str_def show_int_def show_nat_step)
  then have "created token_sandbox demo_app (bearer token) key w =
      (Inr ([(''Idempotency-Key'', key), (''payment id'', uuid_str (pay_id p)), (''amount'', ''249.99 USD''), (''status'', ''authorized''),
         (''payment id'', uuid_str (pay_id p)), (''same payment?'', ''YES - no double charge''),
         (''payments on file'', ''1  (two requests, one payment)'')], JStr (uuid_str (pay_id p))), w6)"
    using s1(1) s2(1) s3(1) s4(1) s5(1) s6(1)
    by (simp add: created_def op_simps fields total py_str_def Let_def)
  then show ?thesis using s6(2) p by blast
qed

lemma settled_runs:
  assumes "stage n [u] [p] [] ks w" and "n < 2 ^ 30" and "usr_role u = MERCHANT" and "valid_token token u lo hi" and "lo \<le> n" and "n + 10 < hi"
    and p: "dollar_payment p" "pay_provider p = MOCK" "pay_owner_id p = usr_id u" "pay_status p = AUTHORIZED"
      "pay_amount_captured p = 0" "pay_amount_refunded p = 0"
    and path_id: "\<And>i. path_id (uuid_str i) = Inr i"
  shows "\<exists>q r v. settled token_sandbox demo_app path_id (bearer token) (JStr (uuid_str (pay_id p))) w =
      (Inr [(''status'', ''captured''), (''refund id'', uuid_str (rfd_id r)), (''refunded'', ''99.99 USD''), (''status'', ''succeeded''),
        (''payment status'', ''partially_refunded''), (''captured'', ''249.99 USD''), (''refunded'', ''99.99 USD''),
        (''state machine'', ''authorized -> captured -> partially_refunded'')], v) \<and>
    stage (n + 7) [u] [q] [r] ks v \<and> pay_id q = pay_id p \<and> pay_status q = PARTIALLY_REFUNDED \<and> pay_amount_captured q = 24999 \<and>
    pay_amount_refunded q = 9999 \<and> rfd_payment_id r = pay_id p \<and> rfd_amount r = 9999"
proof -
  let ?c = "p\<lparr>pay_status := CAPTURED, pay_amount_captured := 24999\<rparr>"
  let ?q = "?c\<lparr>pay_amount_refunded := 9999, pay_status := PARTIALLY_REFUNDED\<rparr>"
  note signed = signed_in_window [OF assms(2-6)]
  have sent: "send_on token_sandbox demo_app path_id hs (uuid_str i) c = send token_sandbox demo_app hs (c i)" for hs c i
    by (simp add: send_on_def py_str_def path_id)
  obtain w1 where s1: "step token_sandbox w = (Inr (), w1)" "stage (n + 1) [u] [p] [] ks w1" using stage_pause [OF assms(1)] by blast
  obtain j w2 where s2: "send token_sandbox demo_app (bearer token) (CapturePayment (pay_id p) None) w1 = (Inr j, w2)"
    "stage (n + 2) [u] [?c] [] ks w2" and j: "shows_payment j ?c"
    using capture_stage [OF s1(2) signed p(1,3,2,4)] by auto
  obtain w3 where s3: "step token_sandbox w2 = (Inr (), w3)" "stage (n + 3) [u] [?c] [] ks w3"
    using stage_pause [OF s2(2)] by (auto simp: numeral_3_eq_3)
  have c: "dollar_payment ?c" "dollar_payment ?q" using p by (simp_all add: dollar_payment_def)
  obtain l r w4 where s4: "send token_sandbox demo_app (bearer token) (CreateRefund (pay_id p) demo_refund_body) w3 = (Inr l, w4)"
    "stage (n + 6) [u] [?q] [r] ks w4" and r: "rfd_payment_id r = pay_id p" "rfd_amount r = 9999"
    and l: "json_index l ''id'' = Inr (JStr (uuid_str (rfd_id r)))" "json_index l ''status'' = Inr (JStr ''succeeded'')"
      "json_index l ''amount'' = Inr (money_json 9999 ''99.99 USD'')"
    using refund_stage [OF s3(2) signed c(1)] p by (auto simp: add.commute)
  obtain f w5 where s5: "send token_sandbox demo_app (bearer token) (GetPayment (pay_id p)) w4 = (Inr f, w5)"
    "stage (n + 6) [u] [?q] [r] ks w5" and f: "shows_payment f ?q"
    using get_stage [OF s4(2) signed c(2)] p by auto
  obtain w6 where s6: "step token_sandbox w5 = (Inr (), w6)" "stage (n + 7) [u] [?q] [r] ks w6"
    using stage_pause [OF s5(2)] by (auto simp: add.commute)
  have fields: "\<And>x :: nat world. field j ''status'' x = (Inr (JStr ''captured''), x)"
    "\<And>x :: nat world. field l ''id'' x = (Inr (JStr (uuid_str (rfd_id r))), x)" "\<And>x :: nat world. field l ''status'' x = (Inr (JStr ''succeeded''), x)"
    "\<And>x :: nat world. nested l ''amount'' ''display'' x = (Inr (JStr ''99.99 USD''), x)"
    "\<And>x :: nat world. field f ''status'' x = (Inr (JStr ''partially_refunded''), x)"
    "\<And>x :: nat world. nested f ''amount_captured'' ''display'' x = (Inr (JStr ''249.99 USD''), x)"
    "\<And>x :: nat world. nested f ''amount_refunded'' ''display'' x = (Inr (JStr ''99.99 USD''), x)"
    using j f l by (auto simp: shows_payment_def dollars_def intro!: field_read nested_read)
  have "settled token_sandbox demo_app path_id (bearer token) (JStr (uuid_str (pay_id p))) w =
      (Inr [(''status'', ''captured''), (''refund id'', uuid_str (rfd_id r)), (''refunded'', ''99.99 USD''), (''status'', ''succeeded''),
        (''payment status'', ''partially_refunded''), (''captured'', ''249.99 USD''), (''refunded'', ''99.99 USD''),
        (''state machine'', ''authorized -> captured -> partially_refunded'')], w6)"
    using s1(1) s2(1) s3(1) s4(1) s5(1) s6(1) by (simp add: settled_def op_simps fields sent)
  moreover have "pay_id ?q = pay_id p" "pay_status ?q = PARTIALLY_REFUNDED" "pay_amount_captured ?q = 24999" "pay_amount_refunded ?q = 9999"
    by simp_all
  ultimately show ?thesis using s6(2) r by blast
qed

section \<open>Properties\<close>



end
