(* ===== verification/Foreign_Keys.thy ===== *)
theory Foreign_Keys
  imports Accounts Migration
begin

text \<open>
  Referential integrity.  The schema declares foreign keys; the model of a commit (\<open>World\<close>) does not
  enforce them.  It does not have to: the program never writes a reference to a row that is not
  there, so that whatever requests are sent, every reference the schema declares names a row.
\<close>

section \<open>The declared references\<close>

definition refers :: "(string \<rightharpoonup> cell) list \<Rightarrow> string \<Rightarrow> (string \<rightharpoonup> cell) list \<Rightarrow> string \<Rightarrow> bool" where
  "refers rows column targets target \<longleftrightarrow>
     (\<forall>r \<in> set rows. r column = Some Null \<or> (r column \<noteq> None \<and> r column \<in> (\<lambda>s. s target) ` set targets))"

definition references_hold :: "schema \<Rightarrow> tables \<Rightarrow> bool" where
  \<comment> \<open>a \<open>NULL\<close> refers to nothing\<close>
  "references_hold S t \<longleftrightarrow> list_all (\<lambda>tab. list_all (\<lambda>fk.
     refers (cells t (tab_name tab)) (fk_column fk) (cells t (fk_table fk)) (fk_target fk)) (tab_fks tab)) S"

definition no_orphans :: "tables \<Rightarrow> bool" where
  "no_orphans t \<longleftrightarrow>
     key_user_id ` set (api_keys t) \<subseteq> usr_id ` set (users t) \<and>
     {i. \<exists>a \<in> set (audit_logs t). aud_actor_id a = Some i} \<subseteq> usr_id ` set (users t) \<and>
     idk_owner_id ` set (idempotency_keys t) \<subseteq> usr_id ` set (users t) \<and>
     pay_owner_id ` set (payments t) \<subseteq> usr_id ` set (users t) \<and>
     cfg_owner_id ` set (provider_configs t) \<subseteq> usr_id ` set (users t) \<and>
     rfd_payment_id ` set (refunds t) \<subseteq> pay_id ` set (payments t)"

lemma migrated_references:
  "map_option (map (\<lambda>t. (tab_name t, map (\<lambda>fk. (fk_column fk, fk_table fk, fk_target fk)) (tab_fks t)))) (run_ddl upgrade []) =
     Some [(''users'', []), (''webhook_events'', []), (''api_keys'', [(''user_id'', ''users'', ''id'')]),
           (''audit_logs'', [(''actor_id'', ''users'', ''id'')]), (''idempotency_keys'', [(''owner_id'', ''users'', ''id'')]),
           (''payments'', [(''owner_id'', ''users'', ''id'')]), (''provider_configs'', [(''owner_id'', ''users'', ''id'')]),
           (''refunds'', [(''payment_id'', ''payments'', ''id'')])]"
  by code_simp

lemma references_by:
  assumes "map (\<lambda>t. (tab_name t, map (\<lambda>fk. (fk_column fk, fk_table fk, fk_target fk)) (tab_fks t))) S = ds"
  shows "references_hold S t \<longleftrightarrow>
    list_all (\<lambda>(name, fks). list_all (\<lambda>(c, table, target). refers (cells t name) c (cells t table) target) fks) ds"
  using assms by (auto simp: references_hold_def list_all_iff)

lemma refers_columns:
  "(\<And>r. mk r c = Some (CUuid (f r))) \<Longrightarrow> (\<And>s. mk' s d = Some (CUuid (g s))) \<Longrightarrow>
     refers (map mk xs) c (map mk' ys) d \<longleftrightarrow> f ` set xs \<subseteq> g ` set ys"
  "(\<And>r. mk r c = Some (case h r of None \<Rightarrow> Null | Some i \<Rightarrow> CUuid i)) \<Longrightarrow> (\<And>s. mk' s d = Some (CUuid (g s))) \<Longrightarrow>
     refers (map mk xs) c (map mk' ys) d \<longleftrightarrow> {i. \<exists>r \<in> set xs. h r = Some i} \<subseteq> g ` set ys"
  by (auto simp: refers_def image_iff split: option.splits)

lemma key_references:
  "refers (cells t ''api_keys'') ''user_id'' (cells t ''users'') ''id'' \<longleftrightarrow>
     key_user_id ` set (api_keys t) \<subseteq> usr_id ` set (users t)"
  "refers (cells t ''audit_logs'') ''actor_id'' (cells t ''users'') ''id'' \<longleftrightarrow>
     {i. \<exists>a \<in> set (audit_logs t). aud_actor_id a = Some i} \<subseteq> usr_id ` set (users t)"
  "refers (cells t ''idempotency_keys'') ''owner_id'' (cells t ''users'') ''id'' \<longleftrightarrow>
     idk_owner_id ` set (idempotency_keys t) \<subseteq> usr_id ` set (users t)"
  "refers (cells t ''payments'') ''owner_id'' (cells t ''users'') ''id'' \<longleftrightarrow>
     pay_owner_id ` set (payments t) \<subseteq> usr_id ` set (users t)"
  "refers (cells t ''provider_configs'') ''owner_id'' (cells t ''users'') ''id'' \<longleftrightarrow>
     cfg_owner_id ` set (provider_configs t) \<subseteq> usr_id ` set (users t)"
  "refers (cells t ''refunds'') ''payment_id'' (cells t ''payments'') ''id'' \<longleftrightarrow>
     rfd_payment_id ` set (refunds t) \<subseteq> pay_id ` set (payments t)"
  by (simp add: cells.simps, rule refers_columns, (simp; fail)+)+

lemma references_no_orphans:
  assumes "run_ddl upgrade [] = Some S"
  shows "references_hold S t \<longleftrightarrow> no_orphans t"
  using migrated_references assms by (simp add: references_by key_references no_orphans_def)

section \<open>Sessions that keep to known rows\<close>

text \<open>
  Within a request the identifiers of users are fixed (registration apart), and those of payments
  too unless the request charges (\<open>still\<close>).
\<close>

definition known_rows :: "bool \<Rightarrow> uuid set \<Rightarrow> uuid set \<Rightarrow> tables \<Rightarrow> bool" where
  "known_rows still U V t \<longleftrightarrow> usr_id ` set (users t) = U \<and> V \<subseteq> pay_id ` set (payments t) \<and>
     (still \<longrightarrow> pay_id ` set (payments t) = V) \<and>
     key_user_id ` set (api_keys t) \<subseteq> U \<and> {i. \<exists>a \<in> set (audit_logs t). aud_actor_id a = Some i} \<subseteq> U \<and>
     idk_owner_id ` set (idempotency_keys t) \<subseteq> U \<and> pay_owner_id ` set (payments t) \<subseteq> U \<and>
     cfg_owner_id ` set (provider_configs t) \<subseteq> U \<and> rfd_payment_id ` set (refunds t) \<subseteq> V"

fun known_row :: "bool \<Rightarrow> uuid set \<Rightarrow> uuid set \<Rightarrow> row \<Rightarrow> bool" where
  "known_row still U V (UserRow r) = False"
| "known_row still U V (ApiKeyRow r) = (key_user_id r \<in> U)"
| "known_row still U V (PaymentRow r) = (\<not> still \<and> pay_owner_id r \<in> U)"
| "known_row still U V (RefundRow r) = (rfd_payment_id r \<in> V)"
| "known_row still U V (IdempotencyKeyRow r) = (idk_owner_id r \<in> U)"
| "known_row still U V (WebhookEventRow r) = True"
| "known_row still U V (AuditLogRow r) = (\<forall>i. aud_actor_id r = Some i \<longrightarrow> i \<in> U)"

lemma known_no_orphans: "known_rows still U V t \<Longrightarrow> no_orphans t"
  by (auto simp: known_rows_def no_orphans_def)

lemma known_start: "no_orphans t \<Longrightarrow> known_rows still (usr_id ` set (users t)) (pay_id ` set (payments t)) t"
  by (simp add: known_rows_def no_orphans_def)

lemma known_insert: "known_rows still U V t \<Longrightarrow> known_row still U V r \<Longrightarrow> known_rows still U V (insert_row r t)"
  by (cases r) (auto simp: known_rows_def)

lemma view_append: "view (w\<lparr>env := e, pending := pending w @ [r]\<rparr>) = insert_row r (view w)"
  by (simp add: view_def)

text \<open>A replaced row of the session stays replaced when the pending rows are flushed.\<close>

fun api_key_row :: "row \<Rightarrow> ApiKey option" where
  "api_key_row (ApiKeyRow r) = Some r" | "api_key_row _ = None"

lemma fold_tables:
  "users (fold insert_row rs t) = users t @ List.map_filter user_row rs"
  "payments (fold insert_row rs t) = payments t @ List.map_filter payment_row rs"
  "api_keys (fold insert_row rs t) = api_keys t @ List.map_filter api_key_row rs"
  "provider_configs (fold insert_row rs t) = provider_configs t"
proof -
  show "users (fold insert_row rs t) = users t @ List.map_filter user_row rs"
    "payments (fold insert_row rs t) = payments t @ List.map_filter payment_row rs"
    "api_keys (fold insert_row rs t) = api_keys t @ List.map_filter api_key_row rs"
    "provider_configs (fold insert_row rs t) = provider_configs t"
  proof (induction rs arbitrary: t)
    case (Cons r rs)
    { case 1 show ?case using Cons.IH(1) by (cases r) (simp_all add: List.map_filter_simps) }
    { case 2 show ?case using Cons.IH(2) by (cases r) (simp_all add: List.map_filter_simps) }
    { case 3 show ?case using Cons.IH(3) by (cases r) (simp_all add: List.map_filter_simps) }
    { case 4 show ?case using Cons.IH(4) by (cases r) (simp_all add: List.map_filter_simps) }
  qed (simp_all add: List.map_filter_simps)
qed

lemma view_tables:
  "users (view w) = users (objs w) @ List.map_filter user_row (pending w)"
  "payments (view w) = payments (objs w) @ List.map_filter payment_row (pending w)"
  "api_keys (view w) = api_keys (objs w) @ List.map_filter api_key_row (pending w)"
  "provider_configs (view w) = provider_configs (objs w)"
  by (simp_all add: view_def fold_tables)

lemmas log_tables = audit_log.view_table refund_log.view_table idempotency_log.view_table event_log.view_table

lemma image_replaced: "f r \<in> U \<Longrightarrow> f ` set rs \<subseteq> U \<Longrightarrow> f ` set (replace_by key r rs) \<subseteq> U"
  by (auto simp: replace_by_mem image_subset_iff)

abbreviation inside :: "bool \<Rightarrow> uuid set \<Rightarrow> uuid set \<Rightarrow> 'e world \<Rightarrow> bool" where
  "inside still U V w \<equiv> known_rows still U V (view w)"

lemma inside_same: "inside still U V w \<Longrightarrow> same_session w v \<Longrightarrow> inside still U V v"
  by (simp add: same_session_view)

lemma inside_add:
  "(\<And>i now. known_row still U V (row_of (mk i now))) \<Longrightarrow> keeps (inside still U V) (add_row P row_of mk)"
  by (auto simp: keeps_def add_row_def Let_def view_append known_insert split: prod.splits)

lemma inside_flush: "keeps (inside still U V) (flush P)"
  by (auto simp: keeps_def flush_def Let_def view_def)

lemma known_put:
  "pay_owner_id p \<in> U \<Longrightarrow> inside still U V w \<Longrightarrow>
     inside still U V (w\<lparr>objs := (objs w)\<lparr>payments := replace_by pay_id p (payments (objs w))\<rparr>\<rparr>)"
  "key_user_id k \<in> U \<Longrightarrow> inside still U V w \<Longrightarrow>
     inside still U V (w\<lparr>objs := (objs w)\<lparr>api_keys := replace_by key_id k (api_keys (objs w))\<rparr>\<rparr>)"
  "inside still U V w \<Longrightarrow> inside still U V (w\<lparr>objs := (objs w)\<lparr>users := replace_by usr_id u (users (objs w))\<rparr>\<rparr>)"
  by (simp_all add: known_rows_def view_tables log_tables image_Un replace_by_ids image_replaced)

lemma inside_put:
  "pay_owner_id p \<in> U \<Longrightarrow> keeps (inside still U V) (put_payment p)"
  "key_user_id k \<in> U \<Longrightarrow> keeps (inside still U V) (put_api_key k)"
  "keeps (inside still U V) (put_user u)"
  by (simp_all add: put_payment_def put_api_key_def put_user_def keeps_modify known_put)

lemma inside_audit:
  "\<forall>i. actor = Some i \<longrightarrow> i \<in> U \<Longrightarrow> keeps (inside still U V) (audit_record P action actor rt ri ctx)"
  by (auto simp: audit_record_def intro!: keeps_intros inside_add)

lemma inside_metric:
  "keeps (inside still U V) (payment_metric operation provider outcome)" "keeps (inside still U V) (webhook_metric provider outcome)"
  by (auto simp: payment_metric_def webhook_metric_def inc_def intro!: keeps_intros)

lemma inside_select:
  "keeps (inside still U V) (select_one table cond)" "keeps (inside still U V) (get_for_owner i own)"
  "keeps (inside still U V) (get_by_id rows key i)" "keeps (inside still U V) (require_payment owner i)"
  by (auto simp: keeps_def select_one_eq get_for_owner_def get_by_id_def require_payment_def op_simps
      split: sum.splits option.splits)

lemma inside_execute: "env_only operation \<Longrightarrow> keeps (inside still U V) (execute P gm provider operation)"
  by (rule keepsI) (metis execute_env_only inside_same)

lemmas inside_steps = inside_flush inside_audit inside_metric inside_select inside_execute

section \<open>The services and endpoints\<close>

text \<open>What a query finds is known.\<close>

lemma known_found:
  assumes "inside still U V s"
  shows "u \<in> set (users (objs s)) \<Longrightarrow> usr_id u \<in> U" and "k \<in> set (api_keys (objs s)) \<Longrightarrow> key_user_id k \<in> U"
    and "p \<in> set (payments (objs s)) \<Longrightarrow> pay_owner_id p \<in> U \<and> (still \<longrightarrow> pay_id p \<in> V)"
  using assms by (auto simp: known_rows_def view_tables)

lemma inside_key_auth: "keeps (inside still U V) (authenticate_api_key P presented)"
  unfolding authenticate_api_key_def
  apply (rule keeps_andThen_with [where Q = "\<lambda>found. \<forall>k. found = Some k \<longrightarrow> key_user_id k \<in> U"])
  subgoal by (rule keeps_intros)
  subgoal by (auto simp: get_by_hash_def op_splits intro: known_found dest!: scalar_one_or_none_Some filter_eq_ConsD)
  subgoal for found by (cases found) (auto intro!: keeps_intros inside_put)
  done

lemma inside_auth: "keeps (inside still U V) (get_current_user P app hs)" "keeps (inside still U V) (require_scope P app hs scope)"
proof -
  show "keeps (inside still U V) (get_current_user P app hs)"
    by (auto simp: get_current_user_def intro!: keeps_intros inside_key_auth split: prod.splits)
  then show "keeps (inside still U V) (require_scope P app hs scope)"
    by (auto simp: require_scope_def intro!: keeps_intros)
qed

lemma inside_user:
  assumes "\<And>user. usr_id user \<in> U \<Longrightarrow> keeps (inside still U V) (f user)"
  shows "keeps (inside still U V) (andThen (get_current_user P app hs) f)"
    and "keeps (inside still U V) (andThen (require_scope P app hs scope) f)"
  by (rule keeps_andThen_with [where Q = "\<lambda>user. usr_id user \<in> U"],
      auto intro: inside_auth assms known_found elim: get_current_user_Inr require_scope_Inr)+

lemma inside_payment:
  assumes "\<And>p. pay_owner_id p \<in> U \<Longrightarrow> (still \<longrightarrow> pay_id p \<in> V) \<Longrightarrow> keeps (inside still U V) (f (Some p))"
    and "keeps (inside still U V) (f None)"
  shows "keeps (inside still U V) (andThen (get_for_owner i own) f)"
  apply (rule keeps_andThen_with [where Q = "\<lambda>found. \<forall>p. found = Some p \<longrightarrow> pay_owner_id p \<in> U \<and> (still \<longrightarrow> pay_id p \<in> V)"])
  subgoal by (rule inside_select)
  subgoal for s a t
    using known_found(3) [of still U V s]
    by (auto simp: get_for_owner_def op_splits dest!: scalar_one_or_none_Some filter_eq_ConsD)
  subgoal for found by (cases found) (auto intro: assms)
  done

lemma inside_required:
  assumes "\<And>p. pay_owner_id p \<in> U \<Longrightarrow> (still \<longrightarrow> pay_id p \<in> V) \<Longrightarrow> keeps (inside still U V) (f p)"
  shows "keeps (inside still U V) (andThen (require_payment owner i) f)"
proof -
  have "andThen (throw e) f = throw e" for e :: exc by (auto simp: fun_eq_iff op_simps)
  then show ?thesis
    unfolding require_payment_def andThen_assoc
    by (intro inside_payment) (simp_all add: assms keeps_throw)
qed

lemma inside_charge:
  assumes "usr_id owner \<in> U"
  shows "keeps (inside False U V) (create_payment P gm owner provider amount cm mt token descr cust meta key)"
  unfolding create_payment_def
  apply (rule keeps_andThen)
  subgoal by (rule keeps_intros)
  apply (rule keeps_andThen_with [where Q = "\<lambda>p. pay_owner_id p = usr_id owner"])
  subgoal by (rule inside_add) (simp add: new_payment_def assms)
  subgoal by (auto simp: op_splits new_payment_def)
  subgoal for p
    using assms
    by (auto simp: Let_def payment_adapter.create_env apply_charge_def
        intro!: keeps_intros inside_steps inside_put keeps_provider_call)
  done

lemma inside_capture:
  assumes "usr_id owner \<in> U"
  shows "keeps (inside True U V) (capture_payment P gm owner i amount)"
    and "keeps (inside True U V) (cancel_payment P gm owner i)"
  using assms
  by (auto simp: capture_payment_def cancel_payment_def Let_def payment_adapter.capture_env payment_adapter.cancel_env
      intro!: keeps_intros inside_required inside_steps inside_put keeps_provider_call)

lemma inside_refund:
  assumes "usr_id owner \<in> U"
  shows "keeps (inside True U V) (create_refund P gm owner i minor reason)"
  unfolding create_refund_def
  by (rule inside_payment)
    (use assms in \<open>auto simp: Let_def payment_adapter.refund_env
      intro!: keeps_intros inside_steps inside_put inside_add keeps_provider_call\<close>)

lemma andThen_if: "andThen (if b then m else n) f = (if b then andThen m f else andThen n f)"
  by simp

lemma inside_login: "keeps (inside still U V) (authenticate P email password)"
  unfolding authenticate_def
  apply (rule keeps_andThen_with [where Q = "\<lambda>found. \<forall>u. found = Some u \<longrightarrow> usr_id u \<in> U"])
  subgoal by (rule keeps_intros)
  subgoal for s using known_found(1) [of still U V s]
    by (auto simp: get_by_email_def op_splits dest!: scalar_one_or_none_Some filter_eq_ConsD)
  subgoal for found
    by (cases found) (auto simp: Let_def andThen_assoc andThen_if cong del: if_weak_cong
        intro!: keeps_intros inside_audit inside_put)
  done

lemma inside_env: "inside still U V s \<Longrightarrow> inside still U V (s\<lparr>env := e\<rparr>)"
  by simp

lemma inside_create_key:
  assumes "usr_id user \<in> U"
  shows "keeps (inside still U V) (create_api_key P s user name)"
  using assms by (auto simp: create_api_key_def inside_env intro!: keeps_intros inside_add inside_steps)

lemma inside_revoke_key:
  assumes "usr_id user \<in> U"
  shows "keeps (inside still U V) (revoke_api_key P user i)"
  unfolding revoke_api_key_def
  apply (rule keeps_andThen)
  subgoal by (rule keeps_intros)
  subgoal for k
    apply (rule keeps_andThen_with [where Q = "\<lambda>found. \<forall>k. found = Some k \<longrightarrow> key_user_id k \<in> U"])
    subgoal by (rule inside_select)
    subgoal for s using known_found(2) [of still U V s] by (auto simp: get_by_id_def op_splits find_Some_iff)
    subgoal for found
      using assms by (cases found) (auto intro!: keeps_intros inside_audit inside_put)
    done
  done

lemma inside_webhook:
  assumes "payment_adapter adapter"
  shows "keeps (inside still U V) (handle P adapter provider body headers)"
  using assms by (rule keeps_handle) (auto intro!: inside_metric inside_add inside_flush inside_audit)

lemma inside_idempotent:
  assumes "owner \<in> U" and "keeps (inside still U V) action"
  shows "keeps (inside still U V) (with_idempotency P owner endpoint key body action)"
  using assms
  by (intro keeps_with_idempotency)
    (auto simp: store_def new_record_def intro!: keeps_intros inside_add inside_flush)

fun charging :: "call \<Rightarrow> bool" where
  "charging (CreatePayment r) = True" | "charging _ = False"

fun registering :: "call \<Rightarrow> bool" where
  "registering (Register r) = True" | "registering _ = False"

lemma inside_drawn: "keeps (inside still U V) (\<lambda>w. case uuid4 P (env w) of (i, e) \<Rightarrow> (Inr i, w\<lparr>env := e\<rparr>))"
  by (auto simp: keeps_def split: prod.splits)

lemma inside_endpoint:
  assumes "\<not> registering c"
  shows "keeps (inside (\<not> charging c) U V) (endpoint_of P app hs c)"
proof (cases c)
  case (ReceiveWebhook provider body)
  then show ?thesis
    by (auto simp: api_receive_webhook_def
        intro!: keeps_intros keeps_provider_call inside_webhook inside_drawn split: prod.splits)
next
  case (CreatePayment r)
  then show ?thesis
    by (auto simp: api_create_payment_def Let_def charge_action_def
        intro!: inside_user keeps_intros inside_idempotent inside_charge)
next
  case (CapturePayment i amount)
  then show ?thesis
    by (auto simp: api_capture_payment_def get_payment_def intro!: inside_user keeps_intros inside_capture inside_select
        split: option.splits)
next
  case (CreateRefund i r)
  then show ?thesis
    by (auto simp: api_create_refund_def refund_action_def
        intro!: inside_user keeps_intros inside_idempotent inside_refund)
qed (use assms in \<open>auto simp: api_login_def api_refresh_def refresh_def api_me_def api_cancel_payment_def
    api_create_api_key_def api_revoke_api_key_def api_list_api_keys_def list_api_keys_def api_list_payments_def
    list_payments_def list_for_owner_def api_get_payment_def get_payment_def api_list_providers_def api_payment_stats_def
    Let_def inside_env
    intro!: inside_user keeps_intros inside_auth inside_login inside_create_key inside_revoke_key inside_capture inside_select
    split: prod.splits\<close>)

text \<open>A registration adds the user its audit entry names.\<close>

lemma register_view:
  assumes "register P email password full_name role w = (Inr user, v)" and "pending w = []"
  shows "\<exists>a. view v = insert_row (AuditLogRow a) (insert_row (UserRow user) (objs w)) \<and> aud_actor_id a = Some (usr_id user)"
  using assms
  by (auto simp: register_def Let_def email_exists_def hash_password_def audit_record_def op_splits view_def
      split: prod.splits)

lemma registered_no_orphans:
  assumes "no_orphans t" and "aud_actor_id a = Some (usr_id user)"
  shows "no_orphans (insert_row (AuditLogRow a) (insert_row (UserRow user) t))"
  using assms by (simp add: no_orphans_def image_subset_iff subset_iff)

lemma request_no_orphans:
  assumes "session_scope P (endpoint_of P app hs c) w = (r, v)" and "no_orphans (committed w)"
  shows "no_orphans (committed v)"
proof (cases "registering c")
  case False
  let ?K = "known_rows (\<not> charging c) (usr_id ` set (users (committed w))) (pay_id ` set (payments (committed w)))"
  from assms(2) have "?K (committed w)" by (rule known_start)
  with assms(1) have "?K (committed v)"
    by (rule endpoint.keeps_view [where I = ?K]) (use False in \<open>rule inside_endpoint\<close>)
  then show ?thesis by (rule known_no_orphans)
next
  case True
  then obtain payload where c: "c = Register payload" by (cases c) auto
  show ?thesis
    using assms(1)
  proof (cases rule: session_scope_cases)
    case (returned a u)
    then obtain user where "register P (reg_email payload) (reg_password payload) (reg_full_name payload) MERCHANT
        (w\<lparr>objs := committed w, pending := []\<rparr>) = (Inr user, u)"
      by (auto simp: c api_register_def op_splits)
    from register_view [OF this] returned(3) show ?thesis using registered_no_orphans [OF assms(2)] by auto
  next
    case raised
    then show ?thesis using endpoint.failure_leaves_no_trace assms by metis
  qed
qed

section \<open>Properties\<close>

text \<open>C14. No dangling references: whatever requests are served, every reference the migrated schema declares
  (a key's user, a payment's, a configuration's and a record's owner, a refund's payment, an audit
  entry's actor) names a row that is there, if it did so at the start.  The constraint is kept by the
  program, not only by the database.\<close>

theorem no_dangling_references:
  assumes "api_run P app w v" and "run_ddl upgrade [] = Some S" and "references_hold S (committed w)"
  shows "references_hold S (committed v)"
proof -
  have "no_orphans (committed v)"
    by (rule api_run_committed [where J = no_orphans, OF assms(1)])
      (use assms(2,3) references_no_orphans request_no_orphans in \<open>blast+\<close>)
  then show ?thesis using references_no_orphans [OF assms(2)] by simp
qed

theorem no_dangling_references_witness:
  "\<exists>S v p. run_ddl upgrade [] = Some S \<and> payments (committed (v :: nat world)) = [p] \<and> references_hold S (committed v)"
proof -
  obtain S where S: "run_ddl upgrade [] = Some S" using migrated_references by auto
  obtain v p where run: "api_run sandbox demo_app (role_world MERCHANT) v" and p: "payments (committed v) = [p]"
    by (rule demo_api_run)
  have "no_orphans (committed (role_world MERCHANT))"
    by (simp add: no_orphans_def role_world_def empty_tables_def demo_user_def demo_key_def)
  then have "references_hold S (committed (role_world MERCHANT))" using references_no_orphans [OF S] by simp
  from no_dangling_references [OF run S this] S p show ?thesis by blast
qed

end
