(* ===== verification/Audits.thy ===== *)
theory Audits
  imports Accounts
begin

text \<open>
  The audit trail.  Every change the services make to a payment, a refund, a user, an API key or a
  webhook event is accompanied by an entry of \<^verbatim>\<open>audit_logs\<close> in the same unit of work: whatever has changed
  since some moment, the log says so.
\<close>

section \<open>Changes and their entries\<close>

definition entry :: "tables \<Rightarrow> AuditAction \<Rightarrow> uuid option \<Rightarrow> string \<Rightarrow> string \<Rightarrow> bool" where
  "entry t action actor kind name \<longleftrightarrow> (\<exists>a \<in> set (audit_logs t).
     aud_action a = action \<and> aud_actor_id a = actor \<and> aud_resource_type a = Some kind \<and> aud_resource_id a = Some name)"

text \<open>The entries that account for the state a payment is in; its owner made them.  (A charge that comes
  back canceled is logged as failed.)\<close>

fun payment_audited :: "tables \<Rightarrow> Payment \<Rightarrow> bool" where
  "payment_audited t p =
     (let logged = (\<lambda>action. entry t action (Some (pay_owner_id p)) ''payment'' (uuid_str (pay_id p)));
          refunded = list_ex (\<lambda>r. rfd_payment_id r = pay_id p \<and>
            entry t REFUND_CREATED (Some (pay_owner_id p)) ''refund'' (uuid_str (rfd_id r))) (refunds t)
      in case pay_status p of
           REQUIRES_CONFIRMATION \<Rightarrow> False
         | AUTHORIZED \<Rightarrow> logged PAYMENT_AUTHORIZED
         | CAPTURED \<Rightarrow> logged PAYMENT_CAPTURED
         | PARTIALLY_REFUNDED \<Rightarrow> refunded
         | REFUNDED \<Rightarrow> refunded
         | CANCELED \<Rightarrow> logged PAYMENT_CANCELED \<or> logged PAYMENT_FAILED
         | FAILED \<Rightarrow> logged PAYMENT_FAILED)"

declare payment_audited.simps [simp del]

definition refund_audited :: "tables \<Rightarrow> Refund \<Rightarrow> bool" where
  "refund_audited t r \<longleftrightarrow> (\<exists>a \<in> set (audit_logs t).
     aud_action a = REFUND_CREATED \<and> aud_actor_id a \<noteq> None \<and> aud_resource_id a = Some (uuid_str (rfd_id r)))"

definition user_audited :: "tables \<Rightarrow> User \<Rightarrow> bool" where
  "user_audited t u \<longleftrightarrow> entry t USER_REGISTERED (Some (usr_id u)) ''user'' (uuid_str (usr_id u))"

definition key_audited :: "tables \<Rightarrow> ApiKey \<Rightarrow> bool" where
  \<comment> \<open>a revocation is logged under the identifier as the client spelled it\<close>
  "key_audited t k \<longleftrightarrow>
     (if key_is_active k then entry t API_KEY_CREATED (Some (key_user_id k)) ''api_key'' (uuid_str (key_id k))
      else \<exists>a \<in> set (audit_logs t). aud_action a = API_KEY_REVOKED \<and> aud_actor_id a = Some (key_user_id k) \<and>
             (case aud_resource_id a of None \<Rightarrow> False | Some text \<Rightarrow> UUID text = Inr (key_id k)))"

definition event_audited :: "tables \<Rightarrow> WebhookEvent \<Rightarrow> bool" where
  "event_audited t e \<longleftrightarrow> entry t WEBHOOK_RECEIVED None ''webhook'' (evt_event_id e)"

definition same_key :: "ApiKey \<Rightarrow> ApiKey \<Rightarrow> bool" where
  "same_key k l \<longleftrightarrow> key_id k = key_id l \<and> key_user_id k = key_user_id l \<and> key_is_active k = key_is_active l"

text \<open>What is new or different in \<open>t\<close> since \<open>B\<close> is in the log.\<close>

definition audited_since :: "tables \<Rightarrow> tables \<Rightarrow> bool" where
  "audited_since B t \<longleftrightarrow>
     (\<forall>p \<in> set (payments t). p \<in> set (payments B) \<or> payment_audited t p) \<and>
     (\<forall>r \<in> set (refunds t). r \<in> set (refunds B) \<or> refund_audited t r) \<and>
     (\<forall>u \<in> set (users t). usr_id u \<in> usr_id ` set (users B) \<or> user_audited t u) \<and>
     (\<forall>k \<in> set (api_keys t). (\<exists>l \<in> set (api_keys B). same_key k l) \<or> key_audited t k) \<and>
     (\<forall>e \<in> set (webhook_events t). e \<in> set (webhook_events B) \<or> event_audited t e)"

lemma audited_start: "audited_since B B"
  by (auto simp: audited_since_def same_key_def)

lemmas audit_defs = entry_def refund_audited_def user_audited_def key_audited_def event_audited_def

text \<open>Nothing is lost when log and refunds grow.\<close>

lemma entry_grows: "set (audit_logs t) \<subseteq> set (audit_logs s) \<Longrightarrow> entry t action actor kind name \<Longrightarrow> entry s action actor kind name"
  unfolding entry_def by blast

lemma payment_grows:
  assumes "set (audit_logs t) \<subseteq> set (audit_logs s)" and "set (refunds t) \<subseteq> set (refunds s)" and "payment_audited t p"
  shows "payment_audited s p"
  using assms entry_grows [OF assms(1)]
  by (cases "pay_status p") (auto simp: payment_audited.simps Let_def list_ex_iff)

lemma audited_grows:
  assumes "set (audit_logs t) \<subseteq> set (audit_logs s)"
  shows "refund_audited t r \<Longrightarrow> refund_audited s r" and "user_audited t u \<Longrightarrow> user_audited s u"
    and "key_audited t k \<Longrightarrow> key_audited s k" and "event_audited t e \<Longrightarrow> event_audited s e"
  using assms by (auto simp: audit_defs split: if_splits)

lemma key_audited_same: "same_key k l \<Longrightarrow> key_audited t k = key_audited t l"
  by (simp add: same_key_def key_audited_def cong: option.case_cong)

lemma audited_trans:
  assumes B: "audited_since B t" and t: "audited_since t s"
    and grows: "set (audit_logs t) \<subseteq> set (audit_logs s)" "set (refunds t) \<subseteq> set (refunds s)"
  shows "audited_since B s"
  unfolding audited_since_def
proof (intro conjI ballI)
  note up = payment_grows [OF grows] audited_grows [OF grows(1)]
  fix p assume "p \<in> set (payments s)"
  then show "p \<in> set (payments B) \<or> payment_audited s p"
    using B t up unfolding audited_since_def by blast
next
  note up = audited_grows(1) [OF grows(1)]
  fix r assume "r \<in> set (refunds s)"
  then show "r \<in> set (refunds B) \<or> refund_audited s r"
    using B t up unfolding audited_since_def by blast
next
  fix u assume "u \<in> set (users s)"
  then consider "user_audited s u" | u' where "u' \<in> set (users t)" "usr_id u' = usr_id u"
    using t unfolding audited_since_def by force
  then show "usr_id u \<in> usr_id ` set (users B) \<or> user_audited s u"
  proof cases
    case 2
    then have "usr_id u' \<in> usr_id ` set (users B) \<or> user_audited t u'" using B unfolding audited_since_def by blast
    then have "usr_id u' \<in> usr_id ` set (users B) \<or> user_audited s u'" using audited_grows(2) [OF grows(1)] by blast
    then show ?thesis using 2(2) by (simp add: user_audited_def)
  qed simp
next
  fix k assume "k \<in> set (api_keys s)"
  then consider "key_audited s k" | l where "l \<in> set (api_keys t)" "same_key k l"
    using t unfolding audited_since_def by blast
  then show "(\<exists>l \<in> set (api_keys B). same_key k l) \<or> key_audited s k"
  proof cases
    case 2
    then consider "key_audited t l" | m where "m \<in> set (api_keys B)" "same_key l m"
      using B unfolding audited_since_def by blast
    then show ?thesis
    proof cases
      case 1
      then have "key_audited s l" by (rule audited_grows(3) [OF grows(1)])
      then show ?thesis using key_audited_same [OF 2(2)] by simp
    next
      case m: 2
      then have "same_key k m" using 2(2) by (simp add: same_key_def)
      then show ?thesis using m(1) by blast
    qed
  qed simp
next
  fix e assume "e \<in> set (webhook_events s)"
  then show "e \<in> set (webhook_events B) \<or> event_audited s e"
    using B t audited_grows(4) [OF grows(1)] unfolding audited_since_def by blast
qed

text \<open>A database that only gained: log and refunds are still there, and every change is accounted for.\<close>

definition follows :: "tables \<Rightarrow> tables \<Rightarrow> bool" where
  "follows t s \<longleftrightarrow> audited_since t s \<and> set (audit_logs t) \<subseteq> set (audit_logs s) \<and> set (refunds t) \<subseteq> set (refunds s)"

lemma follows_refl: "follows t t"
  by (simp add: follows_def audited_start)

lemma follows_trans: "follows B t \<Longrightarrow> follows t s \<Longrightarrow> follows B s"
  by (auto simp: follows_def intro: audited_trans)

lemma unchanged_audited [intro]:
  assumes "payments s = payments t" and "refunds s = refunds t" and "users s = users t"
    and "api_keys s = api_keys t" and "webhook_events s = webhook_events t"
  shows "audited_since t s"
  using assms by (auto simp: audited_since_def same_key_def)

section \<open>Operations\<close>

definition logs :: "AuditLog \<Rightarrow> AuditAction \<Rightarrow> uuid option \<Rightarrow> string \<Rightarrow> string \<Rightarrow> bool" where
  "logs a action actor kind name \<longleftrightarrow>
     aud_action a = action \<and> aud_actor_id a = actor \<and> aud_resource_type a = Some kind \<and> aud_resource_id a = Some name"

lemma entry_logged: "a \<in> set (audit_logs t) \<Longrightarrow> logs a action actor kind name \<Longrightarrow> entry t action actor kind name"
  by (auto simp: entry_def logs_def)

text \<open>The last step of the services that move money.\<close>

lemma audit_last:
  assumes "audit_record P action actor (Some kind) (Some name) ctx w = (Inr x, v)"
  shows "\<exists>a. pending v = pending w @ [AuditLogRow a] \<and> logs a action actor kind name"
  using assms by (auto simp: op_splits logs_def)

lemma capture_logged:
  assumes "capture_payment P gm owner i amount w = (Inr p, v)"
  shows "\<exists>ps a. pending v = ps @ [AuditLogRow a] \<and> logs a PAYMENT_CAPTURED (Some (usr_id owner)) ''payment'' (uuid_str (pay_id p))"
  using assms by (auto simp: capture_payment_def Let_def andThen_Inr return_Inr dest!: audit_last)

lemma cancel_logged:
  assumes "cancel_payment P gm owner i w = (Inr p, v)"
  shows "\<exists>ps a. pending v = ps @ [AuditLogRow a] \<and> logs a PAYMENT_CANCELED (Some (usr_id owner)) ''payment'' (uuid_str (pay_id p))"
  using assms by (auto simp: cancel_payment_def Let_def andThen_Inr return_Inr dest!: audit_last)

lemma refund_logged:
  assumes "create_refund P gm owner i amount reason w = (Inr r, v)"
  shows "\<exists>ps a. pending v = ps @ [AuditLogRow a] \<and> logs a REFUND_CREATED (Some (usr_id owner)) ''refund'' (uuid_str (rfd_id r))"
  using assms
  apply (simp add: create_refund_def andThen_Inr)
  apply (elim exE conjE)
  subgoal for found u by (cases found) (auto simp: Let_def andThen_Inr return_Inr throw_Inr dest!: audit_last)
  done

definition charge_action_of :: "PaymentStatus \<Rightarrow> AuditAction" where
  "charge_action_of s = (if s = CAPTURED then PAYMENT_CAPTURED else if s = AUTHORIZED then PAYMENT_AUTHORIZED else PAYMENT_FAILED)"

lemma create_logged:
  assumes "create_payment P gm owner provider amount cm mt token descr cust meta key w = (Inr p, v)"
  shows "\<exists>ps a. pending v = ps @ [AuditLogRow a] \<and>
    logs a (charge_action_of (pay_status p)) (Some (usr_id owner)) ''payment'' (uuid_str (pay_id p))"
  using assms
  by (auto simp: create_payment_def Let_def andThen_Inr return_Inr apply_charge_def charge_action_of_def split: if_split_asm
      dest!: audit_last)

text \<open>A session whose last change is one payment row and the entry for it.\<close>

lemma payment_changed:
  assumes "objs v = (objs w)\<lparr>payments := replace_by pay_id p (payments (objs w) @ ps)\<rparr>" and "pending v = [AuditLogRow a]"
    and "\<forall>q \<in> set ps. pay_id q = pay_id p"
    and "\<And>t. a \<in> set (audit_logs t) \<Longrightarrow> refunds t = refunds (objs w) \<Longrightarrow> payment_audited t p"
  shows "audited_since (objs w) (view v)"
proof -
  have v: "view v = (objs v)\<lparr>audit_logs := audit_logs (objs w) @ [a]\<rparr>" using assms(1,2) by (simp add: view_def)
  have "payment_audited (view v) p" using assms(1) v by (intro assms(4)) auto
  then show ?thesis
    using assms(1,3) unfolding audited_since_def v
    by (auto simp: replace_by_mem same_key_def)
qed

lemma create_audited:
  assumes run: "create_payment P gm owner provider amount cm mt token descr cust meta key w = (Inr p, v)" and "pending w = []"
  shows "audited_since (objs w) (view v)"
  using run assms(2)
proof (rule create_payment_Inr)
  fix p0 i now charge a
  assume p0: "p0 = new_payment owner provider amount cm mt descr cust meta i now"
    and tr: "can_transition REQUIRES_CONFIRMATION (chg_status charge)"
    and p: "p = fst (apply_charge charge (p0\<lparr>pay_provider_reference := Some (chg_reference charge)\<rparr>))"
    and v: "objs v = (objs w)\<lparr>payments := replace_by pay_id p (payments (objs w) @ [p0])\<rparr>" "pending v = [AuditLogRow a]"
  have a: "logs a (charge_action_of (pay_status p)) (Some (usr_id owner)) ''payment'' (uuid_str (pay_id p))"
    using create_logged [OF run] v(2) by auto
  have "payment_audited t p" if "a \<in> set (audit_logs t)" for t
    using entry_logged [OF that a] p p0 tr
    by (cases "chg_status charge") (simp_all add: payment_audited.simps charge_action_of_def)
  moreover have "pay_id p0 = pay_id p" by (auto simp: p p0 apply_charge_def Let_def)
  ultimately show ?thesis using v by (intro payment_changed [where ps = "[p0]" and a = a]) auto
qed

lemma capture_audited:
  assumes run: "capture_payment P gm owner i amount w = (Inr p, v)" and "pending w = []"
  shows "audited_since (objs w) (view v)"
  using run
proof (rule capture_payment_Inr)
  fix q m charge
  assume q: "pay_owner_id q = usr_id owner"
    and p: "p = q\<lparr>pay_status := CAPTURED,
           pay_amount_captured := (if chg_amount_captured charge \<noteq> 0 then chg_amount_captured charge else minor_units m)\<rparr>"
    and v: "objs v = (objs w)\<lparr>payments := replace_by pay_id p (payments (objs w))\<rparr>" "\<exists>a. pending v = pending w @ [AuditLogRow a]"
  then obtain a where a: "pending v = [AuditLogRow a]" using assms(2) by auto
  then have l: "logs a PAYMENT_CAPTURED (Some (usr_id owner)) ''payment'' (uuid_str (pay_id p))"
    using capture_logged [OF run] by auto
  then have "payment_audited t p" if "a \<in> set (audit_logs t)" for t
    using entry_logged [OF that l] p q by (simp add: payment_audited.simps)
  then show ?thesis using v(1) a by (intro payment_changed [where ps = "[]" and a = a]) auto
qed

lemma cancel_audited:
  assumes run: "cancel_payment P gm owner i w = (Inr p, v)" and "pending w = []"
  shows "audited_since (objs w) (view v)"
  using run
proof (rule cancel_payment_Inr)
  fix q
  assume q: "pay_owner_id q = usr_id owner" and p: "p = q\<lparr>pay_status := CANCELED\<rparr>"
    and v: "objs v = (objs w)\<lparr>payments := replace_by pay_id p (payments (objs w))\<rparr>" "\<exists>a. pending v = pending w @ [AuditLogRow a]"
  then obtain a where a: "pending v = [AuditLogRow a]" using assms(2) by auto
  then have l: "logs a PAYMENT_CANCELED (Some (usr_id owner)) ''payment'' (uuid_str (pay_id p))"
    using cancel_logged [OF run] by auto
  then have "payment_audited t p" if "a \<in> set (audit_logs t)" for t
    using entry_logged [OF that l] p q by (simp add: payment_audited.simps)
  then show ?thesis using v(1) a by (intro payment_changed [where ps = "[]" and a = a]) auto
qed

lemma refund_audited_view:
  assumes run: "create_refund P gm owner i minor reason w = (Inr r, v)" and "pending w = []"
  shows "audited_since (objs w) (view v)"
  using run assms(2)
proof (rule create_refund_Inr)
  fix q p a
  assume q: "pay_id q = i" "pay_owner_id q = usr_id owner" and r: "rfd_payment_id r = i"
    and p: "p = q\<lparr>pay_amount_refunded := pay_amount_refunded q + rfd_amount r,
               pay_status := (if pay_amount_refunded q + rfd_amount r \<ge> pay_amount_captured q then REFUNDED
                              else PARTIALLY_REFUNDED)\<rparr>"
    and v: "objs v = (objs w)\<lparr>payments := replace_by pay_id p (payments (objs w)), refunds := refunds (objs w) @ [r]\<rparr>"
      "pending v = [AuditLogRow a]"
  have a: "logs a REFUND_CREATED (Some (usr_id owner)) ''refund'' (uuid_str (rfd_id r))"
    using refund_logged [OF run] v(2) by auto
  have view: "view v = (objs v)\<lparr>audit_logs := audit_logs (objs w) @ [a]\<rparr>" using v by (simp add: view_def)
  then have mem: "a \<in> set (audit_logs (view v))" "r \<in> set (refunds (view v))" using v by simp_all
  have "payment_audited (view v) p"
    using entry_logged [OF mem(1) a] mem(2) p q r by (auto simp: payment_audited.simps list_ex_iff)
  moreover have "refund_audited (view v) r" using mem(1) a by (auto simp: refund_audited_def logs_def)
  ultimately show ?thesis
    using v(1) unfolding audited_since_def view
    by (auto simp: replace_by_mem same_key_def)
qed

section \<open>Requests\<close>

text \<open>An operation that accounts for what it changes.\<close>

definition accounts :: "('e world, exc, 'a) op \<Rightarrow> bool" where
  "accounts m \<longleftrightarrow> (\<forall>w a v. pending w = [] \<longrightarrow> m w = (Inr a, v) \<longrightarrow> follows (objs w) (view v))"

lemma accountsI: "(\<And>w a v. pending w = [] \<Longrightarrow> m w = (Inr a, v) \<Longrightarrow> follows (objs w) (view v)) \<Longrightarrow> accounts m"
  by (simp add: accounts_def)

lemma accountsD: "accounts m \<Longrightarrow> pending w = [] \<Longrightarrow> m w = (Inr a, v) \<Longrightarrow> follows (objs w) (view v)"
  by (simp add: accounts_def)

text \<open>The log and the refunds only grow, as every endpoint's do.\<close>

lemma accounts_growing:
  assumes "\<And>w a v. pending w = [] \<Longrightarrow> m w = (Inr a, v) \<Longrightarrow> audited_since (objs w) (view v)"
    and "\<And>A. keeps (\<lambda>v. prefix A (audit_logs (view v))) m" and "\<And>A. keeps (\<lambda>v. prefix A (refunds (view v))) m"
  shows "accounts m"
proof (rule accountsI)
  fix w a v
  assume w: "pending w = []" "m w = (Inr a, v)"
  have "prefix (audit_logs (objs w)) (audit_logs (view v))" "prefix (refunds (objs w)) (refunds (view v))"
    using keepsD [OF assms(2) w(2), of "audit_logs (objs w)"] keepsD [OF assms(3) w(2), of "refunds (objs w)"] w(1)
    by (simp_all add: view_def)
  then show "follows (objs w) (view v)" using assms(1) [OF w] by (auto simp: follows_def dest: set_mono_prefix)
qed

lemma accounts_money:
  "accounts (create_payment P gm owner provider amount cm mt token descr cust meta key)"
  "accounts (capture_payment P gm owner i part)" "accounts (cancel_payment P gm owner i)"
  "accounts (create_refund P gm owner i minor reason)"
  by (rule accounts_growing, rule create_audited capture_audited cancel_audited refund_audited_view, assumption+,
      (rule audit_trail.charges audit_trail.captures audit_trail.cancels audit_trail.pays_back
        refund_trail.charges refund_trail.captures refund_trail.cancels refund_trail.pays_back)+)+

lemma accounts_then:
  assumes "accounts m" and "\<And>a s b t. f a s = (Inr b, t) \<Longrightarrow> follows (view s) (view t)"
  shows "accounts (andThen m f)"
proof (rule accountsI)
  fix w b v
  assume w: "pending w = []" and "andThen m f w = (Inr b, v)"
  then obtain a u where "m w = (Inr a, u)" and "f a u = (Inr b, v)" by (auto simp: andThen_Inr)
  then show "follows (objs w) (view v)" using accountsD [OF assms(1) w] assms(2) follows_trans by blast
qed

lemma store_follows: "store P owner name key body status resp x = (Inr y, v) \<Longrightarrow> follows (view x) (view v)"
  by (auto simp: store_def op_splits view_def follows_def)

lemma accounts_keyed:
  assumes "accounts action"
  shows "accounts (with_idempotency P owner name key body action)"
proof (rule accountsI)
  fix w :: "'a world" and a v
  assume w: "pending w = []" and run: "with_idempotency P owner name key body action w = (Inr a, v)"
  show "follows (objs w) (view v)"
  proof (cases "v = w")
    case True
    then show ?thesis using w by (simp add: view_def follows_refl)
  next
    case False
    then obtain j x where "action w = (Inr j, x)" and "follows (view x) (view v)"
      using run
      by (auto simp: with_idempotency_def op_splits follows_refl split: option.splits if_splits
          dest!: lookup_reads store_follows)
    then show ?thesis using accountsD [OF assms w] follows_trans by blast
  qed
qed

text \<open>Accounts: what registration, keys and webhooks add.\<close>

lemma register_logged:
  assumes "register P email password full_name role w = (Inr user, v)" and "pending w = []"
  shows "\<exists>a. view v = insert_row (AuditLogRow a) (insert_row (UserRow user) (objs w)) \<and>
    logs a USER_REGISTERED (Some (usr_id user)) ''user'' (uuid_str (usr_id user))"
  using assms
  by (auto simp: register_def Let_def email_exists_def hash_password_def audit_record_def op_splits view_def logs_def
      split: prod.splits)

lemma create_key_logged:
  assumes "create_api_key P s user name w = (Inr issued, v)" and "pending w = []"
  shows "\<exists>a k. view v = insert_row (AuditLogRow a) (insert_row (ApiKeyRow k) (objs w)) \<and> key_is_active k \<and>
    logs a API_KEY_CREATED (Some (key_user_id k)) ''api_key'' (uuid_str (key_id k))"
proof -
  from assms(1) obtain gen w1 k w2 w3 where gen: "generate_api_key P (api_key_prefix s) w = (Inr gen, w1)"
    and add: "add_row P ApiKeyRow (\<lambda>i now.
                \<lparr> key_id = i, key_user_id = usr_id user, key_name = name, key_hashed_key = gen_lookup_hash gen,
                  key_display_prefix = gen_display_prefix gen, key_is_active = True, key_last_used_at = None,
                  key_revoked_at = None, key_created_at = now \<rparr>) w1 = (Inr k, w2)"
    and flush: "flush P w2 = (Inr (), w3)"
    and audit: "\<exists>x. audit_record P API_KEY_CREATED (Some (usr_id user)) (Some ''api_key'') (Some (uuid_str (key_id k))) [] w3 = (Inr x, v)"
    by (auto simp: create_api_key_def andThen_Inr return_Inr)
  have "keeps (\<lambda>v. objs v = objs w \<and> pending v = []) (generate_api_key P (api_key_prefix s))" by (auto intro!: keeps_intros)
  then have "objs w1 = objs w \<and> pending w1 = []" using gen assms(2) by (auto dest: keepsD)
  then have w3: "objs w3 = insert_row (ApiKeyRow k) (objs w)" "pending w3 = []" and k: "key_is_active k" "key_user_id k = usr_id user"
    using add flush by (auto simp: op_splits)
  from audit obtain a where "pending v = [AuditLogRow a]"
    "logs a API_KEY_CREATED (Some (key_user_id k)) ''api_key'' (uuid_str (key_id k))" and "objs v = objs w3"
    using w3(2) k by (auto simp: op_splits logs_def)
  then show ?thesis using w3 k by (intro exI [of _ a] exI [of _ k]) (simp add: view_def)
qed

lemma revoke_key_logged:
  assumes "revoke_api_key P user text w = (Inr u, v)" and "pending w = []"
  shows "\<exists>a k. view v = insert_row (AuditLogRow a) ((objs w)\<lparr>api_keys := replace_by key_id k (api_keys (objs w))\<rparr>) \<and>
    \<not> key_is_active k \<and> UUID text = Inr (key_id k) \<and> logs a API_KEY_REVOKED (Some (key_user_id k)) ''api_key'' text"
proof -
  have "\<exists>i k now a. UUID text = Inr i \<and> find (\<lambda>r. key_id r = i) (api_keys (objs w)) = Some k \<and> key_user_id k = usr_id user \<and>
      objs v = (objs w)\<lparr>api_keys := replace_by key_id (k\<lparr>key_is_active := False, key_revoked_at := Some now\<rparr>)
        (api_keys (objs w))\<rparr> \<and> pending v = [AuditLogRow a] \<and> logs a API_KEY_REVOKED (Some (usr_id user)) ''api_key'' text"
    using assms
    by (auto simp: revoke_api_key_def get_by_id_def put_api_key_def op_splits logs_def split: option.split_asm)
      (rule exI, rule refl)+
  then obtain i k now a where i: "UUID text = Inr i" and k: "find (\<lambda>r. key_id r = i) (api_keys (objs w)) = Some k"
    and own: "key_user_id k = usr_id user"
    and v: "objs v = (objs w)\<lparr>api_keys := replace_by key_id (k\<lparr>key_is_active := False, key_revoked_at := Some now\<rparr>)
        (api_keys (objs w))\<rparr>" "pending v = [AuditLogRow a]"
    and a: "logs a API_KEY_REVOKED (Some (usr_id user)) ''api_key'' text" by blast
  from k have "key_id k = i" by (auto simp: find_Some_iff)
  then show ?thesis
    using i own v a by (intro exI [of _ a] exI [of _ "k\<lparr>key_is_active := False, key_revoked_at := Some now\<rparr>"]) (simp add: view_def)
qed

lemma webhook_logged:
  assumes "payment_adapter adapter" and "handle P adapter provider body headers w = (Inr (event, dup), v)" and "pending w = []"
  shows "view v = objs w \<or> (\<exists>a. view v = insert_row (AuditLogRow a) (insert_row (WebhookEventRow event) (objs w)) \<and>
    logs a WEBHOOK_RECEIVED None ''webhook'' (evt_event_id event))"
proof -
  obtain r w1 where ver: "ad_verify_webhook adapter body headers w = (r, w1)" by fastforce
  have "keeps (\<lambda>v. v = w) (ad_verify_webhook adapter body headers)"
    using payment_adapter.verify_reads [OF assms(1)] by (simp add: reads_only_def)
  then have "w1 = w" using ver by (auto dest: keepsD)
  then show ?thesis
    using assms(2,3) ver
    by (auto simp: handle_def webhook_metric_def inc_def audit_record_def get_by_event_def on_exit_run op_splits view_def
        logs_def new_event_def split: sum.split_asm option.split_asm)
qed

lemma follows_new:
  "logs a USER_REGISTERED (Some (usr_id u)) ''user'' (uuid_str (usr_id u)) \<Longrightarrow>
     follows t (insert_row (AuditLogRow a) (insert_row (UserRow u) t))"
  "key_is_active k \<Longrightarrow> logs a API_KEY_CREATED (Some (key_user_id k)) ''api_key'' (uuid_str (key_id k)) \<Longrightarrow>
     follows t (insert_row (AuditLogRow a) (insert_row (ApiKeyRow k) t))"
  "logs a WEBHOOK_RECEIVED None ''webhook'' (evt_event_id e) \<Longrightarrow>
     follows t (insert_row (AuditLogRow a) (insert_row (WebhookEventRow e) t))"
  "\<not> key_is_active k \<Longrightarrow> UUID text = Inr (key_id k) \<Longrightarrow> logs a API_KEY_REVOKED (Some (key_user_id k)) ''api_key'' text \<Longrightarrow>
     follows t (insert_row (AuditLogRow a) (t\<lparr>api_keys := replace_by key_id k (api_keys t)\<rparr>))"
  by (auto simp: follows_def audited_since_def audit_defs logs_def same_key_def replace_by_mem)

lemma accounts_new:
  "accounts (register P email password full_name role)" "accounts (create_api_key P s user name)"
  "accounts (revoke_api_key P user text)"
proof -
  show "accounts (register P email password full_name role)"
    by (rule accountsI) (auto dest!: register_logged simp del: insert_row.simps intro: follows_new(1))
  show "accounts (create_api_key P s user name)"
    by (rule accountsI) (auto dest!: create_key_logged simp del: insert_row.simps intro: follows_new(2))
  show "accounts (revoke_api_key P user text)"
    by (rule accountsI) (auto dest!: revoke_key_logged simp del: insert_row.simps intro: follows_new(4))
qed

lemma accounts_webhook: "payment_adapter adapter \<Longrightarrow> accounts (handle P adapter provider body headers)"
  by (rule accountsI) (auto dest!: webhook_logged simp del: insert_row.simps intro: follows_new(3) simp: follows_refl)

text \<open>Operations that change no more than a last use or a count of failures.\<close>

definition calm :: "tables \<Rightarrow> 'e world \<Rightarrow> bool" where
  "calm t s \<longleftrightarrow> (\<exists>as. pending s = map AuditLogRow as) \<and> payments (objs s) = payments t \<and> refunds (objs s) = refunds t \<and>
     webhook_events (objs s) = webhook_events t \<and> audit_logs (objs s) = audit_logs t \<and>
     usr_id ` set (users (objs s)) \<subseteq> usr_id ` set (users t) \<and>
     (\<forall>k \<in> set (api_keys (objs s)). \<exists>l \<in> set (api_keys t). same_key k l)"

lemma calm_follows: "calm t s \<Longrightarrow> follows t (view s)"
proof -
  assume c: "calm t s"
  then obtain as where as: "pending s = map AuditLogRow as" by (auto simp: calm_def)
  have "view s = (objs s)\<lparr>audit_logs := audit_logs (objs s) @ as\<rparr>"
  proof -
    have "fold insert_row (map AuditLogRow as) r = r\<lparr>audit_logs := audit_logs r @ as\<rparr>" for r
      by (induction as arbitrary: r) simp_all
    then show ?thesis by (simp add: view_def as)
  qed
  then show ?thesis using c by (auto simp: calm_def follows_def audited_since_def)
qed

lemma calm_start: "pending s = [] \<Longrightarrow> calm (objs s) s"
  by (auto simp: calm_def same_key_def)

lemma calm_accounts: "(\<And>t. keeps (calm t) m) \<Longrightarrow> accounts m"
  by (rule accountsI) (metis calm_start calm_follows keepsD)

lemma calm_steps:
  "keeps (calm t) (put_user u)" "keeps (calm t) (audit_record P action actor rt ri ctx)"
  "\<exists>l \<in> set (api_keys t). same_key k l \<Longrightarrow> keeps (calm t) (put_api_key k)"
proof -
  show "keeps (calm t) (put_user u)"
    by (auto simp: put_user_def calm_def replace_by_ids intro!: keeps_modify)
  show "\<exists>l \<in> set (api_keys t). same_key k l \<Longrightarrow> keeps (calm t) (put_api_key k)"
    by (auto simp: put_api_key_def calm_def replace_by_mem intro!: keeps_modify; blast)
  show "keeps (calm t) (audit_record P action actor rt ri ctx)"
  proof (rule keepsI)
    fix s r v
    assume s: "calm t s" and "audit_record P action actor rt ri ctx s = (r, v)"
    then obtain a where "pending v = pending s @ [AuditLogRow a]" "objs v = objs s"
      by (auto simp: audit_record_def add_row_def Let_def op_simps split: prod.splits)
    moreover from s obtain as where "pending s = map AuditLogRow as" by (auto simp: calm_def)
    ultimately have "\<exists>as. pending v = map AuditLogRow as" by (intro exI [of _ "as @ [a]"]) simp
    then show "calm t v" using s \<open>objs v = objs s\<close> by (simp add: calm_def)
  qed
qed

lemma calm_env: "calm t s \<Longrightarrow> calm t (s\<lparr>env := e\<rparr>)"
  by (simp add: calm_def)

lemma calm_login: "keeps (calm t) (authenticate P email password)"
  by (auto simp: authenticate_def Let_def calm_env intro!: keeps_intros calm_steps split: option.splits)

lemma calm_key: "keeps (calm t) (authenticate_api_key P presented)"
  unfolding authenticate_api_key_def
  apply (rule keeps_andThen_with [where Q = "\<lambda>found. \<forall>k. found = Some k \<longrightarrow> (\<exists>l \<in> set (api_keys t). same_key k l)"])
  subgoal by (rule keeps_intros)
  subgoal by (auto simp: get_by_hash_def op_splits calm_def dest!: scalar_one_or_none_Some filter_eq_ConsD)
  subgoal for found by (cases found) (auto simp: same_key_def intro!: keeps_intros calm_steps)
  done

lemma calm_user: "keeps (calm t) (get_current_user P app hs)" "keeps (calm t) (require_scope P app hs scope)"
proof -
  show "keeps (calm t) (get_current_user P app hs)"
    by (auto simp: get_current_user_def intro!: keeps_intros calm_key split: prod.splits)
  then show "keeps (calm t) (require_scope P app hs scope)"
    by (auto simp: require_scope_def intro!: keeps_intros)
qed

lemma calm_found: "keeps (calm t) (require_payment owner i)"
  by (auto simp: keeps_def require_payment_def get_for_owner_def select_one_eq op_simps split: sum.splits option.splits)

lemma accounts_after:
  assumes "\<And>t. keeps (calm t) m" and "\<And>w a u. m w = (Inr a, u) \<Longrightarrow> pending u = pending w" and "\<And>a. accounts (f a)"
  shows "accounts (andThen m f)"
proof (rule accountsI)
  fix w b v
  assume w: "pending w = []" and "andThen m f w = (Inr b, v)"
  then obtain a u where m: "m w = (Inr a, u)" and f: "f a u = (Inr b, v)" by (auto simp: andThen_Inr)
  have u: "pending u = []" using assms(2) [OF m] w by simp
  have "follows (objs w) (view u)" using keepsD [OF assms(1) m calm_start [OF w]] by (rule calm_follows)
  moreover have "follows (objs u) (view v)" using assms(3) u f by (rule accountsD)
  ultimately show "follows (objs w) (view v)" using u follows_trans by (simp add: view_def)
qed

lemma accounts_user:
  assumes "\<And>user. accounts (f user)"
  shows "accounts (andThen (get_current_user P app hs) f)" and "accounts (andThen (require_scope P app hs scope) f)"
  by (rule accounts_after; use assms in \<open>auto intro: calm_user elim: get_current_user_Inr require_scope_Inr\<close>)+

lemma accounts_rest:
  assumes "accounts m" and "\<And>a. reads_only (f a)"
  shows "accounts (andThen m f)"
proof (rule accounts_then [OF assms(1)])
  fix a s b t
  assume run: "f a s = (Inr b, t)"
  have "keeps (\<lambda>v. v = s) (f a)" using assms(2) by (simp add: reads_only_def)
  from keepsD [OF this run] show "follows (view s) (view t)" by (simp add: follows_refl)
qed

lemma reads_only_intros:
  "reads_only (return a)" "reads_only (lift_result r)" "reads_only m \<Longrightarrow> (\<And>a. reads_only (g a)) \<Longrightarrow> reads_only (andThen m g)"
  by (simp_all add: reads_only_def keeps_intros)

lemma accounts_actions:
  "accounts (charge_action P app user payload key)" "accounts (refund_action P app user i request)"
proof -
  show "accounts (refund_action P app user i request)"
    unfolding refund_action_def by (intro accounts_rest accounts_money reads_only_intros)
  have "accounts (andThen (create_payment P gm owner provider amount cm mt token descr cust meta k)
      (\<lambda>payment. lift_result (payment_to_response P payment)))" for gm owner provider amount cm mt token descr cust meta k
    by (intro accounts_rest accounts_money reads_only_intros)
  then show "accounts (charge_action P app user payload key)"
    unfolding charge_action_def by (rule accounts_after [rotated 2]) (auto simp: op_splits intro: keeps_intros)
qed

lemma accounts_endpoint: "accounts (endpoint_of P app hs c)"
proof (cases c)
  case (Login r)
  have "keeps (calm t) (endpoint_of P app hs c)" for t
    by (auto simp: Login api_login_def calm_env intro!: keeps_intros calm_login)
  then show ?thesis by (rule calm_accounts)
next
  case (ReceiveWebhook provider body)
  have drawn: "keeps (calm t) (\<lambda>w. case uuid4 P (env w) of (i, e) \<Rightarrow> (Inr i, w\<lparr>env := e\<rparr>))" for t
    by (auto simp: keeps_def calm_env split: prod.splits)
  have ack: "accounts (andThen (handle P adapter provider body hs) (\<lambda>(event, duplicate). return (200, webhook_ack event duplicate)))"
    if "payment_adapter adapter" for adapter
    using accounts_webhook [OF that] by (rule accounts_rest) (auto intro: reads_only_intros)
  have provided: "accounts (andThen (get_provider P gm owner provider) (\<lambda>adapter.
      andThen (handle P adapter provider body hs) (\<lambda>(event, duplicate). return (200, webhook_ack event duplicate))))" for gm owner
  proof (rule accountsI)
    fix w x v
    assume w: "pending w = []" and "andThen (get_provider P gm owner provider) (\<lambda>adapter.
      andThen (handle P adapter provider body hs) (\<lambda>(event, duplicate). return (200, webhook_ack event duplicate))) w = (Inr x, v)"
    then obtain adapter u where get: "get_provider P gm owner provider w = (Inr adapter, u)"
      and run: "andThen (handle P adapter provider body hs)
        (\<lambda>(event, duplicate). return (200, webhook_ack event duplicate)) u = (Inr x, v)" by (auto simp: andThen_Inr)
    have "u = w" using get by (rule get_provider_reads)
    then show "follows (objs w) (view v)" using accountsD [OF ack [OF get_provider_adapter [OF get]] w] run by simp
  qed
  show ?thesis
    unfolding ReceiveWebhook endpoint_of.simps api_receive_webhook_def
    by (rule accounts_after [OF _ _ provided]) (auto simp: op_splits intro!: keeps_intros drawn split: if_splits prod.splits)
next
  case (Register r)
  show ?thesis unfolding Register endpoint_of.simps api_register_def by (intro accounts_rest accounts_new reads_only_intros)
next
  case (CreateApiKey name)
  show ?thesis
    unfolding CreateApiKey endpoint_of.simps api_create_api_key_def
    by (intro accounts_user accounts_rest accounts_new reads_only_intros)
next
  case (RevokeApiKey i)
  show ?thesis
    unfolding RevokeApiKey endpoint_of.simps api_revoke_api_key_def
    by (intro accounts_user accounts_rest accounts_new reads_only_intros)
next
  case (CreatePayment r)
  show ?thesis
    unfolding CreatePayment endpoint_of.simps api_create_payment_def Let_def
    by (intro accounts_user accounts_rest accounts_keyed accounts_actions reads_only_intros)
next
  case (CreateRefund i r)
  show ?thesis
    unfolding CreateRefund endpoint_of.simps api_create_refund_def
    by (intro accounts_user accounts_rest accounts_keyed accounts_actions reads_only_intros)
next
  case (CancelPayment i)
  show ?thesis
    unfolding CancelPayment endpoint_of.simps api_cancel_payment_def
    by (intro accounts_user accounts_rest accounts_money reads_only_intros)
next
  case (CapturePayment i amount)
  have part: "accounts (andThen (capture_payment P gm user i part)
      (\<lambda>updated. andThen (lift_result (payment_to_response P updated)) (\<lambda>j. return (200, j))))" for gm user part
    by (intro accounts_rest accounts_money reads_only_intros)
  have chosen: "accounts (andThen (case amount of None \<Rightarrow> return None
        | Some a \<Rightarrow> andThen (lift_result (Money a cur)) (\<lambda>m. return (Some m)))
      (\<lambda>part. andThen (capture_payment P gm user i part)
        (\<lambda>updated. andThen (lift_result (payment_to_response P updated)) (\<lambda>j. return (200, j)))))" for gm user cur
    by (rule accounts_after [OF _ _ part]) (auto simp: op_splits intro!: keeps_intros split: option.splits)
  have "accounts (andThen (require_payment user i) (\<lambda>payment. andThen (case amount of None \<Rightarrow> return None
        | Some a \<Rightarrow> andThen (lift_result (Money a (pay_currency payment))) (\<lambda>m. return (Some m)))
      (\<lambda>part. andThen (capture_payment P gm user i part)
        (\<lambda>updated. andThen (lift_result (payment_to_response P updated)) (\<lambda>j. return (200, j))))))" for gm user
    by (rule accounts_after [OF calm_found _ chosen]) (auto dest: require_payment_Inr)
  then show ?thesis
    unfolding CapturePayment endpoint_of.simps api_capture_payment_def get_payment_def by (rule accounts_user)
next
  case (Refresh token)
  have "keeps (calm t) (endpoint_of P app hs c)" for t
    by (auto simp: Refresh api_refresh_def refresh_def calm_env intro!: keeps_intros)
  then show ?thesis by (rule calm_accounts)
qed (auto simp: api_me_def api_list_api_keys_def list_api_keys_def api_list_payments_def list_payments_def list_for_owner_def
    api_get_payment_def get_payment_def api_list_providers_def api_payment_stats_def Let_def
    intro!: calm_accounts keeps_intros calm_user calm_found split: prod.splits option.splits)

lemma request_follows:
  assumes "session_scope P (endpoint_of P app hs c) w = (r, v)"
  shows "follows (committed w) (committed v)"
  using assms
proof (cases rule: session_scope_cases)
  case (raised e)
  then show ?thesis using endpoint.failure_leaves_no_trace assms follows_refl by metis
next
  case (returned a u)
  from accountsD [OF accounts_endpoint _ returned(2)] show ?thesis using returned(3) by simp
qed

section \<open>Properties\<close>

text \<open>C13. The audit trail is complete.  Whatever requests are served, everything that differs from the start
  is accounted for in the log: a new or changed payment by an entry of its owner for the state it is in
  (authorized, captured, canceled, failed, or a refund), a refund, a webhook event, a registered user,
  an issued or revoked API key by its own.  And no payment is left waiting for confirmation.\<close>

theorem every_change_audited:
  assumes "api_run P app w v"
  shows "audited_since (committed w) (committed v)"
proof -
  have "follows (committed w) (committed v)"
    by (rule api_run_committed [where J = "follows (committed w)", OF assms follows_refl])
      (use request_follows follows_trans in blast)
  then show ?thesis by (simp add: follows_def)
qed

theorem every_change_audited_witness:
  "\<exists>v p a. payments (committed (v :: nat world)) = [p] \<and> a \<in> set (audit_logs (committed v)) \<and>
     aud_action a = PAYMENT_CAPTURED \<and> aud_actor_id a = Some (pay_owner_id p) \<and> aud_resource_id a = Some (uuid_str (pay_id p))"
proof -
  obtain v p where run: "api_run sandbox demo_app (role_world MERCHANT) v" and p: "payments (committed v) = [p]"
    "pay_status p = CAPTURED" and w: "payments (committed (role_world MERCHANT)) = []" by (rule demo_api_run)
  from every_change_audited [OF run] have "payment_audited (committed v) p" using p(1) w by (simp add: audited_since_def)
  then obtain a where "a \<in> set (audit_logs (committed v))" "aud_action a = PAYMENT_CAPTURED"
    "aud_actor_id a = Some (pay_owner_id p)" "aud_resource_id a = Some (uuid_str (pay_id p))"
    using p(2) by (auto simp: payment_audited.simps entry_def)
  with p(1) show ?thesis by blast
qed

end
