(* ===== verification/Server.thy ===== *)
theory Server
  imports Middleware
begin

text \<open>
  The server: the whole middleware stack around the interface, over any sequence of HTTP requests.  An
  invariant of the interface is one of the server (locale \<open>server_invariant\<close>); a request that the limiter
  lets through gets the interface's answer, and every run of the server is a run of the interface, so that
  what holds of the latter holds of the program as it is deployed.
\<close>

section \<open>Invariants of the stack\<close>

text \<open>An invariant that only the committed rows and the metrics matter to, and that the endpoints keep.\<close>

locale server_invariant =
  fixes P :: "'e platform" and app :: App and resolve :: "request \<Rightarrow> (string \<times> target) option" and J :: "'e world \<Rightarrow> bool"
  assumes frame: "J w \<Longrightarrow> committed v = committed w \<Longrightarrow> metrics v = metrics w \<Longrightarrow> J v"
    and served: "J w \<Longrightarrow> resolve rq = Some (template, Endpoint c) \<Longrightarrow>
      session_scope P (endpoint_of P app hs c) w = (r, v) \<Longrightarrow> J v"
begin

lemma keeps_routes: "keeps (\<lambda>s. J (srv_world s)) (routes P app db_up resolve rq)"
  by (rule keepsI) (auto simp: routes_def Let_def dest: served split: option.splits prod.splits target.splits sum.splits)

lemma keeps_limited: "keeps (\<lambda>s. J (srv_world s)) (limited_stack P app db_up resolve rq)"
proof -
  let ?in = "SecurityHeaders (routes P app db_up resolve)"
  have inner: "keeps (\<lambda>s. J (srv_world s)) (?in rq)"
    by (auto simp: SecurityHeaders_def intro!: keeps_intros keeps_routes)
  have "keeps (\<lambda>s. J (srv_world s)) (RateLimit P ?in rq)"
  proof (rule keepsI)
    fix s r t
    assume "J (srv_world s)" and "RateLimit P ?in rq s = (r, t)"
    then show "J (srv_world t)"
      by (cases r) (auto simp: RateLimit_def op_splits split: prod.splits if_splits dest!: keepsD [OF inner])
  qed
  with inner show ?thesis by (simp add: limited_stack_def Let_def)
qed

text \<open>After the inner part of the stack only the request itself is counted.\<close>

lemma stack_inner:
  assumes "J (srv_world s)" and "stack P app db_up resolve rq s = (r, t)"
  obtains u label status x where "J u" and "committed (srv_world t) = committed u"
    and "metrics (srv_world t) = metrics u @ [Inc ''upgi_http_requests_total'' [req_method rq, label, status],
       Observe ''upgi_http_request_duration_seconds'' [req_method rq, label] x]"
proof -
  let ?s = "s\<lparr>srv_route := None\<rparr>"
  obtain cid s1 where draw: "draw_correlation P rq ?s = (cid, s1)" by fastforce
  let ?s2 = "s1\<lparr>srv_world := (srv_world s1)\<lparr>correlation_id := cid\<rparr>\<rparr>" and ?rq = "rq\<lparr>req_correlation_id := Some cid\<rparr>"
  obtain q s3 where run: "limited_stack P app db_up resolve ?rq ?s2 = (q, s3)" by fastforce
  have "committed (srv_world ?s2) = committed (srv_world s)" "metrics (srv_world ?s2) = metrics (srv_world s)"
    using draw by (auto simp: draw_correlation_def split: if_splits prod.splits)
  with assms(1) have "J (srv_world ?s2)" by (rule frame)
  with keeps_limited run have "J (srv_world s3)" by (rule keepsD)
  moreover have "\<exists>label status x. committed (srv_world t) = committed (srv_world s3) \<and> metrics (srv_world t) = metrics (srv_world s3) @
      [Inc ''upgi_http_requests_total'' [req_method rq, label, status],
       Observe ''upgi_http_request_duration_seconds'' [req_method rq, label] x]"
    using assms(2) run draw
    by (cases q) (auto simp: stack_eq ServerErrors_def RequestContext_def record_request_def op_simps Let_def)
  ultimately show thesis using that by blast
qed

end

section \<open>Runs of the server\<close>

text \<open>Requests served one after the other; in between, anything but the registry and the database may change.\<close>

inductive server_run ::
  "'e platform \<Rightarrow> App \<Rightarrow> ('e \<Rightarrow> bool) \<Rightarrow> (request \<Rightarrow> (string \<times> target) option) \<Rightarrow> request list \<Rightarrow> 'e server \<Rightarrow> 'e server \<Rightarrow> bool"
  for P app db_up resolve where
  none: "server_run P app db_up resolve [] s s"
| serve: "server_run P app db_up resolve rqs s t \<Longrightarrow> stack P app db_up resolve rq t = (r, u) \<Longrightarrow>
    server_run P app db_up resolve (rqs @ [rq]) s u"
| idle: "server_run P app db_up resolve rqs s t \<Longrightarrow> metrics (srv_world u) = metrics (srv_world t) \<Longrightarrow>
    committed (srv_world u) = committed (srv_world t) \<Longrightarrow> server_run P app db_up resolve rqs s u"

text \<open>The parameters the framework hands to an endpoint have passed the endpoint's schema.\<close>

definition resolves_well :: "(request \<Rightarrow> (string \<times> target) option) \<Rightarrow> bool" where
  "resolves_well resolve \<longleftrightarrow> (\<forall>rq template c. resolve rq = Some (template, Endpoint c) \<longrightarrow> well_formed c)"

lemma api_run_idle: "api_run P app w u \<Longrightarrow> committed v = committed u \<Longrightarrow> api_run P app w v"
  by (rule api_run.step [OF _ api_step.idle])

lemma api_run_session:
  assumes "api_run P app w u" and "well_formed c" and "session_scope P (endpoint_of P app hs c) u = (r, v)"
  shows "api_run P app w v"
proof -
  obtain resp where "run_call P app hs c u = (resp, v)" using assms(3) by (cases r) (auto simp: run_call_def)
  with assms(2) have "api_step P app u v" by (rule api_step.request)
  with assms(1) show ?thesis by (rule api_run.step)
qed

interpretation interface: server_invariant P app resolve "\<lambda>v. resolves_well resolve \<longrightarrow> api_run P app w v"
    for P app resolve w
  by unfold_locales (auto simp: resolves_well_def intro: api_run_idle api_run_session)

lemma server_run_api:
  assumes "server_run P app db_up resolve rqs s t" and "resolves_well resolve"
  shows "api_run P app (srv_world s) (srv_world t)"
  using assms(1)
proof induction
  case (none s)
  show ?case by (rule api_run.start)
next
  case (serve rqs s t rq r u)
  obtain x where "resolves_well resolve \<longrightarrow> api_run P app (srv_world s) x" and "committed (srv_world u) = committed x"
    using interface.stack_inner [of resolve P app "srv_world s" t db_up rq r u] serve.IH serve.hyps(2) by metis
  with assms(2) have "api_run P app (srv_world s) x" "committed (srv_world u) = committed x" by simp_all
  then show ?case by (rule api_run_idle)
next
  case (idle rqs s t u)
  from idle.IH idle.hyps(3) show ?case by (rule api_run_idle)
qed

text \<open>Where the limiter does not step in.\<close>

definition admitted :: "'e platform \<Rightarrow> App \<Rightarrow> request \<Rightarrow> 'e server \<Rightarrow> bool" where
  "admitted P app rq s \<longleftrightarrow> \<not> rate_limit_enabled (app_settings app) \<or> exempt rq \<or>
     rl_allowed (fst (hit (monotonic P (env (srv_world s))) (identity rq) (srv_limiter s)))"

lemma limited_admitted:
  assumes "admitted P app rq s"
  shows "\<exists>l. \<forall>q t. routes P app db_up resolve rq (s\<lparr>srv_limiter := l\<rparr>) = (q, t) \<longrightarrow>
    (\<exists>p. limited_stack P app db_up resolve rq s = (p, t) \<and>
      (case q of Inl e \<Rightarrow> p = Inl e | Inr rsp \<Rightarrow> \<exists>hs. p = Inr (rsp\<lparr>rsp_headers := hs\<rparr>)))"
proof (cases "\<not> rate_limit_enabled (app_settings app) \<or> exempt rq")
  case True
  then show ?thesis
    by (intro exI [of _ "srv_limiter s"])
      (auto simp: limited_stack_def RateLimit_def SecurityHeaders_def Let_def op_simps split: sum.split)
next
  case False
  obtain result l where "hit (monotonic P (env (srv_world s))) (identity rq) (srv_limiter s) = (result, l)" by fastforce
  moreover from this have "rl_allowed result" using assms False by (simp add: admitted_def)
  ultimately show ?thesis
    using False
    by (intro exI [of _ l])
      (auto simp: limited_stack_def RateLimit_def SecurityHeaders_def Let_def op_simps split: sum.split)
qed

lemma routes_run_call:
  assumes "resolve rq = Some (template, Endpoint c)" and "run_call P app (req_headers rq) c (srv_world s) = (resp, v)"
  shows "\<exists>q t. routes P app db_up resolve rq s = (q, t) \<and> committed (srv_world t) = committed v \<and> env (srv_world t) = env v \<and>
    (case q of Inr rsp \<Rightarrow> resp = (rsp_status rsp, rsp_body rsp) | Inl e \<Rightarrow> resp = handle_exception [] e)"
proof -
  obtain r where run: "session_scope P (endpoint_of P app (req_headers rq) c) (srv_world s) = (r, v)"
    and resp: "resp = (case r of Inr x \<Rightarrow> x | Inl e \<Rightarrow> error_answer (correlation_id v) e)"
    using assms(2) by (rule run_call_session)
  show ?thesis
    using assms(1) run resp
    by (cases r) (auto simp: routes_def Let_def respond_def error_answer_def)
qed

section \<open>An example\<close>

definition demo_request :: request where
  "demo_request = \<lparr>req_method = ''GET'', req_path = ''/api/v1/auth/me'',
     req_headers = [(''x-api-key'', ''k''), (''x-correlation-id'', ''c1'')], req_client = None, req_correlation_id = None\<rparr>"

definition demo_server :: "nat server" where
  "demo_server = \<lparr>srv_world = role_world MERCHANT, srv_limiter = new_limiter 5 60, srv_route = None\<rparr>"

lemma demo_current:
  assumes "users (objs w) = [demo_user]" and "api_keys (objs w) = [demo_key\<lparr>key_last_used_at := t\<rparr>]"
  shows "get_current_user sandbox demo_app (req_headers demo_request) w =
    (Inr demo_user, w\<lparr>objs := (objs w)\<lparr>api_keys := [demo_key\<lparr>key_last_used_at := Some (time_time sandbox (env w))\<rparr>]\<rparr>\<rparr>)"
  using assms
  by (simp add: get_current_user_def nonempty_def header_get_def demo_request_def
      authenticate_api_key_def get_by_hash_def select_one_eq scalar_one_or_none_def active_user_def get_by_id_def
      op_simps put_api_key_def replace_by_def demo_key_def demo_user_def hash_for_lookup_def)

section \<open>Properties\<close>

text \<open>C15. The middleware is transparent.  A request that resolves to an endpoint and that the limiter admits gets
  the status and the body the interface answers, under the correlation identifier of the request, and leaves
  the database and the environment as the interface does; the stack only adds headers and metrics.\<close>

theorem middleware_transparent:
  assumes "draw_correlation P rq (s\<lparr>srv_route := None\<rparr>) = (cid, s1)" and "correlation_id (srv_world s) = []"
    and "resolve (rq\<lparr>req_correlation_id := Some cid\<rparr>) = Some (template, Endpoint c)"
    and "admitted P app rq s1" and "run_call P app (req_headers rq) c ((srv_world s1)\<lparr>correlation_id := cid\<rparr>) = (resp, v)"
  shows "\<exists>rsp t. stack P app db_up resolve rq s = (Inr rsp, t) \<and> (rsp_status rsp, rsp_body rsp) = resp \<and>
    committed (srv_world t) = committed v \<and> env (srv_world t) = env v"
proof -
  let ?rq = "rq\<lparr>req_correlation_id := Some cid\<rparr>" and ?s2 = "s1\<lparr>srv_world := (srv_world s1)\<lparr>correlation_id := cid\<rparr>\<rparr>"
  have previous: "correlation_id (srv_world s1) = []"
    using assms(1,2) by (auto simp: draw_correlation_def split: if_splits prod.splits)
  have "exempt ?rq = exempt rq" "identity ?rq = identity rq" by (simp_all add: exempt_def identity_def Let_def)
  then have "admitted P app ?rq ?s2" using assms(4) by (simp add: admitted_def)
  from limited_admitted [OF this] obtain l where l: "\<And>q t. routes P app db_up resolve ?rq (?s2\<lparr>srv_limiter := l\<rparr>) = (q, t) \<Longrightarrow>
    \<exists>p. limited_stack P app db_up resolve ?rq ?s2 = (p, t) \<and>
      (case q of Inl e \<Rightarrow> p = Inl e | Inr rsp \<Rightarrow> \<exists>hs. p = Inr (rsp\<lparr>rsp_headers := hs\<rparr>))" by blast
  have "run_call P app (req_headers ?rq) c (srv_world (?s2\<lparr>srv_limiter := l\<rparr>)) = (resp, v)" using assms(5) by simp
  from routes_run_call [where s = "?s2\<lparr>srv_limiter := l\<rparr>" and rq = ?rq and resolve = resolve and db_up = db_up, OF assms(3) this] obtain q t where q: "routes P app db_up resolve ?rq (?s2\<lparr>srv_limiter := l\<rparr>) = (q, t)"
    "committed (srv_world t) = committed v" "env (srv_world t) = env v"
    "case q of Inr rsp \<Rightarrow> resp = (rsp_status rsp, rsp_body rsp) | Inl e \<Rightarrow> resp = handle_exception [] e" by blast
  from l [OF q(1)] obtain p where run: "limited_stack P app db_up resolve ?rq ?s2 = (p, t)"
    and p: "case q of Inl e \<Rightarrow> p = Inl e | Inr rsp \<Rightarrow> \<exists>hs. p = Inr (rsp\<lparr>rsp_headers := hs\<rparr>)" by blast
  show ?thesis
    using run assms(1) previous p q(2-4)
    by (cases q) (auto simp: stack_eq ServerErrors_def RequestContext_def record_request_def op_simps Let_def respond_def)
qed

theorem middleware_transparent_witness:
  "\<exists>rsp t. stack sandbox demo_app (\<lambda>_. True) (\<lambda>_. Some (''/api/v1/auth/me'', Endpoint Me)) demo_request demo_server = (Inr rsp, t) \<and>
     rsp_status rsp = 200 \<and> rsp_body rsp = user_response sandbox demo_user"
proof -
  let ?w = "(role_world MERCHANT)\<lparr>correlation_id := ''c1''\<rparr>"
  have draw: "draw_correlation sandbox demo_request (demo_server\<lparr>srv_route := None\<rparr>) = (''c1'', demo_server)"
    by (simp add: draw_correlation_def demo_request_def demo_server_def nonempty_def header_get_def CORRELATION_HEADER_def)
  have adm: "admitted sandbox demo_app demo_request demo_server"
    by (simp add: admitted_def hit_def bucket_at_def Let_def demo_server_def)
  have w: "users (committed ?w) = [demo_user]" "api_keys (committed ?w) = [demo_key\<lparr>key_last_used_at := None\<rparr>]"
    by (simp_all add: role_world_def demo_user_def demo_key_def)
  have "unique_ok ((committed ?w)\<lparr>api_keys := [k]\<rparr>)" for k
    by (simp add: unique_ok_def unique_by_def role_world_def empty_tables_def List.map_filter_simps)
  then have "\<exists>v. run_call sandbox demo_app (req_headers demo_request) Me ?w = ((200, user_response sandbox demo_user), v)"
    using w by (simp add: run_call_def unit_of_work api_me_def andThen_eval demo_current [where t = None] return_eval
        sandbox_steps Let_def del: insert_row.simps)
  then obtain v where run: "run_call sandbox demo_app (req_headers demo_request) Me ((srv_world demo_server)\<lparr>correlation_id := ''c1''\<rparr>) =
    ((200, user_response sandbox demo_user), v)" by (auto simp: demo_server_def)
  have "correlation_id (srv_world demo_server) = []" by (simp add: demo_server_def role_world_def sandbox_world_def)
  from middleware_transparent [where resolve = "\<lambda>_. Some (''/api/v1/auth/me'', Endpoint Me)" and db_up = "\<lambda>_. True",
      OF draw this refl adm run]
  show ?thesis by auto
qed

text \<open>C16. The server refines the interface: whatever sequence of HTTP requests it serves, throttled, unroutable and
  failing ones included, its database has gone through a run of the interface.  So what holds after
  every run of the interface (the ledger, the roles, the references, the audit trail) holds of the server.\<close>

theorem server_refines_interface:
  assumes "server_run P app db_up resolve rqs s t" and "resolves_well resolve"
  shows "api_run P app (srv_world s) (srv_world t)"
  using assms by (rule server_run_api)

theorem server_refines_interface_witness:
  "\<exists>rsp t. stack sandbox demo_app (\<lambda>_. True) (\<lambda>_. Some (''/api/v1/auth/me'', Endpoint Me)) demo_request demo_server = (rsp, t) \<and>
     api_run sandbox demo_app (role_world MERCHANT) (srv_world t)"
proof -
  let ?resolve = "\<lambda>_ :: request. Some (''/api/v1/auth/me'', Endpoint Me)"
  obtain rsp t where st: "stack sandbox demo_app (\<lambda>_. True) ?resolve demo_request demo_server = (rsp, t)" by fastforce
  with server_run.none have "server_run sandbox demo_app (\<lambda>_. True) ?resolve ([] @ [demo_request]) demo_server t"
    by (rule server_run.serve)
  moreover have "resolves_well ?resolve" by (simp add: resolves_well_def)
  ultimately have "api_run sandbox demo_app (srv_world demo_server) (srv_world t)" by (rule server_refines_interface)
  then show ?thesis using st by (simp add: demo_server_def)
qed

end
