(* ===== verification/Metrics.thy ===== *)
theory Metrics
  imports Server
begin

text \<open>
  The metrics registry, \<^verbatim>\<open>app/core/metrics.py\<close>: the declared collectors, and what the services and
  the middleware report to them.  A call of \<open>labels\<close> that does not fit its collector raises, so that
  the events the model emits have to conform to the declarations.
\<close>

section \<open>The registry\<close>

datatype collector_kind = Counter | Histogram

record collector =
  col_kind :: collector_kind
  col_id :: string
  col_help :: string
  col_labels :: "string list"

definition http_requests_total :: collector where
  "http_requests_total =
     \<lparr> col_kind = Counter, col_id = ''upgi_http_requests_total'', col_help = ''Total HTTP requests.'',
       col_labels = [''method'', ''path'', ''status''] \<rparr>"

definition http_request_duration_seconds :: collector where
  "http_request_duration_seconds =
     \<lparr> col_kind = Histogram, col_id = ''upgi_http_request_duration_seconds'', col_help = ''HTTP request latency.'',
       col_labels = [''method'', ''path''] \<rparr>"

definition payment_operations_total :: collector where
  "payment_operations_total =
     \<lparr> col_kind = Counter, col_id = ''upgi_payment_operations_total'',
       col_help = ''Payment operations by type and outcome.'',
       col_labels = [''operation'', ''provider'', ''outcome''] \<rparr>"

definition provider_calls_total :: collector where
  "provider_calls_total =
     \<lparr> col_kind = Counter, col_id = ''upgi_provider_calls_total'',
       col_help = ''Outbound provider API calls by provider and outcome.'',
       col_labels = [''provider'', ''outcome''] \<rparr>"

definition provider_call_duration_seconds :: collector where
  "provider_call_duration_seconds =
     \<lparr> col_kind = Histogram, col_id = ''upgi_provider_call_duration_seconds'',
       col_help = ''Latency of outbound provider calls.'', col_labels = [''provider''] \<rparr>"

definition webhook_events_total :: collector where
  "webhook_events_total =
     \<lparr> col_kind = Counter, col_id = ''upgi_webhook_events_total'',
       col_help = ''Inbound webhook events by provider and outcome.'',
       col_labels = [''provider'', ''outcome''] \<rparr>"

definition REGISTRY :: "collector list" where
  "REGISTRY = [http_requests_total, http_request_duration_seconds, payment_operations_total,
     provider_calls_total, provider_call_duration_seconds, webhook_events_total]"

lemmas registry_defs = REGISTRY_def http_requests_total_def http_request_duration_seconds_def payment_operations_total_def
  provider_calls_total_def provider_call_duration_seconds_def webhook_events_total_def

section \<open>Events that fit it\<close>

text \<open>\<open>labels(...)\<close> takes one value for each declared name, \<open>inc\<close> is a counter's and \<open>observe\<close> a
  histogram's; the model passes the values in the declared order.\<close>

fun accepts :: "collector \<Rightarrow> metric \<Rightarrow> bool" where
  "accepts c (Inc name ls) \<longleftrightarrow> col_kind c = Counter \<and> col_id c = name \<and> length (col_labels c) = length ls"
| "accepts c (Observe name ls x) \<longleftrightarrow> col_kind c = Histogram \<and> col_id c = name \<and> length (col_labels c) = length ls"

definition conforms :: "collector list \<Rightarrow> metric \<Rightarrow> bool" where
  "conforms reg m \<longleftrightarrow> list_ex (\<lambda>c. accepts c m) reg"

text \<open>What a scrape adds up: the increments and the observations of a collector whose label values
  begin with the given ones.\<close>

fun reports :: "collector \<Rightarrow> string list \<Rightarrow> metric \<Rightarrow> bool" where
  "reports c ls (Inc name vs) \<longleftrightarrow> col_kind c = Counter \<and> col_id c = name \<and> take (length ls) vs = ls"
| "reports c ls (Observe name vs x) \<longleftrightarrow> col_kind c = Histogram \<and> col_id c = name \<and> take (length ls) vs = ls"

definition total :: "collector \<Rightarrow> string list \<Rightarrow> metric list \<Rightarrow> nat" where
  "total c ls ms = length (filter (reports c ls) ms)"

definition metered :: "metric list \<Rightarrow> bool" where
  "metered ms \<longleftrightarrow> list_all (conforms REGISTRY) ms \<and>
     (\<forall>provider. total provider_calls_total [provider] ms = total provider_call_duration_seconds [provider] ms) \<and>
     (\<forall>verb path. total http_requests_total [verb, path] ms = total http_request_duration_seconds [verb, path] ms)"

lemma total_append [simp]: "total c ls (ms @ ns) = total c ls ms + total c ls ns"
  by (simp add: total_def)

lemma metered_append: "metered ms \<Longrightarrow> metered ns \<Longrightarrow> metered (ms @ ns)"
  by (simp add: metered_def)

lemma metered_events:
  "metered []"
  "metered [Inc ''upgi_payment_operations_total'' [a, b, c]]" "metered [Inc ''upgi_webhook_events_total'' [a, b]]"
  "metered [Inc ''upgi_provider_calls_total'' [a, b], Observe ''upgi_provider_call_duration_seconds'' [a] x]"
  "metered [Inc ''upgi_http_requests_total'' [a, b, c], Observe ''upgi_http_request_duration_seconds'' [a, b] x]"
  by (simp_all add: metered_def total_def conforms_def registry_defs)

section \<open>What requests report\<close>

text \<open>Since \<open>M\<close>, only conforming events were added, of which \<open>h verb\<close> count a request.\<close>

definition requests_in :: "metric list \<Rightarrow> string \<Rightarrow> nat" where
  "requests_in ms verb = total http_requests_total [verb] ms"

definition reported :: "metric list \<Rightarrow> (string \<Rightarrow> nat) \<Rightarrow> 'e world \<Rightarrow> bool" where
  "reported M h w \<longleftrightarrow> (\<exists>ms. metrics w = M @ ms \<and> metered ms \<and> requests_in ms = h)"

lemma reported_frame [elim]: "reported M h w \<Longrightarrow> metrics v = metrics w \<Longrightarrow> reported M h v"
  by (simp add: reported_def)

lemma reported_add:
  assumes "reported M h w" and "metrics v = metrics w @ ms" and "metered ms"
    and "\<And>verb. k verb = h verb + requests_in ms verb"
  shows "reported M k v"
proof -
  obtain ns where ns: "metrics w = M @ ns" "metered ns" "requests_in ns = h" using assms(1) by (auto simp: reported_def)
  then have "requests_in (ns @ ms) = k" using assms(4) by (auto simp: requests_in_def fun_eq_iff)
  then show ?thesis using assms(2,3) ns metered_append unfolding reported_def by (metis append_assoc)
qed

lemma execute_metrics:
  assumes "env_only m" and "execute P gm provider m w = (r, v)"
  shows "\<exists>x. metrics v = metrics w @ [Inc ''upgi_provider_calls_total'' [ProviderName_value provider, call_outcome r],
    Observe ''upgi_provider_call_duration_seconds'' [ProviderName_value provider] x]"
proof -
  let ?I = "\<lambda>v. metrics v = metrics w"
  let ?b = "case breakers w provider of
    Some b \<Rightarrow> w | None \<Rightarrow> w\<lparr>breakers := (breakers w)(provider \<mapsto> configured_breaker gm provider)\<rparr>"
  have "keeps ?I m"
  proof (rule keepsI)
    fix s r t assume "?I s" "m s = (r, t)"
    moreover from this have "t = s\<lparr>env := env t\<rparr>" using assms(1) by (intro env_onlyD)
    ultimately show "?I t" by (metis world.select_convs(6) world.surjective world.update_convs(1))
  qed
  then have retry: "keeps ?I (with_retry P gm provider m)"
    unfolding with_retry_def
    by (intro keeps_retry_async keeps_guarded)
      (auto simp: keeps_def world_uniform_def world_sleep_def op_simps split: prod.splits)
  have body: "keeps ?I (breaker_call (get_breaker gm provider) (put_breaker provider) (\<lambda>w. monotonic P (env w))
      (with_retry P gm provider m))"
    by (rule keeps_breaker_call) (simp_all add: retry put_breaker_def)
  have start: "?I ?b" by (auto split: option.splits)
  obtain r' t where run: "breaker_call (get_breaker gm provider) (put_breaker provider) (\<lambda>w. monotonic P (env w))
      (with_retry P gm provider m) ?b = (r', t)" by fastforce
  then have t: "metrics t = metrics w" using keepsD [OF body run start] by simp
  show ?thesis
  proof (cases r')
    case (Inl e)
    then show ?thesis
      using assms(2) run t by (auto simp: execute_def breaker_for_def inc_def observe_def op_simps split: option.splits)
  next
    case (Inr a)
    then show ?thesis
      using assms(2) run t by (auto simp: execute_def breaker_for_def inc_def observe_def op_simps split: option.splits)
  qed
qed

lemma unreported: "(\<And>s. metrics (snd (m s)) = metrics s) \<Longrightarrow> keeps (reported M h) m"
  by (simp add: keeps_def reported_def)

lemma reported_rows:
  "keeps (reported M h) (add_row P row_of mk)" "keeps (reported M h) (flush P)"
  "keeps (reported M h) (put_payment p)" "keeps (reported M h) (put_user u)" "keeps (reported M h) (put_api_key k)"
  by (auto simp: add_row_def flush_def put_payment_def put_user_def put_api_key_def op_simps Let_def
      intro!: unreported split: prod.splits)

lemma reported_env: "reported M h w \<Longrightarrow> reported M h (w\<lparr>env := e\<rparr>)"
  by (simp add: reported_def)

lemma reported_counts:
  "keeps (reported M h) (payment_metric operation provider outcome)" "keeps (reported M h) (webhook_metric provider outcome)"
  by (auto simp: payment_metric_def webhook_metric_def inc_def requests_in_def total_def registry_defs
      intro!: keeps_modify elim!: reported_add intro: metered_events)

lemma reported_execute:
  assumes "env_only m"
  shows "keeps (reported M h) (execute P gm provider m)"
proof (rule keepsI)
  fix s r t
  assume "reported M h s" and run: "execute P gm provider m s = (r, t)"
  from execute_metrics [OF assms run] obtain x where
    "metrics t = metrics s @ [Inc ''upgi_provider_calls_total'' [ProviderName_value provider, call_outcome r],
       Observe ''upgi_provider_call_duration_seconds'' [ProviderName_value provider] x]" by blast
  with \<open>reported M h s\<close> show "reported M h t"
    by (rule reported_add) (simp_all add: metered_events requests_in_def total_def registry_defs)
qed

interpretation reporting: money_invariant P "reported M h" for P M h
proof unfold_locales
  show "keeps (reported M h) (register P email password full_name MERCHANT)" for email password full_name
    by (auto simp: register_def Let_def audit_record_def reported_env intro!: keeps_intros reported_rows)
  show "keeps (reported M h) (authenticate P email password)" for email password
    by (auto simp: authenticate_def Let_def audit_record_def reported_env intro!: keeps_intros reported_rows)
qed (simp_all add: reported_rows reported_env reported_counts reported_execute)

section \<open>The server\<close>

lemma reported_session:
  assumes "reported M h w" and "session_scope P (endpoint_of P app hs c) w = (r, v)"
  shows "reported M h v"
proof -
  obtain q u where run: "endpoint_of P app hs c (w\<lparr>objs := committed w, pending := []\<rparr>) = (q, u)" by fastforce
  have "reported M h (w\<lparr>objs := committed w, pending := []\<rparr>)" using assms(1) by (rule reported_frame) simp
  with reporting.keeps_endpoint run have "reported M h u" by (rule keepsD)
  then show ?thesis using assms(2) run by (auto simp: unit_of_work Let_def reported_def split: sum.splits if_splits)
qed

interpretation reporting_server: server_invariant P app resolve "reported M h" for P app resolve M h
  by unfold_locales (auto intro: reported_session)

lemma stack_reports:
  assumes "reported M h (srv_world s)" and "stack P app db_up resolve rq s = (r, t)"
  shows "reported M (h(req_method rq := Suc (h (req_method rq)))) (srv_world t)"
  using assms
proof (rule reporting_server.stack_inner)
  fix u label status x
  assume "reported M h u" and "metrics (srv_world t) = metrics u @ [Inc ''upgi_http_requests_total'' [req_method rq, label, status],
       Observe ''upgi_http_request_duration_seconds'' [req_method rq, label] x]"
  then show ?thesis
    by (rule reported_add) (simp_all add: metered_events requests_in_def total_def registry_defs)
qed

lemma run_reports:
  assumes "server_run P app db_up resolve rqs s t"
  shows "reported (metrics (srv_world s)) (\<lambda>verb. length (filter (\<lambda>rq. req_method rq = verb) rqs)) (srv_world t)"
  using assms
proof induction
  case (none s)
  show ?case by (simp add: reported_def metered_events requests_in_def total_def fun_eq_iff)
next
  case (serve rqs s t rq r u)
  have "(\<lambda>verb. length (filter (\<lambda>rq. req_method rq = verb) (rqs @ [rq]))) =
    (\<lambda>verb. length (filter (\<lambda>rq. req_method rq = verb) rqs))
      (req_method rq := Suc (length (filter (\<lambda>q. req_method q = req_method rq) rqs)))"
    by (auto simp: fun_eq_iff)
  then show ?case using stack_reports [OF serve.IH serve.hyps(2)] by simp
next
  case (idle rqs s t u)
  from idle.IH idle.hyps(2) show ?case by (rule reported_frame)
qed

section \<open>Properties\<close>

text \<open>C19. The metrics are well typed and add up.  Whatever requests the server answers, and however they end,
  the registry only gains events that fit a declared collector: a counter is incremented, a histogram
  observed, with one value per label.  The requests counted under each method are the ones received,
  every counted request has its duration under the same path, and every counted provider call its
  latency.\<close>

theorem metrics_add_up:
  assumes "server_run P app db_up resolve rqs s t"
  shows "\<exists>ms. metrics (srv_world t) = metrics (srv_world s) @ ms \<and> list_all (conforms REGISTRY) ms \<and>
    (\<forall>verb. total http_requests_total [verb] ms = length (filter (\<lambda>rq. req_method rq = verb) rqs)) \<and>
    (\<forall>verb path. total http_requests_total [verb, path] ms = total http_request_duration_seconds [verb, path] ms) \<and>
    (\<forall>provider. total provider_calls_total [provider] ms = total provider_call_duration_seconds [provider] ms)"
  using run_reports [OF assms] unfolding reported_def metered_def requests_in_def fun_eq_iff by blast

theorem metrics_add_up_witness:
  "\<exists>t. total http_requests_total [''GET''] (metrics (srv_world (t :: nat server))) = 1 \<and>
     list_all (conforms REGISTRY) (metrics (srv_world t))"
proof -
  let ?rq = "\<lparr>req_method = ''GET'', req_path = ''/api/v1/payments'', req_headers = [],
      req_client = None, req_correlation_id = None\<rparr>"
  let ?s = "\<lparr>srv_world = role_world MERCHANT, srv_limiter = new_limiter 0 60, srv_route = None\<rparr>"
  obtain r t where "stack sandbox demo_app (\<lambda>_. True) (\<lambda>_. None) ?rq ?s = (r, t)" by fastforce
  with server_run.none have "server_run sandbox demo_app (\<lambda>_. True) (\<lambda>_. None) ([] @ [?rq]) ?s t" by (rule server_run.serve)
  from metrics_add_up [OF this] obtain ms where "metrics (srv_world t) = metrics (srv_world ?s) @ ms"
    "list_all (conforms REGISTRY) ms" "total http_requests_total [''GET''] ms = 1" by auto
  then show ?thesis by (intro exI [of _ t]) (simp add: role_world_def sandbox_world_def)
qed

end
