(* ===== verification/Lengths.thy ===== *)
theory Lengths
  imports Concurrency Migration
begin

text \<open>
  The lengths the columns are declared with.  A database that enforces them (PostgreSQL does, SQLite does
  not) refuses a commit with a longer text.  The schemas bound what comes in a body, but nothing bounds the
  texts that come in headers and from providers: what then becomes of a request.  The refusal is the error
  any refused row raises in this model (\<open>IntegrityError\<close>); the driver's own class for a text that is too
  long is another one, but the program catches neither.
\<close>

section \<open>Declared lengths\<close>

text \<open>A row fits a table when each of its texts is within the declared length of its column.\<close>

definition column_fits :: "(string \<rightharpoonup> cell) \<Rightarrow> string \<times> nat \<Rightarrow> bool" where
  "column_fits r c \<longleftrightarrow> (case r (fst c) of Some (CStr s) \<Rightarrow> length s \<le> snd c | _ \<Rightarrow> True)"

definition string_columns :: "sql_table \<Rightarrow> (string \<times> nat) list" where
  "string_columns tab =
     List.map_filter (\<lambda>c. case col_type c of SQL_String n \<Rightarrow> Some (col_name c, n) | _ \<Rightarrow> None) (tab_columns tab)"

definition fits :: "schema \<Rightarrow> tables \<Rightarrow> bool" where
  "fits S t \<longleftrightarrow> list_all (\<lambda>tab. list_all (\<lambda>r. list_all (column_fits r) (string_columns tab)) (cells t (tab_name tab))) S"

definition fits_schema :: "tables \<Rightarrow> bool" where
  "fits_schema t \<longleftrightarrow> (case run_ddl upgrade [] of None \<Rightarrow> False | Some S \<Rightarrow> fits S t)"

definition enforces_lengths :: "'e platform \<Rightarrow> bool" where
  "enforces_lengths P \<longleftrightarrow> (\<forall>t. db_accepts P t \<longrightarrow> fits_schema t)"

definition declared_lengths :: "(string \<times> (string \<times> nat) list) list" where
  "declared_lengths =
     [(''users'', [(''email'', 320), (''hashed_password'', 255), (''full_name'', 255)]),
           (''webhook_events'', [(''event_id'', 255), (''event_type'', 120)]),
           (''api_keys'', [(''name'', 120), (''hashed_key'', 64), (''display_prefix'', 64)]),
           (''audit_logs'', [(''resource_type'', 60), (''resource_id'', 64), (''correlation_id'', 64)]),
           (''idempotency_keys'', [(''endpoint'', 120), (''key'', 255), (''request_hash'', 64)]),
           (''payments'', [(''provider_reference'', 255), (''currency'', 8), (''description'', 500),
              (''customer_reference'', 255), (''failure_reason'', 500)]),
           (''provider_configs'', [(''encrypted_secret'', 2048)]),
           (''refunds'', [(''currency'', 8), (''reason'', 500), (''provider_reference'', 255)])]"

lemma migrated_strings:
  "map_option (map (\<lambda>t. (tab_name t, string_columns t))) (run_ddl upgrade []) =
     Some declared_lengths"
  by code_simp

definition within_length :: "nat \<Rightarrow> string option \<Rightarrow> bool" where
  "within_length n x \<longleftrightarrow> (case x of None \<Rightarrow> True | Some s \<Rightarrow> length s \<le> n)"

lemma fits_by:
  assumes "map (\<lambda>t. (tab_name t, string_columns t)) S = ds"
  shows "fits S t \<longleftrightarrow> list_all (\<lambda>(name, cs). list_all (\<lambda>r. list_all (column_fits r) cs) (cells t name)) ds"
  using assms by (auto simp: fits_def list_all_iff)

text \<open>What the migrated schema demands of the rows.\<close>

lemma fits_schema_eq:
  "fits_schema t \<longleftrightarrow>
     (\<forall>r \<in> set (users t). length (usr_email r) \<le> 320 \<and> length (usr_hashed_password r) \<le> 255 \<and> within_length 255 (usr_full_name r)) \<and>
     (\<forall>r \<in> set (webhook_events t). length (evt_event_id r) \<le> 255 \<and> length (evt_event_type r) \<le> 120) \<and>
     (\<forall>r \<in> set (api_keys t). length (key_name r) \<le> 120 \<and> length (key_hashed_key r) \<le> 64 \<and> length (key_display_prefix r) \<le> 64) \<and>
     (\<forall>r \<in> set (audit_logs t). within_length 60 (aud_resource_type r) \<and> within_length 64 (aud_resource_id r) \<and>
        within_length 64 (aud_correlation_id r)) \<and>
     (\<forall>r \<in> set (idempotency_keys t). length (idk_endpoint r) \<le> 120 \<and> length (idk_key r) \<le> 255 \<and> length (idk_request_hash r) \<le> 64) \<and>
     (\<forall>r \<in> set (payments t). within_length 255 (pay_provider_reference r) \<and> length (pay_currency r) \<le> 8 \<and>
        within_length 500 (pay_description r) \<and> within_length 255 (pay_customer_reference r) \<and> within_length 500 (pay_failure_reason r)) \<and>
     (\<forall>r \<in> set (provider_configs t). length (cfg_encrypted_secret r) \<le> 2048) \<and>
     (\<forall>r \<in> set (refunds t). length (rfd_currency r) \<le> 8 \<and> within_length 500 (rfd_reason r) \<and> within_length 255 (rfd_provider_reference r))"
proof -
  obtain S where S: "run_ddl upgrade [] = Some S" using migrated_strings by auto
  then have "map (\<lambda>t. (tab_name t, string_columns t)) S = declared_lengths" using migrated_strings by simp
  from fits_by [OF this] S show ?thesis
    by (simp add: declared_lengths_def fits_schema_def S cells.simps column_fits_def text_cell_def within_length_def list_all_iff
        option.case_distrib [of "\<lambda>c. case c of CStr s \<Rightarrow> _ s | _ \<Rightarrow> _"] cong: option.case_cong)
qed

section \<open>A key that is too long\<close>

lemma long_row_refused:
  assumes "enforces_lengths P" and "r \<in> set (idempotency_keys t)" and "255 < length (idk_key r)"
  shows "\<not> db_accepts P t"
proof
  assume "db_accepts P t"
  then have "fits_schema t" using assms(1) by (simp add: enforces_lengths_def)
  then have "length (idk_key r) \<le> 255" using assms(2) unfolding fits_schema_eq by blast
  then show False using assms(3) by simp
qed

lemma long_key_run:
  assumes "enforces_lengths P" and "255 < length key" and "db_accepts P t" and "idempotency_keys (objs u) = idempotency_keys t"
    and act: "action u = (Inr b, x)"
  shows "\<exists>v. with_idempotency P owner name (Some key) body action u = (Inl (Py IntegrityError), v) \<and>
    env v = snd (uuid4 P (env x)) \<and> committed v = committed x"
proof -
  have "\<forall>k \<in> set (idempotency_keys (objs u)). idk_key k \<noteq> key"
    using long_row_refused [OF assms(1)] assms(2-4) by metis
  then have none: "filter (\<lambda>k. idk_owner_id k = owner \<and> idk_endpoint k = name \<and> idk_key k = key) (idempotency_keys (objs u)) = []"
    by (auto simp: filter_empty_conv)
  obtain i e where draw: "uuid4 P (env x) = (i, e)" by fastforce
  let ?r = "new_record owner name key body 201 b i"
  let ?x = "x\<lparr>env := e, pending := pending x @ [IdempotencyKeyRow ?r]\<rparr>"
  have "?r \<in> set (idempotency_keys (fold insert_row (pending ?x) (objs ?x)))"
    by (simp add: idempotency_log.inserted idempotency_log.map_filter_append List.map_filter_simps)
  moreover have "255 < length (idk_key ?r)" using assms(2) by (simp add: new_record_def)
  ultimately have "\<not> db_accepts P (fold insert_row (pending ?x) (objs ?x))" by (rule long_row_refused [OF assms(1)])
  then have "store P owner name key body 201 b x = (Inl (Py IntegrityError), ?x)"
    by (simp add: store_def add_row_def flush_def op_simps draw Let_def)
  moreover have "key \<noteq> []" using assms(2) by auto
  ultimately show ?thesis
    using none act draw by (simp add: with_idempotency_def lookup_eq scalar_one_or_none_def op_simps)
qed

lemma failed_call:
  assumes "endpoint_of P app hs c (w\<lparr>objs := committed w, pending := []\<rparr>) = (Inl (Py x), v)"
  shows "fst (fst (run_call P app hs c w)) = 500 \<and> committed (snd (run_call P app hs c w)) = committed w \<and>
    env (snd (run_call P app hs c w)) = env v"
  using refused_request [OF assms] by (simp add: error_answer_def)

section \<open>Properties\<close>

text \<open>C8. A key that is too long charges and forgets.  On a database that enforces the declared lengths, a payment
  or refund request whose \<open>Idempotency-Key\<close> is longer than its column is executed, provider call included;
  storing the key then fails, the client gets a 500, and the database is as before: no payment, no refund,
  no audit entry, and a retry executes it again.\<close>

theorem long_key_lost:
  assumes "enforces_lengths P" and "takes_key c" and "scope_of c = Some sc"
    and "map_of hs ''idempotency-key'' = Some key" and "255 < length key" and "db_accepts P (committed w)"
    and "require_scope P app hs sc (w\<lparr>objs := committed w, pending := []\<rparr>) = (Inr user, u)"
    and "action_of P app user key c u = (Inr b, x)"
  shows "fst (fst (run_call P app hs c w)) = 500 \<and> committed (snd (run_call P app hs c w)) = committed w \<and>
    env (snd (run_call P app hs c w)) = snd (uuid4 P (env x))"
proof -
  have keys: "idempotency_keys (objs u) = idempotency_keys (committed w)" using assms(7) by (auto elim: require_scope_Inr)
  obtain v where v: "with_idempotency P (usr_id user) (endpoint_name c) (Some key) (body_of c) (action_of P app user key c) u =
      (Inl (Py IntegrityError), v)" "env v = snd (uuid4 P (env x))"
    using long_key_run [where action = "action_of P app user key c", OF assms(1,5,6) keys assms(8)] by blast
  have "endpoint_of P app hs c (w\<lparr>objs := committed w, pending := []\<rparr>) = (Inl (Py IntegrityError), v)"
  proof (cases c)
    case (CreatePayment r)
    then show ?thesis using assms(3,4,7) v(1) charge_endpoint.ran [of P app hs "w\<lparr>objs := committed w, pending := []\<rparr>" user u key r] by simp
  next
    case (CreateRefund i r)
    then show ?thesis using assms(3,4,7) v(1) refund_endpoint.ran [of P app hs "w\<lparr>objs := committed w, pending := []\<rparr>" user u key i r] by simp
  qed (use assms(2) in simp_all)
  from failed_call [OF this] v(2) show ?thesis by simp
qed

section \<open>Example\<close>

text \<open>The demo platform on a database that enforces lengths, and a key of 256 characters.\<close>

definition strict :: "nat platform" where
  "strict = sandbox\<lparr>db_accepts := (\<lambda>t. unique_ok t \<and> fits_schema t)\<rparr>"

definition long_key :: string where
  "long_key = replicate 256 (CHR ''x'')"

definition long_keyed :: headers where
  "long_keyed = [(''x-api-key'', ''k''), (''idempotency-key'', long_key)]"

lemma strict_steps:
  "uuid4 strict n = (of_nat n, Suc n)" "db_accepts strict t = (unique_ok t \<and> fits_schema t)"
  "time_time strict n = 1700000000 + of_nat n" "enforces_lengths strict" "enforces_unique strict"
  by (simp_all add: strict_def sandbox_def enforces_lengths_def enforces_unique_def)

lemma strict_start: "db_accepts strict (committed (role_world MERCHANT))"
  by (simp add: strict_steps fits_schema_eq role_world_def empty_tables_def unique_ok_def unique_by_def List.map_filter_simps
      demo_user_def demo_key_def hash_key_def within_length_def)

lemma strict_charge:
  defines "w \<equiv> role_world MERCHANT"
  shows "\<exists>u j x. require_scope strict demo_app long_keyed SCOPE_PAYMENTS_WRITE (w\<lparr>objs := committed w, pending := []\<rparr>) = (Inr demo_user, u) \<and>
    action_of strict demo_app demo_user long_key (CreatePayment demo_payload) u = (Inr j, x) \<and>
    (\<exists>p. payments (objs x) = [p] \<and> pay_status p = CAPTURED \<and> pay_amount_captured p = 1000)"
proof -
  let ?w = "w\<lparr>objs := committed w, pending := []\<rparr>"
  let ?k = "demo_key\<lparr>key_last_used_at := Some (time_time strict 0)\<rparr>"
  let ?u = "?w\<lparr>objs := (objs ?w)\<lparr>api_keys := [?k]\<rparr>\<rparr>"
  have up: "upper ''USD'' = ''USD''" by code_simp
  have usd: "is_supported_currency ''USD''" by (simp add: is_supported_currency_def CURRENCY_EXPONENTS_def up)
  have w: "users (objs ?w) = [demo_user]" "api_keys (objs ?w) = [demo_key]" "env ?w = 0" "payments (objs ?w) = []"
    "idempotency_keys (objs ?w) = []" "provider_configs (objs ?w) = []" "breakers ?w = Map.empty"
    by (simp_all add: w_def role_world_def sandbox_world_def demo_user_def empty_tables_def)
  have "has_scope (scopes_for_role MERCHANT) SCOPE_PAYMENTS_WRITE"
    by (simp add: has_scope_def)
  then have auth: "require_scope strict demo_app long_keyed SCOPE_PAYMENTS_WRITE ?w = (Inr demo_user, ?u)"
    using w
    by (simp add: require_scope_def get_current_user_def nonempty_def header_get_def long_keyed_def
        authenticate_api_key_def get_by_hash_def select_one_eq scalar_one_or_none_def active_user_def get_by_id_def
        op_simps put_api_key_def replace_by_def demo_key_def demo_user_def hash_for_lookup_def)
  have m: "Money 1000 ''USD'' = Inr demo_amount"
    by (simp add: Money_def Money_init_def usd up demo_amount_def)
  have ok: "db_accepts strict ((objs ?u)\<lparr>payments := payments (objs ?u) @
       [new_payment demo_user MOCK demo_amount AUTOMATIC PaymentMethodType.CARD None None [] i t]\<rparr>)" for i t
    by (simp add: strict_steps fits_schema_eq w_def role_world_def empty_tables_def unique_ok_def unique_by_def
        List.map_filter_simps new_payment_def demo_amount_def demo_user_def demo_key_def hash_key_def within_length_def)
  have shut: "cb_state (get_breaker sandbox_gateway MOCK ?u) \<noteq> OPEN"
    using w(7) by (simp add: get_breaker_def configured_breaker_def new_breaker_def)
  obtain p x where run: "create_payment strict sandbox_gateway demo_user MOCK demo_amount AUTOMATIC PaymentMethodType.CARD
      None None None [] (Some long_key) ?u = (Inr p, x)"
    and p: "pay_amount p = 1000" "pay_currency p = ''USD''" "pay_status p = CAPTURED" "pay_amount_captured p = 1000"
      "pay_amount_refunded p = 0"
    using mock_create_runs [OF sandbox_facts(1,2) _ shut _ _ ok [of 0 "db_now strict 1"], where token = None and key = "Some long_key"
        and fails = False] w
    by (auto simp: strict_steps demo_amount_def)
  have x: "payments (objs x) = [p]"
    using created_row [OF run _ strict_steps(5)] w(4) by simp
  obtain j where "payment_to_response strict p = Inr j"
    using payment_to_response_returns [of p strict] p usd up by auto
  then have "action_of strict demo_app demo_user long_key (CreatePayment demo_payload) ?u = (Inr j, x)"
    using run by (simp add: charge_action_def demo_payload_def m op_simps demo_app_def)
  then show ?thesis using auth x p(3,4) by blast
qed

theorem long_key_lost_witness:
  "fst (fst (run_call strict demo_app long_keyed (CreatePayment demo_payload) (role_world MERCHANT))) = 500 \<and>
   committed (snd (run_call strict demo_app long_keyed (CreatePayment demo_payload) (role_world MERCHANT))) =
     committed (role_world MERCHANT)"
proof -
  obtain u j x where run: "require_scope strict demo_app long_keyed SCOPE_PAYMENTS_WRITE
       ((role_world MERCHANT)\<lparr>objs := committed (role_world MERCHANT), pending := []\<rparr>) = (Inr demo_user, u)"
    "action_of strict demo_app demo_user long_key (CreatePayment demo_payload) u = (Inr j, x)"
    using strict_charge by blast
  show ?thesis
    using long_key_lost [OF strict_steps(4) _ _ _ _ strict_start run(1,2)]
    by (simp add: long_keyed_def long_key_def)
qed

end
