(* ===== verification/Spec2Isabelle.thy ===== *)
theory Spec2Isabelle
  imports Concurrency Operations Ssrf Demo Foreign_Keys Audits Metrics Lengths
begin

text \<open>
  Verification of the universal payment gateway (\<^verbatim>\<open>src/app\<close>), a payment orchestration service: clients
  create, capture, cancel and refund payments through an HTTP interface; the service routes each
  operation to the provider the tenant configured, guards the call with retries and a circuit
  breaker, keeps the payments in a database, answers repeated requests from stored responses and
  takes webhooks from the providers.

  \<^bold>\<open>How the program is modelled.\<close>  Python code that touches state is an \<open>op\<close> (theory \<open>Py_Prelude\<close>): a
  function from a state to an exception or a value, and a state, composed with \<open>andThen\<close>.  The state
  of a request is a \<open>world\<close> (theory \<open>World\<close>): the committed tables, the rows as the session sees them, the
  rows added and not flushed, the circuit breakers, the metrics emitted and the environment (clock,
  random numbers, network).  What is not under \<^verbatim>\<open>src/\<close> is a field of the record \<open>platform\<close>: clocks,
  identifiers, randomness, the HTTP client, the database's acceptance of a set of rows, JSON
  decoding, AES-GCM, Argon2, the JWT library.  What a theorem relies on of them is a named hypothesis:
  \<open>enforces_unique\<close> (a commit accepts only rows that satisfy the declared unique constraints),
  \<open>honest_stripe\<close> (Stripe never reports more captured than was asked for), \<open>argon2_faithful\<close>,
  \<open>jwt_faithful\<close>, a cipher that decrypts what it encrypted.  The platforms \<open>sandbox\<close>, \<open>ping_platform\<close> and
  \<open>token_sandbox\<close> satisfy them, and the witnesses run on these.

  \<^bold>\<open>Theories, from the bottom up.\<close>

  \<^item> \<open>Py_Prelude\<close>: operations with state and exceptions, their simplification rules, the calculus of
    invariants \<open>keeps\<close>; Python strings and numerals.  \<open>Errors\<close>: \<^verbatim>\<open>core/errors.py\<close>, \<^verbatim>\<open>api/error_handlers.py\<close>.
  \<^item> \<open>Decimal\<close>, \<open>Money\<close>: Python's decimal arithmetic and \<^verbatim>\<open>core/money.py\<close>; exact round trip, half-even rounding.
  \<^item> \<open>Domain\<close>: \<^verbatim>\<open>domain/\<close>, the payment state machine and the scopes of roles.
  \<^item> \<open>Resilience\<close>: \<^verbatim>\<open>core/resilience.py\<close>; retrying ends within its attempts, the breaker's state is a function of its
    failures under every interleaving of its steps.  \<open>Rate_Limit\<close>: \<^verbatim>\<open>core/rate_limit.py\<close>, the protocol as a locale
    and the fixed window as its instance.
  \<^item> \<open>Hashing\<close>, \<open>Base64\<close>, \<open>Py_Json\<close>: SHA-256, HMAC, base64, JSON writing.  \<open>Signatures\<close>, \<open>Crypto\<close>: \<^verbatim>\<open>security/signatures.py\<close>
    accepts exactly the fresh headers with a matching digest; \<^verbatim>\<open>security/crypto.py\<close> decrypts what it encrypted.
  \<^item> \<open>Config\<close>: \<^verbatim>\<open>core/config.py\<close> and its start-up check.  \<open>World\<close>: \<^verbatim>\<open>db/\<close> and \<^verbatim>\<open>repositories/\<close>; the unit of work
    \<open>session_scope\<close> and the locale \<open>unit_of_work_body\<close>.  \<open>Schemas\<close>: \<^verbatim>\<open>schemas/\<close>.
  \<^item> \<open>Providers\<close>: \<^verbatim>\<open>providers/\<close>; the adapter contract as the locales \<open>payment_adapter\<close> and \<open>sound_adapter\<close>, with the
    sandbox and the Stripe adapter as instances.  \<open>Gateway\<close>: \<^verbatim>\<open>services/gateway_manager.py\<close>.
  \<^item> \<open>Payments\<close>, \<open>Refunds\<close>: the services; \<open>Ledger\<close>: the invariant of payments and refunds (\<open>ledger_ok\<close>) and what each
    operation does to it.  \<open>Session\<close>: what a session will commit, tables that only grow.
  \<^item> \<open>Idempotency\<close>, \<open>Webhooks\<close>, \<open>Credentials\<close>, \<open>Auth\<close>: the other services, with passwords, API keys and tokens.
  \<^item> \<open>Api\<close>: \<^verbatim>\<open>api/\<close>, the dependencies, every endpoint and the request's unit of work.  \<open>Requests\<close>: runs of requests by any
    clients; the locales from \<open>row_invariant\<close> to \<open>session_invariant\<close> (for any request, those that move money,
    those of accounts, all of them) lift an invariant of the elementary steps to every endpoint; journals are
    append-only, roles are stable, scopes are enforced.
  \<^item> \<open>Replay\<close>: repeated requests with an idempotency key.  \<open>Deliveries\<close>: redelivered webhooks.
  \<^item> \<open>Accounts\<close>: an abstract ledger of accounts and the refinement of it by the interface; money is conserved by any
    run of requests.  \<open>Audits\<close>: the differences between two states of the tables and the audit entries that account
    for them.  \<open>Foreign_Keys\<close>: every reference the schema declares is kept by the program.
  \<^item> \<open>Middleware\<close>: \<^verbatim>\<open>middleware/\<close> and \<^verbatim>\<open>main.py\<close>, the stack around the routes.  \<open>Server\<close>: sequences of HTTP requests through
    the stack, which refine runs of the interface; locale \<open>server_invariant\<close>.  \<open>Metrics\<close>: the collectors
    \<^verbatim>\<open>core/metrics.py\<close> declares and what a run of the server adds to them.
  \<^item> \<open>Concurrency\<close>: transactions that overlap, at the database's default isolation: any two requests with one
    idempotency key, any number of refunds; what the ledger and the keys lose without locks.
  \<^item> \<open>Migration\<close>: the initial schema of \<^verbatim>\<open>alembic/versions\<close> as a list of changes and the tables the classes of
    \<^verbatim>\<open>db/models\<close> declare; the two agree, and their keys are the constraints \<open>unique_ok\<close> of \<open>World\<close>.
    \<open>Lengths\<close>: the lengths the columns are declared with, and what becomes of a request whose idempotency key
    is longer than its column.
  \<^item> \<open>Operations\<close>: the log processors of \<^verbatim>\<open>core/logging.py\<close>, \<^verbatim>\<open>generate-key\<close> of \<^verbatim>\<open>cli.py\<close>, \<^verbatim>\<open>scripts/seed.py\<close>.
  \<^item> \<open>Demo\<close>: \<^verbatim>\<open>scripts/demo.py\<close> as a client that sends eight requests through the whole interface; each request
    takes the database from one stage to the next, and the client ends with the lines it promises.
  \<^item> \<open>Addresses\<close>, \<open>Address_Blocks\<close>, \<open>Ssrf\<close>: Python's IP addresses (their text reads back), the public ones as intervals,
    and the request guard \<^verbatim>\<open>security/ssrf.py\<close>.

  \<^bold>\<open>How the parts meet.\<close>  A request passes the middleware (\<open>stack\<close>), reaches an endpoint (\<open>endpoint_of\<close>), which
  authenticates (\<open>require_scope\<close>), consults the idempotency records (\<open>with_idempotency\<close>) and calls a service;
  the service resolves an adapter (\<open>get_provider\<close>), calls it through breaker and retry (\<open>execute\<close>), changes
  rows and appends an audit entry; the whole is one unit of work (\<open>session_scope\<close>), committed on return and
  rolled back on an exception.  A run (\<open>api_run\<close>) is any sequence of well-formed requests from any clients,
  each with its own session, with anything but the database changing in between.

  \<^bold>\<open>Bounds.\<close>  No fuel is used: retrying recurses over its attempts, every other loop over data.  Integers are
  Python's unbounded ones; identifiers are 128-bit words, SHA-256 works on 32-bit words.  Clock readings and
  pauses are rationals; floating point is exact in the model.

  \<^bold>\<open>Not modelled.\<close>  A run serialises requests; of interleaved transactions only those that all read before the
  first of them commits are modelled.  A commit in the model is refused for what the hypotheses say of
  \<open>db_accepts\<close>: unique constraints everywhere, lengths where \<open>enforces_lengths\<close> is assumed; foreign keys need not
  be enforced, since \<open>Foreign_Keys\<close> proves them kept.  Parsing of requests into the schemas' fields, routing and
  CORS are the web framework's, rendering of log lines and of the metrics page the libraries'.  Set-up code that
  only calls libraries (engine and sessions, \<^verbatim>\<open>alembic/env.py\<close>, argument parsing and server start of \<^verbatim>\<open>cli.py\<close>,
  the constructors in \<^verbatim>\<open>api/deps.py\<close> that wire a service to its session) has no behaviour of its own to model.
  The log lines the services write are left out.  What remains of \<^verbatim>\<open>src/app\<close> beyond this are declarations the
  framework reads.
\<close>

end
